(* ===== verification/Prelude.thy ===== *)
theory Prelude
  imports Main "HOL-Library.Word" "HOL-Library.AList"
begin

text \<open>
  Shared vocabulary of the development. Addresses and field values are Python
  integers (\<open>int\<close>, unbounded); the bytes of an image are \<open>8 word\<close>. A value that
  the source returns as a \<open>NoneObject\<close> (an absent object carrying a reason) is
  the left injection of \<open>string + 'a\<close>. The collections \<open>mem_simps\<close> and
  \<open>walk_simps\<close> gather the rules that evaluate reads from an image and the
  steps of the traversal loops; the lemmas on finite sets give the termination
  measure shared by every cycle-safe walk (the number of valid addresses not
  yet visited).
\<close>

unbundle bit_operations_syntax

named_theorems mem_simps "rules that evaluate reads from an address space"
named_theorems walk_simps "unfolding rules of the traversal loops"

type_synonym addr = int
type_synonym byte = "8 word"

text \<open>A \<open>NoneObject\<close> with its reason, or a present value.\<close>
type_synonym 'a nobj = "string + 'a"

abbreviation NoneObject :: "string \<Rightarrow> 'a nobj" where
  "NoneObject r \<equiv> Inl r"

definition present :: "'a nobj \<Rightarrow> bool" where
  "present x = (case x of Inl _ \<Rightarrow> False | Inr _ \<Rightarrow> True)"

text \<open>Python's \<open>sep.join(xs)\<close> on strings.\<close>

fun str_join :: "string \<Rightarrow> string list \<Rightarrow> string" where
  "str_join sep [] = []"
| "str_join sep [x] = x"
| "str_join sep (x # y # xs) = x @ sep @ str_join sep (y # xs)"

lemma present_simps [simp]:
  "present (Inl r) = False" "present (Inr v) = True"
  by (simp_all add: present_def)

subsection \<open>The measure of cycle-safe walks\<close>

text \<open>
  Every walk in the source keeps a set of visited offsets and only continues
  to a valid offset that is not yet in it. Over a finite set of valid
  addresses the number of unvisited valid addresses strictly decreases.
\<close>

lemma card_unvisited_decreases:
  assumes "finite A" and "x \<in> A" and "x \<notin> S"
  shows "card (A - insert x S) < card (A - S)"
proof (rule psubset_card_mono)
  show "finite (A - S)" using assms(1) by blast
  show "A - insert x S \<subset> A - S" using assms(2,3) by blast
qed

lemma card_unvisited_mono:
  assumes "finite A"
  shows "card (A - insert x S) \<le> card (A - S)"
  using assms by (intro card_mono) auto

subsection \<open>Lists and options\<close>

lemma those_Some_length:
  "those xs = Some ys \<Longrightarrow> length ys = length xs"
proof (induction xs arbitrary: ys)
  case Nil
  then show ?case by simp
next
  case (Cons x xs)
  then show ?case by (auto split: option.splits)
qed

lemma those_Some_iff:
  "(those xs = Some ys) = (xs = map Some ys)"
proof (induction xs arbitrary: ys)
  case Nil
  then show ?case by auto
next
  case (Cons x xs)
  then show ?case by (cases ys) (auto split: option.splits)
qed

lemma those_None_iff:
  "(those xs = None) = (None \<in> set xs)"
proof (induction xs)
  case Nil
  then show ?case by simp
next
  case (Cons x xs)
  then show ?case by (auto split: option.splits)
qed

subsection \<open>Association lists\<close>

text \<open>
  Python dictionaries of the schema are association lists with distinct keys.
  Two such lists are equal when they list the same keys in the same order and
  map them alike.
\<close>

lemma alist_eqI:
  assumes "distinct (map fst xs)" and "map fst xs = map fst ys" and "map_of xs = map_of ys"
  shows "xs = ys"
  using assms
proof (induction xs arbitrary: ys)
  case Nil
  then show ?case by simp
next
  case (Cons x xs)
  then obtain y ys' where ys: "ys = y # ys'" by (cases ys) auto
  with Cons.prems have k: "fst y = fst x" by simp
  have "map_of (x # xs) (fst x) = map_of ys (fst x)" by (rule fun_cong [OF Cons.prems(3)])
  with ys k have v: "snd y = snd x" by simp
  have "map_of xs = map_of ys'"
  proof
    fix k'
    show "map_of xs k' = map_of ys' k'"
    proof (cases "k' = fst x")
      case True
      have eq: "map fst ys' = map fst xs" using Cons.prems(2) ys by simp
      have "fst x \<notin> set (map fst xs)" using Cons.prems(1) by simp
      moreover from this have "fst x \<notin> set (map fst ys')" unfolding eq .
      ultimately have "map_of xs (fst x) = None" and "map_of ys' (fst x) = None"
        by (simp_all add: map_of_eq_None_iff)
      with True show ?thesis by simp
    next
      case False
      have "map_of (x # xs) k' = map_of ys k'" by (rule fun_cong [OF Cons.prems(3)])
      with False ys k show ?thesis by simp
    qed
  qed
  with Cons ys k v show ?case by (simp add: prod_eq_iff)
qed

lemma map_fst_update:
  "map fst (AList.update k v xs) = (if k \<in> set (map fst xs) then map fst xs else map fst xs @ [k])"
  by (induction xs) auto

subsection \<open>Evaluation\<close>

text \<open>
  Python 2 \<open>/\<close> on the sizes of the object model is integer division; code
  evaluation computes it on \<open>int\<close>, whose numerals divide in logarithmic time.
\<close>

lemma nat_div_via_int [code]: "(m::nat) div n = nat (int m div int n)"
  by (metis nat_int zdiv_int)

subsection \<open>Masks on Python integers\<close>

text \<open>\<open>v & ~7\<close> and \<open>v & 7\<close>, the split of a word into a pointer and a 3-bit tag.\<close>

lemma and_not7: "(x::int) AND NOT 7 = x div 8 * 8"
proof -
  have "(x::int) AND NOT (mask 3) = push_bit 3 (drop_bit 3 x)"
    by (rule bit_eqI) (auto simp: bit_simps)
  moreover have "(7::int) = mask 3" by (simp add: mask_eq_exp_minus_1)
  ultimately show ?thesis by (simp add: push_bit_eq_mult drop_bit_eq_div)
qed

lemma and7: "(x::int) AND 7 = x mod 8"
proof -
  have "x AND mask 3 = x mod 8" by (simp add: take_bit_eq_mask [symmetric] take_bit_eq_mod)
  moreover have "(7::int) = mask 3" by (simp add: mask_eq_exp_minus_1)
  ultimately show ?thesis by simp
qed

lemma aligned_plus_tag_div8:
  assumes "p mod 8 = 0" and "0 \<le> t" and "t < 8"
  shows "((p::int) + t) div 8 * 8 = p" and "(p + t) mod 8 = t"
proof -
  from assms(1) obtain k where "p = 8 * k" by (metis dvd_def mod_0_imp_dvd)
  with assms(2,3) show "(p + t) div 8 * 8 = p" and "(p + t) mod 8 = t" by simp_all
qed

text \<open>
  Page-table arithmetic: an address aligned to \<open>2^k\<close> has no bit below
  \<open>k\<close>, so \<open>OR\<close> with a smaller offset is addition and a mask of the high
  bits recovers it.
\<close>

lemma bit_below_aligned: "(x::int) mod 2 ^ k = 0 \<Longrightarrow> n < k \<Longrightarrow> \<not> bit x n"
proof
  assume "x mod 2 ^ k = 0" "n < k" "bit x n"
  then have "bit (take_bit k x) n" by (simp add: bit_take_bit_iff)
  with \<open>x mod 2 ^ k = 0\<close> show False by (simp add: take_bit_eq_mod)
qed

lemma bit_above_bound: "0 \<le> (x::int) \<Longrightarrow> x < 2 ^ m \<Longrightarrow> bit x n \<Longrightarrow> n < m"
proof -
  assume "0 \<le> x" "x < 2 ^ m" "bit x n"
  then have "take_bit m x = x" by (simp add: take_bit_int_eq_self_iff)
  with \<open>bit x n\<close> have "bit (take_bit m x) n" by simp
  then show "n < m" by (simp add: bit_take_bit_iff)
qed

lemma aligned_or_low:
  assumes "(p::int) mod 2 ^ k = 0" and "0 \<le> c" and "c < 2 ^ k"
  shows "p OR c = p + c"
proof -
  have "p AND c = 0"
  proof (rule bit_eqI)
    fix n
    show "bit (p AND c) n = bit 0 n"
      using bit_below_aligned [OF assms(1)] bit_above_bound [OF assms(2,3)] by (auto simp: bit_and_iff)
  qed
  then show ?thesis by (simp add: disjunctive_add_eq_or)
qed

lemma bit_aligned_plus:
  assumes "(p::int) mod 2 ^ k = 0" and "0 \<le> c" and "c < 2 ^ k" and "n < k"
  shows "bit (p + c) n = bit c n"
  using aligned_or_low [OF assms(1-3)] bit_below_aligned [OF assms(1,4)] by (metis bit_or_iff)

lemma aligned_and_keep:
  assumes "(x::int) mod 2 ^ k = 0" and "0 \<le> x" and "x < 2 ^ m"
  shows "x AND (mask m AND NOT (mask k)) = x"
proof (rule bit_eqI)
  fix n
  show "bit (x AND (mask m AND NOT (mask k))) n = bit x n"
    using bit_below_aligned [OF assms(1)] bit_above_bound [OF assms(2,3)]
    by (auto simp: bit_and_iff bit_not_iff bit_mask_iff)
qed

lemma aligned_plus_and_keep:
  assumes "(p::int) mod 2 ^ k = 0" and "0 \<le> p" and "p < 2 ^ m" and "0 \<le> c" and "c < 2 ^ k"
  shows "(p + c) AND (mask m AND NOT (mask k)) = p"
proof (rule bit_eqI)
  fix n
  have pc: "p + c = p OR c" using aligned_or_low [OF assms(1,4,5)] by simp
  show "bit ((p + c) AND (mask m AND NOT (mask k))) n = bit p n"
    unfolding pc using bit_below_aligned [OF assms(1)] bit_above_bound [OF assms(2,3)] bit_above_bound [OF assms(4,5)]
    by (auto simp: bit_and_iff bit_not_iff bit_mask_iff bit_or_iff)
qed

lemma and_exp_ne_0: "((x::int) AND 2 ^ n \<noteq> 0) = bit x n"
  by (simp add: and_exp_eq_0_iff_not_bit)

end
