(* ===== verification/Loader.thy ===== *)
theory Loader
  imports Prelude
begin

text \<open>
  The address-space resolver, \<open>load_as\<close> of
  \<open>src/branches/Volatility-1.4_beta1/volatility/utils.py\<close>. The registry's
  ordered catalogue \<open>registry.AS_CLASSES.classes\<close> is a list of classes, each
  with its name and its constructor \<open>cls(base_as, **kwargs)\<close>. A constructor
  accepts (returns the new layer on top of \<open>base_as\<close>), rejects with an
  \<open>AssertionError\<close> carrying a reason, or raises any other exception, which the
  loop does not catch. \<open>AddrSpaceError\<close> is the list of \<open>(driver, reason)\<close>
  pairs that \<open>append_reason\<close> accumulates over the whole run. A voting round
  tries the classes in order and stops at the first that accepts; rounds repeat
  until one finds nothing. The loop has no bound of its own (a catalogue may
  accept forever), so it is a \<open>partial_function (option)\<close>: \<open>None\<close> is
  non-termination.
\<close>

datatype 'as attempt =
    Accepted 'as
  | Rejected string
  | Faulted string

record ('as, 'cfg) as_class =
  cls_name :: string
  cls_new :: "'cfg \<Rightarrow> 'as option \<Rightarrow> 'as attempt"

type_synonym reasons = "(string \<times> string) list"

datatype load_error =
    AddrSpaceError reasons
  | Fault string

text \<open>
  One voting round, \<open>for cls in registry.AS_CLASSES.classes\<close>: the result is
  the fault that escaped, or the new \<open>base_as\<close>, the flag \<open>found\<close> and the
  reasons appended so far.
\<close>

fun voting_round ::
  "('as, 'cfg) as_class list \<Rightarrow> 'cfg \<Rightarrow> 'as option \<Rightarrow> reasons
     \<Rightarrow> string + ('as option \<times> bool \<times> reasons)" where
  "voting_round [] cfg base rs = Inr (base, False, rs)"
| "voting_round (c # cs) cfg base rs =
     (case cls_new c cfg base of
        Accepted b \<Rightarrow> Inr (Some b, True, rs)
      | Rejected e \<Rightarrow> voting_round cs cfg base (rs @ [(cls_name c, e)])
      | Faulted m \<Rightarrow> Inl m)"

text \<open>The \<open>while 1\<close> loop and the final \<open>if base_as is None: raise error\<close>.\<close>

partial_function (option) load_as_loop ::
  "('as, 'cfg) as_class list \<Rightarrow> 'cfg \<Rightarrow> 'as option \<Rightarrow> reasons
     \<Rightarrow> (load_error + 'as) option" where
  "load_as_loop cs cfg base rs =
     (case voting_round cs cfg base rs of
        Inl m \<Rightarrow> Some (Inl (Fault m))
      | Inr (base', found, rs') \<Rightarrow>
          (if found then load_as_loop cs cfg base' rs'
           else (case base' of
                   None \<Rightarrow> Some (Inl (AddrSpaceError rs'))
                 | Some b \<Rightarrow> Some (Inr b))))"

definition load_as :: "('as, 'cfg) as_class list \<Rightarrow> 'cfg \<Rightarrow> (load_error + 'as) option" where
  "load_as cs cfg = load_as_loop cs cfg None []"

text \<open>
  The abstract contract of a round: the first class of the catalogue that
  accepts the current base, all classes before it having rejected it.
\<close>

fun first_accept :: "('as, 'cfg) as_class list \<Rightarrow> 'cfg \<Rightarrow> 'as option \<Rightarrow> 'as option" where
  "first_accept [] cfg base = None"
| "first_accept (c # cs) cfg base =
     (case cls_new c cfg base of
        Accepted b \<Rightarrow> Some b
      | Rejected e \<Rightarrow> first_accept cs cfg base
      | Faulted m \<Rightarrow> None)"

definition no_fault :: "('as, 'cfg) as_class list \<Rightarrow> 'cfg \<Rightarrow> 'as option \<Rightarrow> bool" where
  "no_fault cs cfg base = (\<forall>c \<in> set cs. \<forall>m. cls_new c cfg base \<noteq> Faulted m)"

text \<open>The chains the resolver can build: each layer is the winner of a round on the one below.\<close>

inductive vote_reach :: "('as, 'cfg) as_class list \<Rightarrow> 'cfg \<Rightarrow> 'as option \<Rightarrow> bool"
  for cs cfg where
  start: "vote_reach cs cfg None"
| win: "vote_reach cs cfg base \<Longrightarrow> first_accept cs cfg base = Some b \<Longrightarrow> vote_reach cs cfg (Some b)"

text \<open>
  Outcome predicates of the loop: a returned layer was reached by winning
  rounds and every class rejects it; a fault escaped from a class tried on a
  reachable base.
\<close>

definition settled_on :: "('as, 'cfg) as_class list \<Rightarrow> 'cfg \<Rightarrow> ('as option \<Rightarrow> bool) \<Rightarrow> (load_error + 'as) \<Rightarrow> bool" where
  "settled_on cs cfg reach r = (\<forall>b. r = Inr b \<longrightarrow>
     reach (Some b) \<and> (\<forall>c \<in> set cs. \<exists>e. cls_new c cfg (Some b) = Rejected e))"

definition faulted_on :: "('as, 'cfg) as_class list \<Rightarrow> 'cfg \<Rightarrow> ('as option \<Rightarrow> bool) \<Rightarrow> (load_error + 'as) \<Rightarrow> bool" where
  "faulted_on cs cfg reach r = (\<forall>m. r = Inl (Fault m) \<longrightarrow>
     (\<exists>base'. reach base' \<and> (\<exists>c \<in> set cs. cls_new c cfg base' = Faulted m)))"

text \<open>
  A demonstration catalogue: a class that never accepts, and one that stacks
  layers \<open>0\<close>, \<open>1\<close>, \<open>2\<close> and rejects a third.
\<close>

definition demo_reject :: "(nat, unit) as_class" where
  "demo_reject = \<lparr>cls_name = ''FileAddressSpace'', cls_new = (\<lambda>cfg base. Rejected ''No base'')\<rparr>"

definition demo_stack :: "(nat, unit) as_class" where
  "demo_stack = \<lparr>cls_name = ''IA32PagedMemory'', cls_new = (\<lambda>cfg base. case base of
      None \<Rightarrow> Accepted 0 | Some k \<Rightarrow> if k < 2 then Accepted (Suc k) else Rejected ''Stacked'')\<rparr>"

definition demo_fault :: "(nat, unit) as_class" where
  "demo_fault = \<lparr>cls_name = ''Broken'', cls_new = (\<lambda>cfg base. case base of
      None \<Rightarrow> Rejected ''No base'' | Some k \<Rightarrow> Faulted ''KeyError'')\<rparr>"

definition demo_rank :: "nat option \<Rightarrow> nat" where
  "demo_rank base = (case base of None \<Rightarrow> 3 | Some k \<Rightarrow> 2 - k)"

subsection \<open>One round\<close>

lemma voting_round_found:
  "voting_round cs cfg base rs = Inr (base', True, rs') \<Longrightarrow> first_accept cs cfg base = base'"
  by (induction cs cfg base rs rule: voting_round.induct) (auto split: attempt.splits)

lemma voting_round_found_Some:
  "voting_round cs cfg base rs = Inr (base', True, rs') \<Longrightarrow> \<exists>b. base' = Some b"
  by (induction cs cfg base rs rule: voting_round.induct) (auto split: attempt.splits)

lemma voting_round_not_found:
  "voting_round cs cfg base rs = Inr (base', False, rs') \<Longrightarrow>
     base' = base \<and> rs' = rs @ map (\<lambda>c. (cls_name c, case cls_new c cfg base of Rejected e \<Rightarrow> e)) cs
     \<and> (\<forall>c \<in> set cs. \<exists>e. cls_new c cfg base = Rejected e)"
  by (induction cs cfg base rs rule: voting_round.induct) (auto split: attempt.splits)

lemma voting_round_no_fault:
  "no_fault cs cfg base \<Longrightarrow> \<exists>base' found rs'. voting_round cs cfg base rs = Inr (base', found, rs')"
  by (induction cs cfg base rs rule: voting_round.induct) (auto simp: no_fault_def split: attempt.splits)

lemma voting_round_first_accept:
  "no_fault cs cfg base \<Longrightarrow> first_accept cs cfg base = Some b \<Longrightarrow>
     \<exists>rs'. voting_round cs cfg base rs = Inr (Some b, True, rs')"
  by (induction cs cfg base rs rule: voting_round.induct) (auto simp: no_fault_def split: attempt.splits)

lemma voting_round_none_accepts:
  "no_fault cs cfg base \<Longrightarrow> first_accept cs cfg base = None \<Longrightarrow>
     \<exists>rs'. voting_round cs cfg base rs = Inr (base, False, rs')"
  by (induction cs cfg base rs rule: voting_round.induct) (auto simp: no_fault_def split: attempt.splits)

lemma voting_round_fault:
  "voting_round cs cfg base rs = Inl m \<Longrightarrow> \<exists>c \<in> set cs. cls_new c cfg base = Faulted m"
  by (induction cs cfg base rs rule: voting_round.induct) (auto split: attempt.splits)

lemma first_accept_Some:
  "first_accept cs cfg base = Some b \<Longrightarrow> \<exists>c \<in> set cs. cls_new c cfg base = Accepted b"
  by (induction cs cfg base rule: first_accept.induct) (auto split: attempt.splits)

lemmas voting_round_dests =
  voting_round_found voting_round_found_Some voting_round_not_found voting_round_fault

subsection \<open>The loop\<close>

text \<open>Once a layer has been accepted the base is never \<open>None\<close> again, so no \<open>AddrSpaceError\<close> is raised.\<close>

lemma load_as_loop_Some_base:
  assumes ret: "load_as_loop cs cfg base rs = Some r"
  shows "base \<noteq> None \<longrightarrow> (\<forall>rs0. r \<noteq> Inl (AddrSpaceError rs0))"
proof (rule load_as_loop.raw_induct
    [where P = "\<lambda>cs cfg base rs r. base \<noteq> None \<longrightarrow> (\<forall>rs0. r \<noteq> Inl (AddrSpaceError rs0))", OF _ ret])
  show "base \<noteq> None \<longrightarrow> (\<forall>rs0. r \<noteq> Inl (AddrSpaceError rs0))"
    if IH: "\<And>cs cfg base rs r. f cs cfg base rs = Some r \<Longrightarrow>
              base \<noteq> None \<longrightarrow> (\<forall>rs0. r \<noteq> Inl (AddrSpaceError rs0))"
    and eq: "(case voting_round cs cfg base rs of Inl m \<Rightarrow> Some (Inl (Fault m))
      | Inr (base', found, rs') \<Rightarrow> if found then f cs cfg base' rs'
          else case base' of None \<Rightarrow> Some (Inl (AddrSpaceError rs')) | Some b \<Rightarrow> Some (Inr b)) = Some r"
    for f cs cfg base rs r
  proof (cases "voting_round cs cfg base rs")
    case (Inr res)
    then obtain base' found rs' where res: "voting_round cs cfg base rs = Inr (base', found, rs')"
      by (cases res) auto
    show ?thesis
    proof (cases found)
      case True
      with res eq have rec: "f cs cfg base' rs' = Some r" by simp
      from True res have "base' \<noteq> None" by (auto dest: voting_round_found_Some)
      with IH [OF rec] show ?thesis by blast
    next
      case False
      with res eq show ?thesis by (auto split: option.splits dest: voting_round_not_found)
    qed
  qed (use eq in auto)
qed

lemma load_as_loop_outcome:
  assumes ret: "load_as_loop cs cfg base rs = Some r"
  shows "vote_reach cs cfg base \<longrightarrow>
           settled_on cs cfg (vote_reach cs cfg) r \<and> faulted_on cs cfg (vote_reach cs cfg) r"
proof (rule load_as_loop.raw_induct [where P = "\<lambda>cs cfg base rs r. vote_reach cs cfg base \<longrightarrow>
           settled_on cs cfg (vote_reach cs cfg) r \<and> faulted_on cs cfg (vote_reach cs cfg) r", OF _ ret])
  fix f cs cfg base rs r
  assume IH: "\<And>cs cfg base rs r. f cs cfg base rs = Some r \<Longrightarrow> vote_reach cs cfg base \<longrightarrow>
           settled_on cs cfg (vote_reach cs cfg) r \<and> faulted_on cs cfg (vote_reach cs cfg) r"
    and eq: "(case voting_round cs cfg base rs of Inl m \<Rightarrow> Some (Inl (Fault m))
      | Inr (base', found, rs') \<Rightarrow> if found then f cs cfg base' rs'
          else case base' of None \<Rightarrow> Some (Inl (AddrSpaceError rs')) | Some b \<Rightarrow> Some (Inr b)) = Some r"
  show "vote_reach cs cfg base \<longrightarrow>
           settled_on cs cfg (vote_reach cs cfg) r \<and> faulted_on cs cfg (vote_reach cs cfg) r"
  proof
    assume reach: "vote_reach cs cfg base"
    show "settled_on cs cfg (vote_reach cs cfg) r \<and> faulted_on cs cfg (vote_reach cs cfg) r"
    proof (cases "voting_round cs cfg base rs")
      case (Inl m)
      with eq reach show ?thesis
        by (auto simp: settled_on_def faulted_on_def dest: voting_round_fault)
    next
      case (Inr res)
      then obtain base' found rs' where res: "voting_round cs cfg base rs = Inr (base', found, rs')"
        by (cases res) auto
      show ?thesis
      proof (cases found)
        case True
        with res eq have rec: "f cs cfg base' rs' = Some r" by simp
        from True res obtain bb where "base' = Some bb" "first_accept cs cfg base = Some bb"
          by (auto dest: voting_round_dests)
        with reach have "vote_reach cs cfg base'" by (auto intro: vote_reach.win)
        with IH [OF rec] show ?thesis by blast
      next
        case False
        with res have "base' = base" and "\<forall>c \<in> set cs. \<exists>e. cls_new c cfg base = Rejected e"
          by (auto dest: voting_round_not_found)
        with False res eq reach show ?thesis
          by (auto simp: settled_on_def faulted_on_def split: option.splits)
      qed
    qed
  qed
qed

text \<open>
  Termination: when every acceptance strictly lowers a natural-number rank of
  the base (the catalogue cannot stack layers forever), the loop returns.
\<close>

lemma load_as_loop_terminates:
  fixes rank :: "'as option \<Rightarrow> nat"
  assumes rank: "\<forall>c \<in> set cs. \<forall>base b. cls_new c cfg base = Accepted b \<longrightarrow> rank (Some b) < rank base"
  shows "\<exists>r. load_as_loop cs cfg base rs = Some r"
proof (induction "rank base" arbitrary: base rs rule: less_induct)
  case less
  show ?case
  proof (cases "voting_round cs cfg base rs")
    case (Inl m)
    then show ?thesis by (simp add: load_as_loop.simps)
  next
    case (Inr res)
    then obtain base' found rs' where res: "voting_round cs cfg base rs = Inr (base', found, rs')"
      by (cases res) auto
    show ?thesis
    proof (cases found)
      case True
      from True res obtain bb where bb: "base' = Some bb" "first_accept cs cfg base = Some bb"
        by (auto dest: voting_round_dests)
      then obtain c where "c \<in> set cs" "cls_new c cfg base = Accepted bb"
        by (auto dest: first_accept_Some)
      with rank bb have "rank base' < rank base" by blast
      then obtain r where "load_as_loop cs cfg base' rs' = Some r" using less by blast
      with True res show ?thesis by (simp add: load_as_loop.simps)
    next
      case False
      with res show ?thesis by (simp add: load_as_loop.simps split: option.splits)
    qed
  qed
qed

subsection \<open>Properties of \<open>load_as\<close>\<close>

text \<open>
  C1. Total failure reports every class of the catalogue: when \<open>load_as\<close>
  raises \<open>AddrSpaceError\<close>, every class rejected the bare image, and the
  reasons are exactly one \<open>(name, reason)\<close> pair per class, in catalogue order.
\<close>

theorem load_as_error_reasons:
  assumes "load_as cs cfg = Some (Inl (AddrSpaceError rs))"
  shows "(\<forall>c \<in> set cs. \<exists>e. cls_new c cfg None = Rejected e) \<and>
         rs = map (\<lambda>c. (cls_name c, case cls_new c cfg None of Rejected e \<Rightarrow> e)) cs"
proof (cases "voting_round cs cfg None []")
  case (Inl m)
  with assms show ?thesis by (simp add: load_as_def load_as_loop.simps)
next
  case (Inr res)
  then obtain base' found rs' where res: "voting_round cs cfg None [] = Inr (base', found, rs')"
    by (cases res) auto
  show ?thesis
  proof (cases found)
    case True
    with res assms have rec: "load_as_loop cs cfg base' rs' = Some (Inl (AddrSpaceError rs))"
      by (simp add: load_as_def load_as_loop.simps)
    from True res have "base' \<noteq> None" by (auto dest: voting_round_found_Some)
    with load_as_loop_Some_base [OF rec] show ?thesis by blast
  next
    case False
    with res assms show ?thesis
      by (auto simp: load_as_def load_as_loop.simps dest: voting_round_not_found)
  qed
qed

text \<open>
  C2. Partial success is success: a layer returned by \<open>load_as\<close> is the end
  of a chain of round winners starting from the bare image, and every class of
  the catalogue rejects stacking another layer on it.
\<close>

theorem load_as_success:
  assumes "load_as cs cfg = Some (Inr b)"
  shows "vote_reach cs cfg (Some b) \<and> (\<forall>c \<in> set cs. \<exists>e. cls_new c cfg (Some b) = Rejected e)"
  using load_as_loop_outcome [OF assms [unfolded load_as_def]] vote_reach.start [of cs cfg]
  by (simp add: settled_on_def)

text \<open>
  C3. A fault that is not an \<open>AssertionError\<close> aborts resolution: it is the
  fault of some class tried on a base the resolver had reached.
\<close>

theorem load_as_fault:
  assumes "load_as cs cfg = Some (Inl (Fault m))"
  shows "\<exists>base. vote_reach cs cfg base \<and> (\<exists>c \<in> set cs. cls_new c cfg base = Faulted m)"
  using load_as_loop_outcome [OF assms [unfolded load_as_def]] vote_reach.start [of cs cfg]
  by (simp add: faulted_on_def)

text \<open>
  C4. Termination of the voting loop: if every acceptance lowers a natural
  rank of the base, \<open>load_as\<close> returns (a result or an error).
\<close>

theorem load_as_terminates:
  fixes rank :: "'as option \<Rightarrow> nat"
  assumes "\<forall>c \<in> set cs. \<forall>base b. cls_new c cfg base = Accepted b \<longrightarrow> rank (Some b) < rank base"
  shows "\<exists>r. load_as cs cfg = Some r"
  using load_as_loop_terminates [OF assms] by (simp add: load_as_def)

subsection \<open>Witnesses\<close>

lemma demo_load_as_stack: "load_as [demo_reject, demo_stack] () = Some (Inr 2)"
  by (simp add: load_as_def load_as_loop.simps demo_reject_def demo_stack_def)

lemma demo_load_as_fail:
  "load_as [demo_reject, demo_fault] () =
     Some (Inl (AddrSpaceError [(''FileAddressSpace'', ''No base''), (''Broken'', ''No base'')]))"
  by (simp add: load_as_def load_as_loop.simps demo_reject_def demo_fault_def)

theorem load_as_error_reasons_witness:
  "load_as [demo_reject, demo_fault] () =
     Some (Inl (AddrSpaceError [(''FileAddressSpace'', ''No base''), (''Broken'', ''No base'')])) \<and>
   [(''FileAddressSpace'', ''No base''), (''Broken'', ''No base'')] =
     map (\<lambda>c. (cls_name c, case cls_new c () None of Rejected e \<Rightarrow> e)) [demo_reject, demo_fault]"
  using load_as_error_reasons [OF demo_load_as_fail] demo_load_as_fail
  by (simp add: demo_reject_def demo_fault_def)

theorem load_as_success_witness:
  "load_as [demo_reject, demo_stack] () = Some (Inr 2) \<and> vote_reach [demo_reject, demo_stack] () (Some 2)"
  using load_as_success [OF demo_load_as_stack] demo_load_as_stack by simp

lemma demo_load_as_fault:
  "load_as [demo_fault, demo_stack] () = Some (Inl (Fault ''KeyError''))"
  by (simp add: load_as_def load_as_loop.simps demo_fault_def demo_stack_def)

theorem load_as_fault_witness:
  "load_as [demo_fault, demo_stack] () = Some (Inl (Fault ''KeyError'')) \<and>
   (\<exists>base. vote_reach [demo_fault, demo_stack] () base \<and>
      (\<exists>c \<in> set [demo_fault, demo_stack]. cls_new c () base = Faulted ''KeyError''))"
  using load_as_fault [OF demo_load_as_fault] demo_load_as_fault by simp

lemma demo_rank_decreases:
  "\<forall>c \<in> set [demo_reject, demo_stack]. \<forall>base b. cls_new c () base = Accepted b \<longrightarrow>
     demo_rank (Some b) < demo_rank base"
  by (auto simp: demo_reject_def demo_stack_def demo_rank_def split: option.splits if_splits)

theorem load_as_terminates_witness:
  "\<exists>r. load_as [demo_reject, demo_stack] () = Some r"
  using load_as_terminates [OF demo_rank_decreases] by simp

end
