(* ===== verification/AddressSpace.thy ===== *)
theory AddressSpace
  imports Prelude
begin

text \<open>
  The raw byte source and the primitive reads of the object model. The
  repository's \<open>volatility/addrspace.py\<close> and \<open>volatility/obj.py\<close> are not among
  the sources; their interface is modelled from the spec (sections 3, 4.3 and
  6): an address space answers, for every address, either the byte stored there
  or nothing (an unreadable page). Bytes are Python 2 \<open>str\<close> characters, so an
  image is a partial function from addresses to \<open>char\<close>. Native integers are
  read little-endian (\<open>struct.unpack('<I')\<close> and \<open>'<Q'\<close>); a pointer is
  dereferenced only to a valid address, otherwise the read gives a
  \<open>NoneObject\<close>. Strings are read with zero padding of unreadable bytes and cut
  at the first NUL, as \<open>obj.String\<close> does.
\<close>

record addrspace =
  as_byte :: "addr \<Rightarrow> char option"

definition is_valid_address :: "addrspace \<Rightarrow> addr \<Rightarrow> bool" where
  "is_valid_address vm a = (as_byte vm a \<noteq> None)"

definition read :: "addrspace \<Rightarrow> addr \<Rightarrow> nat \<Rightarrow> string option" where
  "read vm a n = those (map (\<lambda>k. as_byte vm (a + int k)) [0..<n])"

definition zread :: "addrspace \<Rightarrow> addr \<Rightarrow> nat \<Rightarrow> string" where
  "zread vm a n = map (\<lambda>k. case as_byte vm (a + int k) of None \<Rightarrow> CHR 0x00 | Some c \<Rightarrow> c) [0..<n]"

fun le_decode :: "string \<Rightarrow> nat" where
  "le_decode [] = 0"
| "le_decode (c # cs) = of_char c + 256 * le_decode cs"

fun le_encode :: "nat \<Rightarrow> nat \<Rightarrow> string" where
  "le_encode 0 v = []"
| "le_encode (Suc n) v = char_of (v mod 256) # le_encode n (v div 256)"

definition read_uint :: "addrspace \<Rightarrow> addr \<Rightarrow> nat \<Rightarrow> int option" where
  "read_uint vm a n = map_option (\<lambda>s. int (le_decode s)) (read vm a n)"

text \<open>
  \<open>struct.unpack\<close> with a signed format (\<open>'<l'\<close>, \<open>'<q'\<close>): the two's
  complement reading of \<open>n\<close> little-endian bytes.
\<close>

definition read_sint :: "addrspace \<Rightarrow> addr \<Rightarrow> nat \<Rightarrow> int option" where
  "read_sint vm a n = map_option (\<lambda>v. if v < 2 ^ (8 * n - 1) then v else v - 2 ^ (8 * n)) (read_uint vm a n)"

definition read_string :: "addrspace \<Rightarrow> addr \<Rightarrow> nat \<Rightarrow> string" where
  "read_string vm a n = takeWhile (\<lambda>c. c \<noteq> CHR 0x00) (zread vm a n)"

text \<open>
  \<open>obj.Object(theType, offset, vm)\<close>: an object is instantiated only at a valid
  offset; elsewhere the result is a \<open>NoneObject\<close> (spec 4.3). An object is
  represented by its offset.
\<close>

definition new_object :: "addrspace \<Rightarrow> addr \<Rightarrow> addr nobj" where
  "new_object vm a = (if is_valid_address vm a then Inr a else NoneObject ''Invalid Address'')"

definition deref :: "addrspace \<Rightarrow> addr \<Rightarrow> addr nobj" where
  "deref vm p = new_object vm p"

text \<open>
  A field read as a pointer (\<open>Pointer.dereference\<close>): the pointer's value at
  address \<open>a\<close> (\<open>psize\<close> bytes), then the object at that value if it is valid.
\<close>

definition read_ptr_deref :: "addrspace \<Rightarrow> nat \<Rightarrow> addr \<Rightarrow> addr nobj" where
  "read_ptr_deref vm psize a =
     (case read_uint vm a psize of
        None \<Rightarrow> NoneObject ''Pointer value unreadable''
      | Some p \<Rightarrow> deref vm p)"

text \<open>Images given by an association list of bytes, and a run of bytes stored from an address.\<close>

definition image_of :: "(addr \<times> char) list \<Rightarrow> addrspace" where
  "image_of bs = \<lparr>as_byte = map_of bs\<rparr>"

definition store_bytes :: "addr \<Rightarrow> string \<Rightarrow> (addr \<times> char) list" where
  "store_bytes a s = zip (map (\<lambda>k. a + int k) [0..<length s]) s"

subsection \<open>Little-endian decoding\<close>

lemma length_le_encode [simp]: "length (le_encode n v) = n"
  by (induction n arbitrary: v) simp_all

lemma le_decode_bound: "le_decode cs < 256 ^ length cs"
proof (induction cs)
  case Nil
  then show ?case by simp
next
  case (Cons c cs)
  have c: "of_char c < (256::nat)" by (rule nat_of_char_less_256)
  from Cons.IH have "Suc (le_decode cs) \<le> 256 ^ length cs" by simp
  then have "256 * Suc (le_decode cs) \<le> 256 * 256 ^ length cs" by (rule mult_le_mono2)
  then have "256 + 256 * le_decode cs \<le> 256 * 256 ^ length cs" by simp
  with c have "of_char c + 256 * le_decode cs < 256 * 256 ^ length cs" by linarith
  then show ?case by simp
qed

lemma le_decode_encode: "le_decode (le_encode n v) = v mod 256 ^ n"
proof (induction n arbitrary: v)
  case 0
  then show ?case by simp
next
  case (Suc n)
  have "v mod 256 + 256 * (v div 256 mod 256 ^ n) = v mod (256 * 256 ^ n)"
    by (simp add: mod_mult2_eq)
  with Suc.IH show ?case by (simp add: of_char_of)
qed

lemma le_encode_decode: "le_encode (length cs) (le_decode cs) = cs"
proof (induction cs)
  case Nil
  then show ?case by simp
next
  case (Cons c cs)
  have "(of_char c + 256 * le_decode cs) mod 256 = of_char c"
    using nat_of_char_less_256 [of c] by simp
  moreover have "(of_char c + 256 * le_decode cs) div 256 = le_decode cs"
    using nat_of_char_less_256 [of c] by simp
  ultimately show ?case using Cons.IH by (simp add: char_of_char)
qed

subsection \<open>Reads\<close>

declare read_def [mem_simps] read_uint_def [mem_simps] image_of_def [mem_simps]
  store_bytes_def [mem_simps] upt_rec [mem_simps]

lemma length_zread [simp]: "length (zread vm a n) = n"
  by (simp add: zread_def)

lemma read_Some_length:
  "read vm a n = Some s \<Longrightarrow> length s = n"
  unfolding read_def by (drule those_Some_length) simp

lemma read_Some_iff_valid:
  "(read vm a n \<noteq> None) = (\<forall>k < n. is_valid_address vm (a + int k))"
  unfolding read_def is_valid_address_def those_None_iff
  by (auto simp: image_iff) (metis atLeast0LessThan lessThan_iff not_None_eq)

lemma read_uint_bound:
  "read_uint vm a n = Some v \<Longrightarrow> 0 \<le> v \<and> v < 256 ^ n"
proof -
  assume "read_uint vm a n = Some v"
  then obtain s where s: "read vm a n = Some s" and v: "v = int (le_decode s)"
    by (auto simp: read_uint_def)
  have "le_decode s < 256 ^ n"
    using le_decode_bound [of s] read_Some_length [OF s] by simp
  then have "int (le_decode s) < int (256 ^ n)" by linarith
  then show ?thesis using v by simp
qed

lemma read_sint_bound:
  assumes "read_sint vm a n = Some v" and "0 < n"
  shows "- (2 ^ (8 * n - 1)) \<le> v \<and> v < 2 ^ (8 * n - 1)"
proof -
  from assms(1) obtain x where x: "read_uint vm a n = Some x"
    and v: "v = (if x < 2 ^ (8 * n - 1) then x else x - 2 ^ (8 * n))"
    by (auto simp: read_sint_def)
  have "(2::int) ^ (8 * n) = 2 * 2 ^ (8 * n - 1)"
    using assms(2) by (simp flip: power_Suc)
  moreover have "0 \<le> x \<and> x < 2 ^ (8 * n)"
    using read_uint_bound [OF x] by (simp add: power_mult)
  ultimately show ?thesis using v by auto
qed

lemma new_object_Inr [simp]: "(new_object vm p = Inr q) = (is_valid_address vm p \<and> q = p)"
  by (auto simp: new_object_def)

lemma deref_Inr [simp]: "(deref vm p = Inr q) = (is_valid_address vm p \<and> q = p)"
  by (auto simp: deref_def)

lemma read_ptr_deref_valid:
  "read_ptr_deref vm psize a = Inr q \<Longrightarrow> is_valid_address vm q"
  by (auto simp: read_ptr_deref_def split: option.splits)

end
