(* ===== verification/ListEntry.thy ===== *)
theory ListEntry
  imports AddressSpace
begin

text \<open>
  Iteration over Windows doubly-linked lists, class \<open>_LIST_ENTRY\<close> of
  \<open>src/trunk/volatility/plugins/overlays/windows/windows.py\<close>. A list entry at
  offset \<open>e\<close> holds the pointer \<open>Flink\<close> at \<open>e\<close> and \<open>Blink\<close> at \<open>e + psize\<close>,
  where \<open>psize\<close> is the profile's pointer size. \<open>list_of_type\<close> follows one of
  the two links from the list head; every element is an object of the target
  type whose embedded list entry (the member named \<open>member\<close>) lies \<open>off\<close> bytes
  into it, so the element is instantiated at the link target minus \<open>off\<close>. The
  generator is modelled by the list of everything it yields; the \<open>while 1\<close> loop
  is a \<open>partial_function (option)\<close> over the set \<open>seen\<close> of link targets.
\<close>

definition link_field :: "nat \<Rightarrow> bool \<Rightarrow> int" where
  "link_field psize forward = (if forward then 0 else int psize)"

text \<open>\<open>e.Flink.dereference()\<close> (or \<open>Blink\<close>) for the list entry at \<open>e\<close>.\<close>

definition follow_link :: "addrspace \<Rightarrow> nat \<Rightarrow> bool \<Rightarrow> addr \<Rightarrow> addr nobj" where
  "follow_link vm psize forward e = read_ptr_deref vm psize (e + link_field psize forward)"

text \<open>
  One turn of the loop: instantiate the element at \<open>lst - offset\<close>, read the
  link of its member, stop if that link is invalid or already seen, otherwise
  add it to \<open>seen\<close> and yield the element.
\<close>

partial_function (option) list_walk ::
  "addrspace \<Rightarrow> nat \<Rightarrow> bool \<Rightarrow> int \<Rightarrow> addr set \<Rightarrow> addr \<Rightarrow> addr list option" where
  "list_walk vm psize forward off seen lst =
     (case new_object vm (lst - off) of
        Inl _ \<Rightarrow> Some []
      | Inr item \<Rightarrow>
          (case follow_link vm psize forward (item + off) of
             Inl _ \<Rightarrow> Some []
           | Inr nxt \<Rightarrow>
               (if nxt \<in> seen then Some []
                else Option.bind (list_walk vm psize forward off (insert nxt seen) nxt)
                       (\<lambda>items. Some (item # items)))))"

declare list_walk.simps [code]

definition list_of_type :: "addrspace \<Rightarrow> nat \<Rightarrow> addr \<Rightarrow> bool \<Rightarrow> int \<Rightarrow> addr list option" where
  "list_of_type vm psize head forward off =
     (if \<not> is_valid_address vm head then Some []
      else (case follow_link vm psize forward head of
              Inl _ \<Rightarrow> Some []
            | Inr lst \<Rightarrow> list_walk vm psize forward off {lst} lst))"

text \<open>
  \<open>__iter__\<close>: the list of the entry's own parent type through the entry's
  own member, so the member offset is the entry's distance from its parent.
\<close>

definition list_entry_iter :: "addrspace \<Rightarrow> nat \<Rightarrow> addr \<Rightarrow> addr \<Rightarrow> addr list option" where
  "list_entry_iter vm psize parent e = list_of_type vm psize e True (e - parent)"

text \<open>\<open>_LIST_ENTRY.__nonzero__\<close>: valid when either link points to a valid address.\<close>

definition list_entry_nonzero :: "addrspace \<Rightarrow> nat \<Rightarrow> addr \<Rightarrow> bool" where
  "list_entry_nonzero vm psize e =
     (present (follow_link vm psize True e) \<or> present (follow_link vm psize False e))"

text \<open>
  The list as it lies in memory: a sequence of list entries, each linked to the
  next, and the condition under which a walk stops at an entry (its link is
  invalid or leads back into a given set).
\<close>

fun links :: "addrspace \<Rightarrow> nat \<Rightarrow> bool \<Rightarrow> addr list \<Rightarrow> bool" where
  "links vm psize forward (x # y # ys) =
     (follow_link vm psize forward x = Inr y \<and> links vm psize forward (y # ys))"
| "links vm psize forward _ = True"

definition stops_at :: "addrspace \<Rightarrow> nat \<Rightarrow> bool \<Rightarrow> addr \<Rightarrow> addr set \<Rightarrow> bool" where
  "stops_at vm psize forward e S = (\<forall>t. follow_link vm psize forward e = Inr t \<longrightarrow> t \<in> S)"

definition valid_set :: "addrspace \<Rightarrow> addr set" where
  "valid_set vm = {a. is_valid_address vm a}"

text \<open>
  Two images with 4-byte pointers, list entries \<open>off = 8\<close> bytes into their
  elements and the head at 100: a well-formed ring 100, 200, 300, and a list
  100, 200, 300, 400 whose last entry links back to 300.
\<close>

definition demo_ring :: addrspace where
  "demo_ring = image_of (store_bytes 100 [CHR 0xC8, CHR 0x00, CHR 0x00, CHR 0x00] @ store_bytes 200 [CHR 0x2C, CHR 0x01, CHR 0x00, CHR 0x00] @ store_bytes 300 [CHR 0x64, CHR 0x00, CHR 0x00, CHR 0x00]
     @ [(192, CHR 0x00), (292, CHR 0x00)])"

definition demo_lasso :: addrspace where
  "demo_lasso = image_of (store_bytes 100 [CHR 0xC8, CHR 0x00, CHR 0x00, CHR 0x00] @ store_bytes 200 [CHR 0x2C, CHR 0x01, CHR 0x00, CHR 0x00] @ store_bytes 300 [CHR 0x90, CHR 0x01, CHR 0x00, CHR 0x00]
     @ store_bytes 400 [CHR 0x2C, CHR 0x01, CHR 0x00, CHR 0x00] @ [(192, CHR 0x00), (292, CHR 0x00), (392, CHR 0x00)])"

subsection \<open>The loop\<close>

lemma follow_link_valid:
  "follow_link vm psize forward e = Inr t \<Longrightarrow> is_valid_address vm t"
  unfolding follow_link_def by (rule read_ptr_deref_valid)

lemmas list_walk_unfold [walk_simps] = list_walk.simps

text \<open>On a chain of distinct entries the walk yields every element but the last one.\<close>

lemma list_walk_chain:
  assumes "links vm psize forward (e # ys)" and "distinct (e # ys)" and "e \<in> seen"
    and "set ys \<inter> seen = {}"
    and "\<forall>x \<in> set (butlast (e # ys)). is_valid_address vm (x - off)"
    and "stops_at vm psize forward (last (e # ys)) (seen \<union> set (e # ys))"
  shows "list_walk vm psize forward off seen e = Some (map (\<lambda>x. x - off) (butlast (e # ys)))"
  using assms
proof (induction ys arbitrary: e seen)
  case Nil
  then show ?case
    by (auto simp: list_walk.simps [of vm psize forward off seen e] new_object_def stops_at_def
        split: sum.splits)
next
  case (Cons y ys)
  from Cons.prems have lnk: "follow_link vm psize forward e = Inr y" and y: "y \<notin> seen"
    and base: "is_valid_address vm (e - off)" by auto
  have "list_walk vm psize forward off (insert y seen) y = Some (map (\<lambda>x. x - off) (butlast (y # ys)))"
  proof (rule Cons.IH)
    show "stops_at vm psize forward (last (y # ys)) (insert y seen \<union> set (y # ys))"
      using Cons.prems(3,6) by (auto simp: stops_at_def)
  qed (use Cons.prems in auto)
  with lnk y base show ?case by (simp add: list_walk.simps [of vm psize forward off seen e] new_object_def)
qed

text \<open>Whatever the walk yields, the members' link targets are distinct and new.\<close>

lemma list_walk_distinct:
  assumes ret: "list_walk vm psize forward off seen lst = Some r"
  shows "lst \<in> seen \<longrightarrow> distinct r \<and> (\<forall>x \<in> set r. x + off \<notin> seen - {lst})"
proof (rule list_walk.raw_induct [where P = "\<lambda>vm psize forward off seen lst r.
      lst \<in> seen \<longrightarrow> distinct r \<and> (\<forall>x \<in> set r. x + off \<notin> seen - {lst})", OF _ ret])
  fix f vm psize forward off seen lst r
  assume IH: "\<And>vm psize forward off seen lst r. f vm psize forward off seen lst = Some r \<Longrightarrow>
      lst \<in> seen \<longrightarrow> distinct r \<and> (\<forall>x \<in> set r. x + off \<notin> seen - {lst})"
    and eq: "(case new_object vm (lst - off) of Inl _ \<Rightarrow> Some []
      | Inr item \<Rightarrow> (case follow_link vm psize forward (item + off) of Inl _ \<Rightarrow> Some []
          | Inr nxt \<Rightarrow> (if nxt \<in> seen then Some []
              else Option.bind (f vm psize forward off (insert nxt seen) nxt) (\<lambda>items. Some (item # items))))) = Some r"
  show "lst \<in> seen \<longrightarrow> distinct r \<and> (\<forall>x \<in> set r. x + off \<notin> seen - {lst})"
  proof
    assume lst: "lst \<in> seen"
    show "distinct r \<and> (\<forall>x \<in> set r. x + off \<notin> seen - {lst})"
    proof (cases "r = []")
      case False
      with eq obtain nxt r' where nxt: "nxt \<notin> seen"
        and rec: "f vm psize forward off (insert nxt seen) nxt = Some r'" and r: "r = (lst - off) # r'"
        by (auto split: sum.splits if_splits bind_splits)
      from IH [OF rec] nxt have "distinct r'" and new: "\<forall>x \<in> set r'. x + off \<notin> seen"
        by auto
      from new lst have "lst - off \<notin> set r'" by force
      with \<open>distinct r'\<close> new r show ?thesis by auto
    qed simp
  qed
qed

text \<open>Termination: over an image with finitely many valid addresses the walk returns.\<close>

lemma list_walk_terminates:
  assumes fin: "finite (valid_set vm)"
  shows "\<exists>r. list_walk vm psize forward off seen lst = Some r"
proof (induction "card (valid_set vm - seen)" arbitrary: seen lst rule: less_induct)
  case less
  show ?case
  proof (cases "\<exists>item nxt. new_object vm (lst - off) = Inr item \<and>
      follow_link vm psize forward (item + off) = Inr nxt \<and> nxt \<notin> seen")
    case True
    then obtain item nxt where obj: "new_object vm (lst - off) = Inr item"
      and lnk: "follow_link vm psize forward (item + off) = Inr nxt" and nxt: "nxt \<notin> seen"
      by blast
    have valid: "nxt \<in> valid_set vm"
      using follow_link_valid [OF lnk] by (simp add: valid_set_def)
    from fin valid nxt have "card (valid_set vm - insert nxt seen) < card (valid_set vm - seen)"
      by (rule card_unvisited_decreases)
    with less obtain r where "list_walk vm psize forward off (insert nxt seen) nxt = Some r"
      by blast
    with obj lnk nxt show ?thesis by (simp add: list_walk.simps [of vm psize forward off seen lst] new_object_def)
  next
    case False
    then show ?thesis
      by (auto simp: list_walk.simps [of vm psize forward off seen lst] split: sum.splits)
  qed
qed

text \<open>From the head: the first link target starts the walk, with \<open>seen = {lst}\<close>.\<close>

lemma list_of_type_chain:
  assumes valid: "is_valid_address vm head" and lnk: "links vm psize forward (head # xs)"
    and ne: "xs \<noteq> []" and dist: "distinct xs"
    and bases: "\<forall>x \<in> set (butlast xs). is_valid_address vm (x - off)"
    and stop: "stops_at vm psize forward (last xs) (set xs)"
  shows "list_of_type vm psize head forward off = Some (map (\<lambda>x. x - off) (butlast xs))"
proof -
  from ne obtain x ys where xs: "xs = x # ys" by (cases xs) auto
  from lnk xs have first: "follow_link vm psize forward head = Inr x"
    and rest: "links vm psize forward (x # ys)" by simp_all
  have "list_walk vm psize forward off {x} x = Some (map (\<lambda>x. x - off) (butlast (x # ys)))"
    by (rule list_walk_chain) (use rest dist bases stop xs in \<open>auto simp: stops_at_def\<close>)
  with valid first xs show ?thesis by (simp add: list_of_type_def)
qed

lemma finite_valid_set_image_of: "finite (valid_set (image_of bs))"
proof (rule finite_subset)
  show "valid_set (image_of bs) \<subseteq> dom (map_of bs)"
    by (auto simp: valid_set_def image_of_def is_valid_address_def)
qed (rule finite_dom_map_of)

subsection \<open>Properties of \<open>list_of_type\<close>\<close>

text \<open>
  C5. On a well-formed circular list (head, then distinct entries, then back
  to the head) \<open>list_of_type\<close> yields exactly the elements of the entries, in
  list order, each at its entry minus the member offset, and not the head.
\<close>

theorem list_of_type_circular:
  assumes "is_valid_address vm head" and "links vm psize forward (head # es @ [head])"
    and "distinct (head # es)" and "\<forall>e \<in> set es. is_valid_address vm (e - off)"
  shows "list_of_type vm psize head forward off = Some (map (\<lambda>e. e - off) es)"
proof -
  have "stops_at vm psize forward (last (es @ [head])) (set (es @ [head]))"
  proof (cases es)
    case Nil
    with assms(2) show ?thesis by (simp add: stops_at_def)
  next
    case (Cons e es')
    from assms(2) have "links vm psize forward (head # e # es' @ [head])" using Cons by simp
    then have "follow_link vm psize forward head = Inr e" by simp
    with Cons show ?thesis by (simp add: stops_at_def)
  qed
  with assms have "list_of_type vm psize head forward off = Some (map (\<lambda>x. x - off) (butlast (es @ [head])))"
    by (intro list_of_type_chain) auto
  then show ?thesis by simp
qed

text \<open>
  C6. A list wired into a cycle that does not return to the head (the last
  entry links back to an earlier one) is cut one element short: the walk
  stops when the next link is already seen, before yielding the element whose
  link closes the cycle, so that last element is never yielded.
\<close>

theorem list_of_type_back_edge:
  assumes "is_valid_address vm head" and "links vm psize forward (head # es)"
    and "es \<noteq> []" and "distinct es" and "\<forall>e \<in> set es. is_valid_address vm (e - off)"
    and "follow_link vm psize forward (last es) = Inr t" and "t \<in> set es"
  shows "list_of_type vm psize head forward off = Some (map (\<lambda>e. e - off) (butlast es)) \<and>
         last es - off \<notin> set (map (\<lambda>e. e - off) (butlast es))"
proof
  show "list_of_type vm psize head forward off = Some (map (\<lambda>e. e - off) (butlast es))"
    using assms by (intro list_of_type_chain) (auto simp: stops_at_def dest: in_set_butlastD)
  from assms(3,4) have "last es \<notin> set (butlast es)"
    by (metis append_butlast_last_id distinct_append not_distinct_conv_prefix)
  then show "last es - off \<notin> set (map (\<lambda>e. e - off) (butlast es))" by auto
qed

text \<open>
  C7. Termination: on an image with finitely many valid addresses
  \<open>list_of_type\<close> returns, whatever the links (cycles, self-loops, garbage).
\<close>

theorem list_of_type_terminates:
  assumes "finite (valid_set vm)"
  shows "\<exists>r. list_of_type vm psize head forward off = Some r"
  using list_walk_terminates [OF assms] by (simp add: list_of_type_def split: sum.splits)


subsection \<open>Witnesses\<close>

lemma demo_ring_links: "links demo_ring 4 True (100 # [200, 300] @ [100])"
  by code_simp

lemma demo_ring_bases: "\<forall>e \<in> set [200, 300]. is_valid_address demo_ring (e - 8)"
  by code_simp

theorem list_of_type_circular_witness:
  "list_of_type demo_ring 4 100 True 8 = Some (map (\<lambda>e. e - 8) [200, 300])"
proof -
  have "is_valid_address demo_ring 100" by code_simp
  moreover have "distinct (100 # [200, 300 :: int])" by simp
  ultimately show ?thesis
    using list_of_type_circular [OF _ demo_ring_links _ demo_ring_bases] by blast
qed

theorem list_of_type_back_edge_witness:
  "list_of_type demo_lasso 4 100 True 8 = Some (map (\<lambda>e. e - 8) (butlast [200, 300, 400])) \<and>
   last [200, 300, 400] - 8 \<notin> set (map (\<lambda>e. e - 8) (butlast [200, 300, 400 :: int]))"
proof -
  have "is_valid_address demo_lasso 100" by code_simp
  moreover have "links demo_lasso 4 True (100 # [200, 300, 400])" by code_simp
  moreover have "\<forall>e \<in> set [200, 300, 400]. is_valid_address demo_lasso (e - 8)" by code_simp
  moreover have "follow_link demo_lasso 4 True (last [200, 300, 400]) = Inr 300" by code_simp
  ultimately show ?thesis
    using list_of_type_back_edge [of demo_lasso 100 4 True "[200, 300, 400]" 8 300] by simp
qed

theorem list_of_type_terminates_witness:
  "\<exists>r. list_of_type demo_ring 4 100 True 8 = Some r"
  using list_of_type_terminates [of demo_ring] finite_valid_set_image_of
  by (simp add: demo_ring_def)


end
