(* ===== verification/Vad.thy ===== *)
theory Vad
  imports ListEntry
begin

text \<open>
  The VAD tree of a process, classes \<open>_MMVAD\<close>, \<open>_MMVAD_SHORT\<close> and
  \<open>_MMVAD_LONG\<close> and \<open>_EPROCESS.get_vads\<close> of
  \<open>src/trunk/volatility/plugins/overlays/windows/windows.py\<close>. \<open>_MMVAD.__new__\<close>
  reads the four-byte pool tag stored just before the node and instantiates
  the short or long node type it names; an unknown tag gives a \<open>NoneObject\<close>.
  \<open>traverse\<close> is a recursive generator sharing one mutable \<open>visited\<close> set. The
  model keeps its interleaving: a node checks \<open>visited\<close> when its generator is
  first advanced, and every node yielded below the root is added to
  \<open>visited\<close> by its parent's loop before that node's generator resumes. So a
  child adds itself on entry, and the root is never added. A node is
  represented by its concrete type and its offset; the offsets of
  \<open>LeftChild\<close> and \<open>RightChild\<close> come from the profile (\<open>vad_layout\<close>).
\<close>

datatype vad_type = MMVAD_SHORT | MMVAD_LONG

record vad_layout =
  vl_psize :: nat
  vl_left :: int
  vl_right :: int

type_synonym vad_node = "vad_type \<times> addr"

definition tag_map :: "string \<Rightarrow> vad_type option" where
  "tag_map = map_of [(''Vadl'', MMVAD_LONG), (''VadS'', MMVAD_SHORT), (''Vad '', MMVAD_LONG),
                     (''VadF'', MMVAD_SHORT), (''Vadm'', MMVAD_LONG)]"

text \<open>\<open>_MMVAD.__new__\<close>: the \<open>Tag\<close> member lies at offset \<open>-4\<close> of both node types.\<close>

definition mmvad_new :: "addrspace \<Rightarrow> addr \<Rightarrow> vad_node nobj" where
  "mmvad_new vm offset =
     (if offset < 4 then NoneObject ''MMVAD probably instantiated from a NULL pointer''
      else (case new_object vm offset of
              Inl r \<Rightarrow> Inl r
            | Inr result \<Rightarrow>
                (case tag_map (read_string vm (result - 4) 4) of
                   None \<Rightarrow> NoneObject ''Tag not known''
                 | Some real_type \<Rightarrow> Inr (real_type, offset))))"

text \<open>\<open>self.LeftChild\<close> or \<open>self.RightChild\<close>: a pointer to an \<open>_MMVAD\<close>.\<close>

definition vad_child :: "addrspace \<Rightarrow> vad_layout \<Rightarrow> vad_node \<Rightarrow> bool \<Rightarrow> vad_node nobj" where
  "vad_child vm L n left =
     (case read_ptr_deref vm (vl_psize L) (snd n + (if left then vl_left L else vl_right L)) of
        Inl r \<Rightarrow> Inl r
      | Inr p \<Rightarrow> mmvad_new vm p)"

text \<open>
  \<open>_MMVAD_SHORT.traverse\<close>: the yielded nodes and the \<open>visited\<close> set after the
  generator is exhausted. \<open>is_root\<close> marks the generator that no loop consumes.
\<close>

partial_function (option) vad_trav ::
  "addrspace \<Rightarrow> vad_layout \<Rightarrow> bool \<Rightarrow> vad_node \<Rightarrow> addr set \<Rightarrow> (vad_node list \<times> addr set) option" where
  "vad_trav vm L is_root n visited =
     (if snd n \<in> visited then Some ([], visited)
      else (let v1 = (if is_root then visited else insert (snd n) visited) in
        Option.bind (case vad_child vm L n True of
                       Inl _ \<Rightarrow> Some ([], v1)
                     | Inr c \<Rightarrow> vad_trav vm L False c v1)
          (\<lambda>(ls, v2). Option.bind (case vad_child vm L n False of
                                     Inl _ \<Rightarrow> Some ([], v2)
                                   | Inr c \<Rightarrow> vad_trav vm L False c v2)
            (\<lambda>(rs, v3). Some (n # ls @ rs, v3)))))"

declare vad_trav.simps [code]

text \<open>\<open>_EPROCESS.get_vads\<close> once the process address space is built.\<close>

definition get_vads :: "addrspace \<Rightarrow> vad_layout \<Rightarrow> addr \<Rightarrow> vad_node list option" where
  "get_vads vm L vadroot =
     (case mmvad_new vm vadroot of
        Inl _ \<Rightarrow> Some []
      | Inr root \<Rightarrow> map_option fst (vad_trav vm L True root {}))"

text \<open>\<open>get_start\<close> and \<open>get_end\<close> of a node with the given page numbers.\<close>

definition vad_start :: "int \<Rightarrow> int" where
  "vad_start starting_vpn = push_bit 12 starting_vpn"

definition vad_end :: "int \<Rightarrow> int" where
  "vad_end ending_vpn = push_bit 12 (ending_vpn + 1) - 1"

text \<open>
  The remaining accessors of \<open>_MMVAD_SHORT\<close>, with the offsets of \<open>Parent\<close>,
  \<open>ControlArea\<close>, \<open>StartingVpn\<close> and \<open>EndingVpn\<close> in the node and of
  \<open>FilePointer\<close> in the \<open>_CONTROL_AREA\<close>. \<open>get_parent\<close> and
  \<open>get_control_area\<close> return the pointer member itself (its value);
  \<open>get_file_object\<close> follows both pointers.
\<close>

record vad_fields =
  vf_parent :: int
  vf_control_area :: int
  vf_file_pointer :: int
  vf_starting_vpn :: int
  vf_ending_vpn :: int

definition member_ptr :: "addrspace \<Rightarrow> nat \<Rightarrow> addr \<Rightarrow> int nobj" where
  "member_ptr vm psize a =
     (case read_uint vm a psize of None \<Rightarrow> NoneObject ''Pointer member unreadable'' | Some p \<Rightarrow> Inr p)"

definition get_parent :: "addrspace \<Rightarrow> nat \<Rightarrow> vad_fields \<Rightarrow> vad_node \<Rightarrow> int nobj" where
  "get_parent vm psize F n = member_ptr vm psize (snd n + vf_parent F)"

definition get_control_area :: "addrspace \<Rightarrow> nat \<Rightarrow> vad_fields \<Rightarrow> vad_node \<Rightarrow> int nobj" where
  "get_control_area vm psize F n = member_ptr vm psize (snd n + vf_control_area F)"

definition get_file_object :: "addrspace \<Rightarrow> nat \<Rightarrow> vad_fields \<Rightarrow> vad_node \<Rightarrow> addr nobj" where
  "get_file_object vm psize F n =
     (case read_ptr_deref vm psize (snd n + vf_control_area F) of
        Inl r \<Rightarrow> Inl r
      | Inr ca \<Rightarrow> read_ptr_deref vm psize (ca + vf_file_pointer F))"

text \<open>
  \<open>get_data\<close> on the page numbers of a node: the bytes of its region read
  with \<open>zread\<close>, or the empty string when \<open>start > 0xFFFFFFFF\<close> or
  \<open>end > 0xFFFFFFFF << 12\<close>. A negative length reads nothing.
\<close>

definition vad_data :: "addrspace \<Rightarrow> int \<Rightarrow> int \<Rightarrow> string" where
  "vad_data vm starting_vpn ending_vpn =
     (let start = vad_start starting_vpn; stop = vad_end ending_vpn in
      if start > 0xFFFFFFFF \<or> stop > push_bit 12 0xFFFFFFFF then []
      else zread vm start (nat (stop - start + 1)))"

text \<open>The page numbers are \<open>ULONG\<close> members of the node; an unreadable one is absent.\<close>

definition get_data :: "addrspace \<Rightarrow> vad_fields \<Rightarrow> vad_node \<Rightarrow> string nobj" where
  "get_data vm F n =
     (case (read_uint vm (snd n + vf_starting_vpn F) 4, read_uint vm (snd n + vf_ending_vpn F) 4) of
        (Some s, Some e) \<Rightarrow> Inr (vad_data vm s e)
      | _ \<Rightarrow> NoneObject ''VAD page numbers unreadable'')"

text \<open>The abstract tree a VAD image should encode, and its preorder.\<close>

datatype vtree = VLeaf | VNode vad_type addr vtree vtree

fun preorder :: "vtree \<Rightarrow> vad_node list" where
  "preorder VLeaf = []"
| "preorder (VNode ty p l r) = (ty, p) # preorder l @ preorder r"

fun vad_tree_at :: "addrspace \<Rightarrow> vad_layout \<Rightarrow> vad_node nobj \<Rightarrow> vtree \<Rightarrow> bool" where
  "vad_tree_at vm L x VLeaf = (\<not> present x)"
| "vad_tree_at vm L x (VNode ty p l r) =
     (x = Inr (ty, p) \<and> vad_tree_at vm L (vad_child vm L (ty, p) True) l
                      \<and> vad_tree_at vm L (vad_child vm L (ty, p) False) r)"

text \<open>
  What a traversal promises about \<open>visited\<close>: the offsets it yields (all but
  the root's own first yield) are new and distinct, and \<open>visited\<close> grows by
  exactly them.
\<close>

definition trav_inv :: "bool \<Rightarrow> addr set \<Rightarrow> vad_node list \<Rightarrow> addr set \<Rightarrow> bool" where
  "trav_inv is_root V ys V' =
     (let zs = map snd (if is_root then drop 1 ys else ys)
      in V' = V \<union> set zs \<and> distinct zs \<and> set zs \<inter> V = {})"

text \<open>
  Demonstration images (4-byte pointers, \<open>LeftChild\<close> at 12, \<open>RightChild\<close> at
  16): a tree of three nodes, and a single node whose left child is itself.
\<close>

definition demo_layout :: vad_layout where
  "demo_layout = \<lparr>vl_psize = 4, vl_left = 12, vl_right = 16\<rparr>"

definition demo_vad_tree :: addrspace where
  "demo_vad_tree = image_of (store_bytes 96 ''Vadl'' @ store_bytes 100 [CHR 0x00, CHR 0x00, CHR 0x00, CHR 0x00] @ store_bytes 112 [CHR 0xC8, CHR 0x00, CHR 0x00, CHR 0x00]
     @ store_bytes 116 [CHR 0x2C, CHR 0x01, CHR 0x00, CHR 0x00] @ store_bytes 196 ''VadS'' @ store_bytes 200 [CHR 0x00, CHR 0x00, CHR 0x00, CHR 0x00] @ store_bytes 212 [CHR 0x00, CHR 0x00, CHR 0x00, CHR 0x00]
     @ store_bytes 216 [CHR 0x00, CHR 0x00, CHR 0x00, CHR 0x00] @ store_bytes 296 ''Vad '' @ store_bytes 300 [CHR 0x00, CHR 0x00, CHR 0x00, CHR 0x00] @ store_bytes 312 [CHR 0x00, CHR 0x00, CHR 0x00, CHR 0x00]
     @ store_bytes 316 [CHR 0x00, CHR 0x00, CHR 0x00, CHR 0x00])"

definition demo_vad_loop :: addrspace where
  "demo_vad_loop = image_of (store_bytes 96 ''VadS'' @ store_bytes 100 [CHR 0x00, CHR 0x00, CHR 0x00, CHR 0x00] @ store_bytes 112 [CHR 0x64, CHR 0x00, CHR 0x00, CHR 0x00]
     @ store_bytes 116 [CHR 0x00, CHR 0x00, CHR 0x00, CHR 0x00])"

definition demo_vtree :: vtree where
  "demo_vtree = VNode MMVAD_LONG 100 (VNode MMVAD_SHORT 200 VLeaf VLeaf) (VNode MMVAD_LONG 300 VLeaf VLeaf)"

subsection \<open>Tag dispatch and children\<close>

lemma mmvad_new_Inr_iff:
  "(mmvad_new vm offset = Inr n) =
     (4 \<le> offset \<and> is_valid_address vm offset \<and>
      (\<exists>t. tag_map (read_string vm (offset - 4) 4) = Some t \<and> n = (t, offset)))"
  by (auto simp: mmvad_new_def new_object_def split: option.splits)

lemma vad_child_valid:
  "vad_child vm L n left = Inr c \<Longrightarrow> is_valid_address vm (snd c)"
  by (auto simp: vad_child_def mmvad_new_Inr_iff split: sum.splits)

subsection \<open>The traversal\<close>

lemma vad_trav_inv:
  assumes ret: "vad_trav vm L is_root n V = Some (ys, V')"
  shows "trav_inv is_root V ys V'"
proof -
  have "\<forall>ys V'. r = (ys, V') \<longrightarrow> trav_inv is_root V ys V'" if "vad_trav vm L is_root n V = Some r" for r
  proof (rule vad_trav.raw_induct [where P = "\<lambda>vm L is_root n V r.
      \<forall>ys V'. r = (ys, V') \<longrightarrow> trav_inv is_root V ys V'", OF _ that])
    fix f vm L is_root n V r
    assume IH: "\<And>vm L is_root n V r. f vm L is_root n V = Some r \<Longrightarrow>
        \<forall>ys V'. r = (ys, V') \<longrightarrow> trav_inv is_root V ys V'"
      and eq: "(if snd n \<in> V then Some ([], V)
        else (let v1 = (if is_root then V else insert (snd n) V) in
          Option.bind (case vad_child vm L n True of Inl _ \<Rightarrow> Some ([], v1) | Inr c \<Rightarrow> f vm L False c v1)
            (\<lambda>(ls, v2). Option.bind (case vad_child vm L n False of Inl _ \<Rightarrow> Some ([], v2)
                | Inr c \<Rightarrow> f vm L False c v2) (\<lambda>(rs, v3). Some (n # ls @ rs, v3))))) = Some r"
    have child: "trav_inv False W zs W'"
      if "(case x of Inl _ \<Rightarrow> Some ([], W) | Inr c \<Rightarrow> f vm L False c W) = Some (zs, W')" for x W zs W'
    proof (cases x)
      case (Inl a)
      with that show ?thesis by (simp add: trav_inv_def)
    next
      case (Inr c)
      with that have "f vm L False c W = Some (zs, W')" by simp
      from IH [OF this] show ?thesis by blast
    qed
    show "\<forall>ys V'. r = (ys, V') \<longrightarrow> trav_inv is_root V ys V'"
    proof (cases "snd n \<in> V")
      case True
      with eq show ?thesis by (auto simp: trav_inv_def)
    next
      case False
      let ?v1 = "if is_root then V else insert (snd n) V"
      from False eq obtain ls v2 rs v3 where
        l: "(case vad_child vm L n True of Inl _ \<Rightarrow> Some ([], ?v1) | Inr c \<Rightarrow> f vm L False c ?v1) = Some (ls, v2)"
        and r: "(case vad_child vm L n False of Inl _ \<Rightarrow> Some ([], v2) | Inr c \<Rightarrow> f vm L False c v2) = Some (rs, v3)"
        and res: "r = (n # ls @ rs, v3)"
        by (auto simp: Let_def split: bind_splits prod.splits)
      from child [OF l] child [OF r] False res show ?thesis
        by (auto simp: trav_inv_def Let_def)
    qed
  qed
  with ret show ?thesis by blast
qed

lemma vad_trav_grows:
  "vad_trav vm L is_root n V = Some (ys, V') \<Longrightarrow> V \<subseteq> V'"
  by (drule vad_trav_inv) (auto simp: trav_inv_def Let_def)

lemma vad_trav_head:
  assumes "vad_trav vm L is_root n V = Some (ys, V')" and "snd n \<notin> V"
  shows "\<exists>zs. ys = n # zs"
  using assms by (auto simp: vad_trav.simps [of vm L is_root n V] Let_def split: bind_splits prod.splits)

text \<open>A child traversal returns when the valid addresses are finite; the root adds nothing itself.\<close>

lemma vad_trav_child_terminates:
  fixes x :: "vad_node nobj"
  assumes fin: "finite (valid_set vm)"
  shows "\<exists>r. (case x of Inl _ \<Rightarrow> Some ([], V) | Inr c \<Rightarrow> vad_trav vm L False c V) = Some r
           \<or> (\<exists>c. x = Inr c \<and> \<not> is_valid_address vm (snd c))"
proof (induction "card (valid_set vm - V)" arbitrary: x V rule: less_induct)
  case less
  show ?case
  proof (cases x)
    case (Inr c)
    show ?thesis
    proof (cases "snd c \<in> V \<or> \<not> is_valid_address vm (snd c)")
      case True
      with Inr show ?thesis by (auto simp: vad_trav.simps [of vm L False c V])
    next
      case False
      let ?v1 = "insert (snd c) V"
      from False fin have dec: "card (valid_set vm - ?v1) < card (valid_set vm - V)"
        by (intro card_unvisited_decreases) (auto simp: valid_set_def)
      from less [OF dec, of "vad_child vm L c True"] obtain l where
        l: "(case vad_child vm L c True of Inl _ \<Rightarrow> Some ([], ?v1) | Inr d \<Rightarrow> vad_trav vm L False d ?v1) = Some l"
        by (auto dest: vad_child_valid)
      obtain ls v2 where lv: "l = (ls, v2)" by (cases l)
      have "?v1 \<subseteq> v2"
        using l lv by (auto split: sum.splits dest: vad_trav_grows)
      then have "card (valid_set vm - v2) \<le> card (valid_set vm - ?v1)"
        using fin by (intro card_mono) auto
      with dec have dec2: "card (valid_set vm - v2) < card (valid_set vm - V)" by linarith
      from less [OF dec2, of "vad_child vm L c False"] obtain rr where
        r: "(case vad_child vm L c False of Inl _ \<Rightarrow> Some ([], v2) | Inr d \<Rightarrow> vad_trav vm L False d v2) = Some rr"
        by (auto dest: vad_child_valid)
      obtain rs v3 where "rr = (rs, v3)" by (cases rr)
      with l lv r False Inr show ?thesis
        by (simp add: vad_trav.simps [of vm L False c V] Let_def)
    qed
  qed simp
qed

lemma vad_trav_terminates:
  assumes fin: "finite (valid_set vm)"
  shows "\<exists>r. vad_trav vm L True n V = Some r"
proof (cases "snd n \<in> V")
  case True
  then show ?thesis by (simp add: vad_trav.simps [of vm L True n V])
next
  case False
  have child: "\<exists>r. (case vad_child vm L n left of Inl _ \<Rightarrow> Some ([], W) | Inr c \<Rightarrow> vad_trav vm L False c W) = Some r"
    for left W
    using vad_trav_child_terminates [OF fin, where x = "vad_child vm L n left" and V = W and L = L]
    by (auto dest: vad_child_valid)
  from child [where left = True and W = V] obtain l where
    l: "(case vad_child vm L n True of Inl _ \<Rightarrow> Some ([], V) | Inr c \<Rightarrow> vad_trav vm L False c V) = Some l" ..
  obtain ls v2 where lv: "l = (ls, v2)" by (cases l)
  from child [where left = False and W = v2] obtain rr where
    r: "(case vad_child vm L n False of Inl _ \<Rightarrow> Some ([], v2) | Inr c \<Rightarrow> vad_trav vm L False c v2) = Some rr" ..
  obtain rs v3 where "rr = (rs, v3)" by (cases rr)
  with l lv r False show ?thesis
    by (simp add: vad_trav.simps [of vm L True n V] Let_def)
qed

text \<open>On the image of a tree with distinct offsets a child traversal is the preorder.\<close>

lemma vad_trav_tree:
  assumes "vad_tree_at vm L x t" and "distinct (map snd (preorder t))"
    and "set (map snd (preorder t)) \<inter> V = {}"
  shows "(case x of Inl _ \<Rightarrow> Some ([], V) | Inr c \<Rightarrow> vad_trav vm L False c V)
           = Some (preorder t, V \<union> set (map snd (preorder t)))"
  using assms
proof (induction t arbitrary: x V)
  case VLeaf
  then show ?case by (cases x) auto
next
  case (VNode ty p l r)
  let ?v1 = "insert p V"
  let ?v2 = "insert p (V \<union> snd ` set (preorder l))"
  from VNode.prems have x: "x = Inr (ty, p)" and p: "p \<notin> V" by auto
  have "(case vad_child vm L (ty, p) True of Inl _ \<Rightarrow> Some ([], ?v1)
      | Inr c \<Rightarrow> vad_trav vm L False c ?v1) = Some (preorder l, ?v1 \<union> set (map snd (preorder l)))"
    using VNode.prems by (intro VNode.IH(1)) auto
  then have left: "(case vad_child vm L (ty, p) True of Inl _ \<Rightarrow> Some ([], ?v1)
      | Inr c \<Rightarrow> vad_trav vm L False c ?v1) = Some (preorder l, ?v2)"
    by simp
  have "(case vad_child vm L (ty, p) False of Inl _ \<Rightarrow> Some ([], ?v2)
      | Inr c \<Rightarrow> vad_trav vm L False c ?v2) = Some (preorder r, ?v2 \<union> set (map snd (preorder r)))"
    using VNode.prems by (intro VNode.IH(2)) auto
  then have right: "(case vad_child vm L (ty, p) False of Inl _ \<Rightarrow> Some ([], ?v2)
      | Inr c \<Rightarrow> vad_trav vm L False c ?v2)
      = Some (preorder r, V \<union> set (map snd (preorder (VNode ty p l r))))"
    by (simp add: insert_commute Un_assoc)
  from x p show ?case
    by (simp add: vad_trav.simps [of vm L False "(ty, p)" V] Let_def left right)
qed

subsection \<open>Properties of the VAD walk\<close>

text \<open>
  C9. Termination of \<open>get_vads\<close>: on an image with finitely many valid
  addresses the traversal returns, whatever the child pointers.
\<close>

theorem get_vads_terminates:
  assumes "finite (valid_set vm)"
  shows "\<exists>r. get_vads vm L root = Some r"
  using vad_trav_terminates [OF assms]
  by (auto simp: get_vads_def split: sum.splits)

text \<open>
  C10. Below the root's own first yield, no node is yielded twice: the
  offsets of all later yields are distinct.
\<close>

theorem get_vads_distinct_below_root:
  assumes "get_vads vm L root = Some ys"
  shows "distinct (map snd (tl ys))"
proof (cases "mmvad_new vm root")
  case (Inl r)
  with assms show ?thesis by (simp add: get_vads_def)
next
  case (Inr n)
  with assms obtain V' where "vad_trav vm L True n {} = Some (ys, V')"
    by (auto simp: get_vads_def)
  then have "trav_inv True {} ys V'" by (rule vad_trav_inv)
  then show ?thesis by (simp add: trav_inv_def Let_def drop_Suc)
qed

text \<open>
  C11. The root is not protected by \<open>visited\<close>: when the root's left child
  pointer leads back to the root, the root is yielded twice in a row.
\<close>

theorem get_vads_root_twice:
  assumes fin: "finite (valid_set vm)" and root: "mmvad_new vm root = Inr n"
    and loop: "vad_child vm L n True = Inr n"
  shows "\<exists>zs. get_vads vm L root = Some (n # n # zs)"
proof -
  obtain ys V' where ret: "vad_trav vm L True n {} = Some (ys, V')"
    using vad_trav_terminates [OF fin] by fastforce
  then obtain ls v2 rs where l: "vad_trav vm L False n {} = Some (ls, v2)" and ys: "ys = n # ls @ rs"
    by (auto simp: vad_trav.simps [of vm L True n "{}"] loop Let_def split: bind_splits prod.splits)
  from vad_trav_head [OF l] obtain zs where "ls = n # zs" by auto
  with ret ys root show ?thesis by (auto simp: get_vads_def)
qed

text \<open>
  C12. Refinement: on the image of a VAD tree whose nodes have distinct
  offsets, \<open>get_vads\<close> yields the preorder of the tree (node, left subtree,
  right subtree), each node with the concrete type its tag names.
\<close>

theorem get_vads_preorder:
  assumes "vad_tree_at vm L (mmvad_new vm root) t" and "distinct (map snd (preorder t))"
  shows "get_vads vm L root = Some (preorder t)"
proof (cases t)
  case VLeaf
  with assms show ?thesis by (cases "mmvad_new vm root") (auto simp: get_vads_def)
next
  case (VNode ty p l r)
  let ?v2 = "snd ` set (preorder l)"
  from assms VNode have root: "mmvad_new vm root = Inr (ty, p)" by simp
  have "(case vad_child vm L (ty, p) True of Inl _ \<Rightarrow> Some ([], {})
      | Inr c \<Rightarrow> vad_trav vm L False c {}) = Some (preorder l, {} \<union> set (map snd (preorder l)))"
    using assms VNode by (intro vad_trav_tree) auto
  then have left: "(case vad_child vm L (ty, p) True of Inl _ \<Rightarrow> Some ([], {})
      | Inr c \<Rightarrow> vad_trav vm L False c {}) = Some (preorder l, ?v2)" by simp
  have right: "(case vad_child vm L (ty, p) False of Inl _ \<Rightarrow> Some ([], ?v2)
      | Inr c \<Rightarrow> vad_trav vm L False c ?v2) = Some (preorder r, ?v2 \<union> set (map snd (preorder r)))"
    using assms VNode by (intro vad_trav_tree) auto
  from root VNode show ?thesis
    by (simp add: get_vads_def vad_trav.simps [of vm L True "(ty, p)" "{}"] Let_def left right)
qed


subsection \<open>Witnesses\<close>

theorem get_vads_terminates_witness:
  "\<exists>r. get_vads demo_vad_loop demo_layout 100 = Some r"
  using get_vads_terminates [of demo_vad_loop] finite_valid_set_image_of
  by (simp add: demo_vad_loop_def)

theorem get_vads_distinct_below_root_witness:
  "get_vads demo_vad_loop demo_layout 100 = Some [(MMVAD_SHORT, 100), (MMVAD_SHORT, 100)] \<and>
   distinct (map snd (tl [(MMVAD_SHORT, 100), (MMVAD_SHORT, 100 :: int)]))"
proof -
  have r: "get_vads demo_vad_loop demo_layout 100 = Some [(MMVAD_SHORT, 100), (MMVAD_SHORT, 100)]"
    by code_simp
  show ?thesis using get_vads_distinct_below_root [OF r] r by simp
qed

theorem get_vads_root_twice_witness:
  "\<exists>zs. get_vads demo_vad_loop demo_layout 100 = Some ((MMVAD_SHORT, 100) # (MMVAD_SHORT, 100) # zs)"
proof -
  have fin: "finite (valid_set demo_vad_loop)"
    using finite_valid_set_image_of by (simp add: demo_vad_loop_def)
  have root: "mmvad_new demo_vad_loop 100 = Inr (MMVAD_SHORT, 100)" by code_simp
  have loop: "vad_child demo_vad_loop demo_layout (MMVAD_SHORT, 100) True = Inr (MMVAD_SHORT, 100)"
    by code_simp
  show ?thesis by (rule get_vads_root_twice [OF fin root loop])
qed

theorem get_vads_preorder_witness:
  "get_vads demo_vad_tree demo_layout 100 = Some (preorder demo_vtree)"
proof -
  have t: "vad_tree_at demo_vad_tree demo_layout (mmvad_new demo_vad_tree 100) demo_vtree"
    by code_simp
  have d: "distinct (map snd (preorder demo_vtree))" by (simp add: demo_vtree_def)
  show ?thesis by (rule get_vads_preorder [OF t d])
qed

subsection \<open>Region data\<close>

text \<open>
  The data of a region within the guard has one byte per address of the
  region, \<open>(EndingVpn - StartingVpn + 1) * 4096\<close> bytes.
\<close>

lemma vad_data_length:
  assumes "push_bit 12 s \<le> 0xFFFFFFFF" and "push_bit 12 (e + 1) - 1 \<le> push_bit 12 0xFFFFFFFF"
  shows "length (vad_data vm s e) = nat ((e - s + 1) * 4096)"
  using assms by (simp add: vad_data_def vad_start_def vad_end_def Let_def push_bit_eq_mult algebra_simps)

text \<open>
  The two bounds of the guard are in different units: the start is bounded by
  the last byte address of a 32-bit space, the end by that number shifted by
  a page. A region starting at page 0 and ending at page \<open>0xFFFFFFFE\<close>
  passes the guard and asks \<open>zread\<close> for \<open>0xFFFFFFFF * 4096\<close> bytes, far
  beyond a 32-bit space.
\<close>

lemma vad_data_guard_units:
  "length (vad_data vm 0 0xFFFFFFFE) = 0xFFFFFFFF * 4096"
  by (simp add: vad_data_def vad_start_def vad_end_def Let_def push_bit_eq_mult)

text \<open>\<open>get_file_object\<close> yields a file object only at a valid address.\<close>

lemma get_file_object_valid:
  "get_file_object vm psize F n = Inr f \<Longrightarrow> is_valid_address vm f"
  by (auto simp: get_file_object_def read_ptr_deref_def split: sum.splits option.splits)

end
