(* ===== verification/UnicodeString.thy ===== *)
theory UnicodeString
  imports AddressSpace
begin

text \<open>
  \<open>_UNICODE_STRING\<close> of \<open>src/trunk/volatility/plugins/overlays/windows/windows.py\<close>:
  a \<open>Length\<close> in bytes (an unsigned short at offset 0) and a \<open>Buffer\<close> pointer
  (at an offset given by the profile). \<open>dereference\<close> reads the buffer as a
  UTF-16 string only when \<open>0 < Length \<le> 1024\<close>; \<open>__nonzero__\<close> asks for a valid
  buffer and the same bound. The decoded string is the list of its UTF-16 code
  units, cut at the first NUL as \<open>obj.String\<close> does; a trailing odd byte is
  dropped, as \<open>decode('utf16', 'ignore')\<close> drops it.
\<close>

record us_layout =
  us_buffer :: int

fun utf16_units :: "string \<Rightarrow> nat list" where
  "utf16_units (a # b # cs) = (of_char a + 256 * of_char b) # utf16_units cs"
| "utf16_units _ = []"

definition unicode_length :: "addrspace \<Rightarrow> addr \<Rightarrow> int option" where
  "unicode_length vm a = read_uint vm a 2"

definition unicode_dereference :: "addrspace \<Rightarrow> nat \<Rightarrow> us_layout \<Rightarrow> addr \<Rightarrow> nat list nobj" where
  "unicode_dereference vm psize U a =
     (case unicode_length vm a of
        None \<Rightarrow> NoneObject ''Buffer length unreadable''
      | Some len \<Rightarrow>
          (if 0 < len \<and> len \<le> 1024 then
             (case read_ptr_deref vm psize (a + us_buffer U) of
                Inl r \<Rightarrow> Inl r
              | Inr p \<Rightarrow> Inr (takeWhile (\<lambda>u. u \<noteq> 0) (utf16_units (zread vm p (nat len)))))
           else NoneObject ''Buffer length for _UNICODE_STRING not within bounds''))"

definition unicode_nonzero :: "addrspace \<Rightarrow> nat \<Rightarrow> us_layout \<Rightarrow> addr \<Rightarrow> bool" where
  "unicode_nonzero vm psize U a =
     (present (read_ptr_deref vm psize (a + us_buffer U)) \<and>
      (case unicode_length vm a of None \<Rightarrow> False | Some len \<Rightarrow> 0 < len \<and> len \<le> 1024))"

text \<open>An image holding the string \<open>ABC\<close> (length 6 bytes) with its buffer at 600.\<close>

definition demo_ustring :: addrspace where
  "demo_ustring = image_of (store_bytes 500 [CHR 0x06, CHR 0x00] @ store_bytes 502 [CHR 0x08, CHR 0x00] @ store_bytes 504 [CHR 0x58, CHR 0x02, CHR 0x00, CHR 0x00]
     @ store_bytes 600 [CHR ''A'', CHR 0x00, CHR ''B'', CHR 0x00, CHR ''C'', CHR 0x00])"

definition demo_us_layout :: us_layout where
  "demo_us_layout = \<lparr>us_buffer = 4\<rparr>"

lemma length_utf16_units: "length (utf16_units cs) = length cs div 2"
  by (induction cs rule: utf16_units.induct) auto

text \<open>
  C14. A dereferenced \<open>_UNICODE_STRING\<close> has a claimed length
  within \<open>(0, 1024]\<close> bytes and decodes to at most 512 UTF-16 code units.
\<close>

theorem unicode_dereference_bounds:
  assumes "unicode_dereference vm psize U a = Inr s"
  shows "length s \<le> 512 \<and> (\<exists>len. unicode_length vm a = Some len \<and> 0 < len \<and> len \<le> 1024)"
proof -
  from assms obtain len p where len: "unicode_length vm a = Some len" and bnd: "0 < len \<and> len \<le> 1024"
    and s: "s = takeWhile (\<lambda>u. u \<noteq> 0) (utf16_units (zread vm p (nat len)))"
    by (auto simp: unicode_dereference_def split: option.splits if_splits sum.splits)
  have "length s \<le> length (utf16_units (zread vm p (nat len)))"
    unfolding s by (rule length_takeWhile_le)
  also have "\<dots> = nat len div 2" by (simp add: length_utf16_units)
  also have "\<dots> \<le> 512" using bnd by linarith
  finally show ?thesis using len bnd by blast
qed

text \<open>
  C15. The truth value of a \<open>_UNICODE_STRING\<close> (\<open>__nonzero__\<close>)
  is exactly whether its \<open>dereference\<close> gives a string rather than a
  \<open>NoneObject\<close>.
\<close>

theorem unicode_nonzero_iff_dereference:
  "unicode_nonzero vm psize U a = present (unicode_dereference vm psize U a)"
  by (auto simp: unicode_nonzero_def unicode_dereference_def present_def
      split: option.splits sum.splits)

theorem unicode_dereference_bounds_witness:
  "unicode_dereference demo_ustring 4 demo_us_layout 500 = Inr [65, 66, 67] \<and> length [65, 66, 67 :: nat] \<le> 512"
proof -
  have r: "unicode_dereference demo_ustring 4 demo_us_layout 500 = Inr [65, 66, 67]" by code_simp
  show ?thesis using unicode_dereference_bounds [OF r] r by simp
qed

end
