(* ===== verification/HandleTable.thy ===== *)
theory HandleTable
  imports UnicodeString
begin

text \<open>
  Handle tables, classes \<open>_HANDLE_TABLE\<close> and \<open>_EX_FAST_REF\<close> of
  \<open>src/trunk/volatility/plugins/overlays/windows/windows.py\<close>. The
  \<open>TableCode\<close> of a table packs the address of its top page with the number of
  indirection levels in the low three bits. A page at level \<open>> 0\<close> is an array
  of \<open>0x1000 / sizeof(address)\<close> pointers to pages one level down; a page at
  level 0 holds \<open>0x1000 / sizeof(_HANDLE_TABLE_ENTRY)\<close> entries. Each loop over
  a page stops at the first entry whose address is not valid (\<open>break\<close>). The
  handle value of a leaf entry is its index times 4 plus \<open>depth * count * 4\<close>,
  where \<open>depth\<close> counts the pages visited so far in the calling loop. The
  object of an entry is its \<open>_EX_FAST_REF\<close>: a pointer whose low three bits
  hold a reference count, masked off by \<open>dereference_as\<close>. An object header
  is yielded when its \<open>TypeIndex\<close> is nonzero (profiles that have the field)
  or, on older profiles, when its type's \<open>Name\<close> is a nonempty
  \<open>_UNICODE_STRING\<close>.
\<close>

record ht_layout =
  ht_psize :: nat
  ht_entry_size :: nat
  ht_table_code :: int
  ht_type_index :: "int option"
  ht_type :: int
  ht_type_name :: int
  ht_buffer :: int

text \<open>\<open>_EX_FAST_REF.dereference_as\<close>: \<open>Object(theType, self.Object.v() & ~7, ...)\<close>.\<close>

definition fast_ref_deref :: "addrspace \<Rightarrow> nat \<Rightarrow> addr \<Rightarrow> addr nobj" where
  "fast_ref_deref vm psize a =
     (case read_uint vm a psize of
        None \<Rightarrow> NoneObject ''Fast reference unreadable''
      | Some v \<Rightarrow> new_object vm (v AND NOT 7))"

text \<open>\<open>get_item\<close>: the \<open>_OBJECT_HEADER\<close> of an entry, through its \<open>Object\<close> fast reference.\<close>

definition get_item :: "addrspace \<Rightarrow> ht_layout \<Rightarrow> addr \<Rightarrow> addr nobj" where
  "get_item vm H entry = fast_ref_deref vm (ht_psize H) entry"

text \<open>The \<open>TypeIndex != 0\<close> test, or \<open>item.Type.Name\<close> where there is no \<open>TypeIndex\<close>.\<close>

definition header_kept :: "addrspace \<Rightarrow> ht_layout \<Rightarrow> addr \<Rightarrow> bool" where
  "header_kept vm H hdr =
     (case ht_type_index H of
        Some ti \<Rightarrow> (case read_uint vm (hdr + ti) 1 of None \<Rightarrow> False | Some v \<Rightarrow> v \<noteq> 0)
      | None \<Rightarrow> (case read_ptr_deref vm (ht_psize H) (hdr + ht_type H) of
                  Inl _ \<Rightarrow> False
                | Inr t \<Rightarrow> unicode_nonzero vm (ht_psize H) \<lparr>us_buffer = ht_buffer H\<rparr> (t + ht_type_name H)))"

text \<open>
  \<open>for entry in table: if not entry.is_valid(): break\<close>: the indices and
  addresses of the entries of a page up to the first invalid one.
\<close>

function table_entries :: "addrspace \<Rightarrow> addr \<Rightarrow> nat \<Rightarrow> nat \<Rightarrow> nat \<Rightarrow> (nat \<times> addr) list" where
  "table_entries vm off sz count i =
     (if count \<le> i \<or> \<not> is_valid_address vm (off + int (i * sz)) then []
      else (i, off + int (i * sz)) # table_entries vm off sz count (Suc i))"
  by pat_completeness auto
termination
  by (relation "measure (\<lambda>(vm, off, sz, count, i). count - i)") auto

declare table_entries.simps [simp del]

definition leaf_count :: "ht_layout \<Rightarrow> nat" where
  "leaf_count H = 4096 div ht_entry_size H"

definition ptr_count :: "ht_layout \<Rightarrow> nat" where
  "ptr_count H = 4096 div ht_psize H"

text \<open>A leaf entry: its handle value and its object header if the header is kept.\<close>

definition leaf_item :: "addrspace \<Rightarrow> ht_layout \<Rightarrow> addr \<Rightarrow> nat \<Rightarrow> addr \<Rightarrow> (addr \<times> int) list" where
  "leaf_item vm H off depth entry =
     (let handle_multiplier = 4;
          handle_level_base = int depth * int (leaf_count H) * handle_multiplier;
          handle_value = (entry - off) div (int (ht_entry_size H) div handle_multiplier) + handle_level_base
      in (case get_item vm H entry of
            Inl _ \<Rightarrow> []
          | Inr item \<Rightarrow> (if header_kept vm H item then [(item, handle_value)] else [])))"

text \<open>
  \<open>_make_handle_array(offset, level, depth)\<close>: the yielded object headers
  with their handle values. At level \<open>> 0\<close> the \<open>i\<close>-th page is walked with
  \<open>depth + i\<close>, the local \<open>depth\<close> having been incremented once per page.
\<close>

fun handle_array :: "addrspace \<Rightarrow> ht_layout \<Rightarrow> addr \<Rightarrow> nat \<Rightarrow> nat \<Rightarrow> (addr \<times> int) list" where
  "handle_array vm H off 0 depth =
     (if \<not> is_valid_address vm off then []
      else concat (map (\<lambda>(j, entry). leaf_item vm H off depth entry)
                     (table_entries vm off (ht_entry_size H) (leaf_count H) 0)))"
| "handle_array vm H off (Suc level) depth =
     (if \<not> is_valid_address vm off then []
      else concat (map (\<lambda>(i, entry). case read_uint vm entry (ht_psize H) of
                                        None \<Rightarrow> []
                                      | Some sub \<Rightarrow> handle_array vm H sub level (depth + i))
                     (table_entries vm off (ht_psize H) (ptr_count H) 0)))"

text \<open>\<open>handles()\<close>: split \<open>TableCode\<close> into the top page and the number of levels.\<close>

definition handles :: "addrspace \<Rightarrow> ht_layout \<Rightarrow> addr \<Rightarrow> (addr \<times> int) list" where
  "handles vm H table =
     (case read_uint vm (table + ht_table_code H) (ht_psize H) of
        None \<Rightarrow> []
      | Some table_code \<Rightarrow>
          handle_array vm H (table_code AND NOT 7) (nat (table_code AND 7)) 0)"

text \<open>
  Demonstration images: an x86 layout (4-byte pointers, 8-byte entries,
  \<open>TypeIndex\<close> at 12), a two-level table whose two leaf pages each hold one
  handle, a one-level table with two entries, and a three-level table with two middle pages.
\<close>

definition demo_ht :: ht_layout where
  "demo_ht = \<lparr>ht_psize = 4, ht_entry_size = 8, ht_table_code = 0, ht_type_index = Some 12,
     ht_type = 8, ht_type_name = 8, ht_buffer = 4\<rparr>"

definition demo_headers :: "(addr \<times> char) list" where
  "demo_headers = store_bytes 5000 [CHR 0x00, CHR 0x00, CHR 0x00, CHR 0x00] @ store_bytes 5012 [CHR 0x07] @ store_bytes 6000 [CHR 0x00, CHR 0x00, CHR 0x00, CHR 0x00]
     @ store_bytes 6012 [CHR 0x09] @ store_bytes 8000 [CHR 0x00, CHR 0x00, CHR 0x00, CHR 0x00] @ store_bytes 8012 [CHR 0x03]"

definition demo_ht1 :: addrspace where
  "demo_ht1 = image_of (store_bytes 1000 [CHR 0xB8, CHR 0x0B, CHR 0x00, CHR 0x00] @ store_bytes 3000 [CHR 0x89, CHR 0x13, CHR 0x00, CHR 0x00]
     @ store_bytes 3008 [CHR 0x73, CHR 0x17, CHR 0x00, CHR 0x00] @ demo_headers)"

definition demo_ht2 :: addrspace where
  "demo_ht2 = image_of (store_bytes 1000 [CHR 0xD1, CHR 0x07, CHR 0x00, CHR 0x00] @ store_bytes 2000 [CHR 0xB8, CHR 0x0B, CHR 0x00, CHR 0x00] @ store_bytes 2004 [CHR 0xA0, CHR 0x0F, CHR 0x00, CHR 0x00]
     @ store_bytes 3000 [CHR 0x89, CHR 0x13, CHR 0x00, CHR 0x00] @ store_bytes 4000 [CHR 0x73, CHR 0x17, CHR 0x00, CHR 0x00] @ demo_headers)"

definition demo_ht3 :: addrspace where
  "demo_ht3 = image_of (store_bytes 1000 [CHR 0xD2, CHR 0x07, CHR 0x00, CHR 0x00] @ store_bytes 2000 [CHR 0x34, CHR 0x08, CHR 0x00, CHR 0x00] @ store_bytes 2004 [CHR 0x98, CHR 0x08, CHR 0x00, CHR 0x00]
     @ store_bytes 2100 [CHR 0xB8, CHR 0x0B, CHR 0x00, CHR 0x00] @ store_bytes 2104 [CHR 0xA0, CHR 0x0F, CHR 0x00, CHR 0x00] @ store_bytes 2200 [CHR 0x58, CHR 0x1B, CHR 0x00, CHR 0x00]
     @ store_bytes 3000 [CHR 0x89, CHR 0x13, CHR 0x00, CHR 0x00] @ store_bytes 4000 [CHR 0x73, CHR 0x17, CHR 0x00, CHR 0x00] @ store_bytes 7000 [CHR 0x42, CHR 0x1F, CHR 0x00, CHR 0x00] @ demo_headers)"

subsection \<open>Entries, leaf pages and two-level tables\<close>

lemma sorted_wrt_concat_map:
  assumes "\<And>x. x \<in> set xs \<Longrightarrow> sorted_wrt R (f x)"
    and "sorted_wrt (\<lambda>x y. \<forall>a\<in>set (f x). \<forall>b\<in>set (f y). R a b) xs"
  shows "sorted_wrt R (concat (map f xs))"
  using assms by (induction xs) (auto simp: sorted_wrt_append)

lemma table_entries_set:
  "x \<in> set (table_entries vm off sz count i) \<Longrightarrow>
     i \<le> fst x \<and> fst x < count \<and> snd x = off + int (fst x * sz) \<and> is_valid_address vm (snd x)"
proof (induction vm off sz count i rule: table_entries.induct)
  case (1 vm off sz count i)
  show ?case
  proof (cases "count \<le> i \<or> \<not> is_valid_address vm (off + int (i * sz))")
    case True
    with "1.prems" show ?thesis by (simp add: table_entries.simps)
  next
    case False
    with "1.prems" have "x = (i, off + int (i * sz)) \<or> x \<in> set (table_entries vm off sz count (Suc i))"
      by (simp add: table_entries.simps)
    then show ?thesis using "1.IH" [OF False] False by auto
  qed
qed

lemma table_entries_sorted:
  "sorted_wrt (\<lambda>x y. fst x < fst y) (table_entries vm off sz count i)"
proof (induction vm off sz count i rule: table_entries.induct)
  case (1 vm off sz count i)
  show ?case
    by (subst table_entries.simps) (auto dest: table_entries_set intro: "1.IH")
qed

lemma leaf_item_length: "length (leaf_item vm H off d e) \<le> 1"
  by (simp add: leaf_item_def split: sum.split)

lemma leaf_item_value:
  assumes "x \<in> set (leaf_item vm H off d (off + int (j * ht_entry_size H)))"
    and "4 dvd ht_entry_size H" and "0 < ht_entry_size H"
  shows "snd x = 4 * (int d * int (leaf_count H) + int j)"
proof -
  from assms(2) obtain m where m: "ht_entry_size H = 4 * m" by blast
  with assms(3) have "0 < m" by simp
  then have "int (j * (4 * m)) div int (4 * m div 4) = 4 * int j" by simp
  with assms(1) m show ?thesis
    by (auto simp: leaf_item_def algebra_simps split: sum.splits if_splits)
qed

lemma sorted_wrt_le1: "length xs \<le> 1 \<Longrightarrow> sorted_wrt R xs"
  by (cases xs) auto

lemma handle_array_leaf_member:
  assumes "v \<in> set (map snd (handle_array vm H off 0 d))"
    and "4 dvd ht_entry_size H" and "0 < ht_entry_size H"
  shows "\<exists>j < leaf_count H. v = 4 * (int d * int (leaf_count H) + int j)"
proof -
  from assms(1) obtain e x where
    e: "e \<in> set (table_entries vm off (ht_entry_size H) (leaf_count H) 0)" and
    x: "x \<in> set (leaf_item vm H off d (snd e))" and v: "v = snd x"
    by (auto split: if_splits)
  from table_entries_set [OF e] have j: "fst e < leaf_count H"
    and se: "snd e = off + int (fst e * ht_entry_size H)" by auto
  from x se have "v = 4 * (int d * int (leaf_count H) + int (fst e))"
    using leaf_item_value assms(2,3) v by metis
  with j show ?thesis by blast
qed

lemma handle_array_leaf_sorted:
  assumes "4 dvd ht_entry_size H" and "0 < ht_entry_size H"
  shows "sorted_wrt (<) (map snd (handle_array vm H off 0 d))"
proof -
  let ?es = "table_entries vm off (ht_entry_size H) (leaf_count H) 0"
  let ?f = "\<lambda>e. map snd (leaf_item vm H off d (snd e))"
  have "sorted_wrt (<) (concat (map ?f ?es))"
  proof (rule sorted_wrt_concat_map)
    show "sorted_wrt (<) (?f e)" for e :: "nat \<times> addr"
      by (rule sorted_wrt_le1) (simp only: length_map leaf_item_length)
    have val: "a \<in> set (?f e) \<Longrightarrow> e \<in> set ?es \<Longrightarrow> a = 4 * (int d * int (leaf_count H) + int (fst e))"
      for a and e :: "nat \<times> addr" using table_entries_set [of e] leaf_item_value assms by fastforce
    show "sorted_wrt (\<lambda>x y. \<forall>a\<in>set (?f x). \<forall>b\<in>set (?f y). a < b) ?es"
    proof (rule sorted_wrt_mono_rel [OF _ table_entries_sorted])
      fix x y assume x: "x \<in> set ?es" and y: "y \<in> set ?es" and xy: "fst x < fst y"
      show "\<forall>a\<in>set (?f x). \<forall>b\<in>set (?f y). a < b"
      proof (intro ballI)
        fix a b assume "a \<in> set (?f x)" and "b \<in> set (?f y)"
        with x y have "a = 4 * (int d * int (leaf_count H) + int (fst x))"
          and "b = 4 * (int d * int (leaf_count H) + int (fst y))" by (blast intro: val)+
        with xy show "a < b" by simp
      qed
    qed
  qed
  then show ?thesis by (simp add: map_concat case_prod_beta comp_def)
qed

lemma handle_array_leaf_range:
  assumes "v \<in> set (map snd (handle_array vm H off 0 d))"
    and "4 dvd ht_entry_size H" and "0 < ht_entry_size H"
  shows "4 * int d * int (leaf_count H) \<le> v \<and> v < 4 * (int d + 1) * int (leaf_count H)"
  using handle_array_leaf_member [OF assms] by (auto simp: algebra_simps)

lemma handle_array_two_level_sorted:
  assumes "4 dvd ht_entry_size H" and "0 < ht_entry_size H"
  shows "sorted_wrt (<) (map snd (handle_array vm H off (Suc 0) d))"
proof -
  let ?c = "int (leaf_count H)"
  let ?es = "table_entries vm off (ht_psize H) (ptr_count H) 0"
  let ?f = "\<lambda>e. map snd (case read_uint vm (snd e) (ht_psize H) of
                             None \<Rightarrow> [] | Some sub \<Rightarrow> handle_array vm H sub 0 (d + fst e))"
  have range: "4 * int (d + fst e) * ?c \<le> a \<and> a < 4 * (int (d + fst e) + 1) * ?c"
    if "a \<in> set (?f e)" for a and e :: "nat \<times> addr"
  proof -
    from that obtain sub where "a \<in> set (map snd (handle_array vm H sub 0 (d + fst e)))"
      by (auto split: option.splits)
    then show ?thesis by (rule handle_array_leaf_range [OF _ assms])
  qed
  have "sorted_wrt (<) (concat (map ?f ?es))"
  proof (rule sorted_wrt_concat_map)
    show "sorted_wrt (<) (?f e)" for e :: "nat \<times> addr"
      using handle_array_leaf_sorted [OF assms] by (simp split: option.split)
    show "sorted_wrt (\<lambda>x y. \<forall>a\<in>set (?f x). \<forall>b\<in>set (?f y). a < b) ?es"
    proof (rule sorted_wrt_mono_rel [OF _ table_entries_sorted])
      fix x y :: "nat \<times> addr" assume xy: "fst x < fst y"
      have "4 * (int (d + fst x) + 1) * ?c \<le> 4 * int (d + fst y) * ?c"
        using xy by (intro mult_right_mono) simp_all
      then show "\<forall>a\<in>set (?f x). \<forall>b\<in>set (?f y). a < b"
        using range [of _ x] range [of _ y] by fastforce
    qed
  qed
  then show ?thesis by (simp add: map_concat case_prod_beta comp_def)
qed

subsection \<open>Properties of the handle enumeration\<close>

text \<open>
  C16: for a table of at most two levels (\<open>TableCode & 7 <= 1\<close>) whose entry
  size is a positive multiple of 4, \<open>handles()\<close> yields its handle values in
  strictly increasing order, so no two handles share a value.
\<close>

theorem handles_shallow_sorted:
  assumes "read_uint vm (table + ht_table_code H) (ht_psize H) = Some tc"
    and "tc AND 7 \<le> 1" and "4 dvd ht_entry_size H" and "0 < ht_entry_size H"
  shows "sorted_wrt (<) (map snd (handles vm H table)) \<and> distinct (map snd (handles vm H table))"
proof -
  have "0 \<le> tc AND 7" by (simp add: and7)
  with assms(2) have "nat (tc AND 7) = 0 \<or> nat (tc AND 7) = Suc 0" by linarith
  then have "sorted_wrt (<) (map snd (handles vm H table))"
    using assms(1) handle_array_leaf_sorted [OF assms(3,4)] handle_array_two_level_sorted [OF assms(3,4)]
    by (auto simp: handles_def)
  then show ?thesis by (metis strict_sorted_iff)
qed




text \<open>
  C19: \<open>_EX_FAST_REF.dereference_as\<close> recovers an 8-aligned pointer from a
  stored value that carries a reference count in its low three bits.
\<close>

theorem fast_ref_deref_roundtrip:
  assumes "read_uint vm a psize = Some (p + t)"
    and "p mod 8 = 0" and "0 \<le> t" and "t < 8" and "is_valid_address vm p"
  shows "fast_ref_deref vm psize a = Inr p"
  unfolding fast_ref_deref_def and_not7 using assms aligned_plus_tag_div8 [of p t] by simp




subsection \<open>Witnesses\<close>

theorem handles_shallow_sorted_witness:
  "sorted_wrt (<) (map snd (handles demo_ht2 demo_ht 1000)) \<and> distinct (map snd (handles demo_ht2 demo_ht 1000))"
proof -
  have "read_uint demo_ht2 (1000 + ht_table_code demo_ht) (ht_psize demo_ht) = Some 2001" by code_simp
  moreover have "(2001::int) AND 7 \<le> 1" by code_simp
  ultimately show ?thesis by (rule handles_shallow_sorted) (simp_all add: demo_ht_def)
qed


theorem fast_ref_deref_roundtrip_witness:
  "fast_ref_deref demo_ht2 4 3000 = Inr 5000"
proof -
  have r: "read_uint demo_ht2 3000 4 = Some (5000 + 1)" by code_simp
  have v: "is_valid_address demo_ht2 5000" by code_simp
  show ?thesis by (rule fast_ref_deref_roundtrip [OF r _ _ _ v]) simp_all
qed


end
