(* ===== verification/Schema.thy ===== *)
theory Schema
  imports Prelude
begin

text \<open>
  The structure-layout catalogue and its overlays. A profile's \<open>vtypes\<close> map
  each structure name to \<open>[size, {field: [offset, type]}]\<close>; an overlay has the
  same shape, and \<open>None\<close> in the size or offset position means ``keep the
  value of the base''. The merge engine (\<open>Profile.merge_overlay\<close> of
  \<open>volatility/obj.py\<close>, not among the sources) is modelled from spec 4.2: a
  structure absent from the base is created from the patch; for a structure
  present in both, every field named by the patch is replaced, except where
  the patch gives the sentinel \<open>None\<close>. Type descriptors are the nested lists of
  the source: a type name with a dictionary of keyword parameters,
  \<open>['pointer', t]\<close> and \<open>['array', count, t]\<close>, where a length or count may be a
  \<open>lambda\<close> of a sibling member. The overlay itself, \<open>windows_overlay\<close> of
  \<open>src/trunk/volatility/plugins/overlays/windows/windows.py\<close>, is the data
  below.
\<close>

datatype pyval = PyInt int | PyStr string | PyBool bool

text \<open>\<open>lambda x: x.F\<close> and \<open>lambda x: x.F.v() * k\<close>: a length read from a sibling member.\<close>

datatype length_fn = LenLit int | LenMember string | LenMemberTimes string int

datatype targ = AVal pyval | AFn length_fn

datatype vtype =
    VType string "(string \<times> targ) list"
  | VPointer vtype
  | VArray length_fn vtype

type_synonym field_def = "int option \<times> vtype option"
type_synonym struct_def = "int option \<times> (string \<times> field_def) list"
type_synonym vtypes = "string \<Rightarrow> struct_def option"

subsection \<open>The merge engine\<close>

definition keep_or :: "'a option \<Rightarrow> 'a option \<Rightarrow> 'a option" where
  "keep_or b p = (case p of None \<Rightarrow> b | Some v \<Rightarrow> Some v)"

definition merge_field :: "field_def \<Rightarrow> field_def \<Rightarrow> field_def" where
  "merge_field b p = (keep_or (fst b) (fst p), keep_or (snd b) (snd p))"

fun merge_members :: "(string \<times> field_def) list \<Rightarrow> (string \<times> field_def) list \<Rightarrow> (string \<times> field_def) list" where
  "merge_members ms [] = ms"
| "merge_members ms ((n, f) # ov) =
     merge_members (AList.update n (case map_of ms n of None \<Rightarrow> f | Some b \<Rightarrow> merge_field b f) ms) ov"

definition merge_struct :: "struct_def \<Rightarrow> struct_def \<Rightarrow> struct_def" where
  "merge_struct b p = (keep_or (fst b) (fst p), merge_members (snd b) (snd p))"

fun merge_overlay :: "vtypes \<Rightarrow> (string \<times> struct_def) list \<Rightarrow> vtypes" where
  "merge_overlay vt [] = vt"
| "merge_overlay vt ((n, s) # ov) =
     merge_overlay (vt(n \<mapsto> (case vt n of None \<Rightarrow> s | Some b \<Rightarrow> merge_struct b s))) ov"

text \<open>Well-formed tables: a Python dictionary has each key once.\<close>

definition wf_struct :: "struct_def \<Rightarrow> bool" where
  "wf_struct s = distinct (map fst (snd s))"

definition wf_overlay :: "(string \<times> struct_def) list \<Rightarrow> bool" where
  "wf_overlay ov = (distinct (map fst ov) \<and> list_all (\<lambda>(n, s). wf_struct s) ov)"

definition wf_vtypes :: "vtypes \<Rightarrow> bool" where
  "wf_vtypes vt = (\<forall>n s. vt n = Some s \<longrightarrow> wf_struct s)"

subsection \<open>\<open>windows_overlay\<close>\<close>

definition ts :: "vtype option" where
  "ts = Some (VType ''WinTimeStamp'' [])"

definition str_len :: "targ \<Rightarrow> vtype option" where
  "str_len l = Some (VType ''String'' [(''length'', l)])"

definition windows_overlay :: "(string \<times> struct_def) list" where
  "windows_overlay = [
    (''VOLATILITY_MAGIC'', (None, [
      (''DTBSignature'', (Some 0, Some (VType ''VolatilityMagic'' [(''value'', AVal (PyStr ''Volatility DTBSignature unspecified''))]))),
      (''KUSER_SHARED_DATA'', (Some 0, Some (VType ''VolatilityMagic'' [(''value'', AVal (PyInt 0xFFDF0000))]))),
      (''KDBGHeader'', (Some 0, Some (VType ''VolatilityMagic'' [(''value'', AVal (PyStr ''Volatility KDBGHeader unspecified''))]))),
      (''DTB'', (Some 0, Some (VType ''VolatilityDTB'' [(''configname'', AVal (PyStr ''DTB''))]))),
      (''KPCR'', (Some 0, Some (VType ''VolatilityMagic'' [(''value'', AVal (PyInt 0xffdff000)), (''configname'', AVal (PyStr ''KPCR''))]))),
      (''KDBG'', (Some 0, Some (VType ''VolatilityKDBG'' [(''configname'', AVal (PyStr ''KDBG''))]))),
      (''IA32ValidAS'', (Some 0, Some (VType ''VolatilityIA32ValidAS'' []))),
      (''PoolAlignment'', (Some 0, Some (VType ''VolatilityMagic'' [(''value'', AVal (PyInt 8))])))])),
    (''_EPROCESS'', (None, [
      (''CreateTime'', (None, ts)),
      (''ExitTime'', (None, ts)),
      (''InheritedFromUniqueProcessId'', (None, Some (VType ''unsigned int'' []))),
      (''ImageFileName'', (None, str_len (AVal (PyInt 16)))),
      (''UniqueProcessId'', (None, Some (VType ''unsigned int'' [])))])),
    (''_ETHREAD'', (None, [
      (''CreateTime'', (None, Some (VType ''ThreadCreateTimeStamp'' []))),
      (''ExitTime'', (None, ts))])),
    (''_OBJECT_SYMBOLIC_LINK'', (None, [
      (''CreationTime'', (None, ts))])),
    (''_KUSER_SHARED_DATA'', (None, [
      (''SystemTime'', (None, Some (VType ''WinTimeStamp'' [(''is_utc'', AVal (PyBool True))]))),
      (''TimeZoneBias'', (None, ts))])),
    (''_KPROCESS'', (None, [
      (''DirectoryTableBase'', (None, Some (VType ''unsigned long'' [])))])),
    (''_HANDLE_TABLE_ENTRY'', (None, [
      (''Object'', (None, Some (VType ''_EX_FAST_REF'' [])))])),
    (''_IMAGE_SECTION_HEADER'', (None, [
      (''Name'', (Some 0, str_len (AVal (PyInt 8))))])),
    (''_DBGKD_GET_VERSION64'', (None, [
      (''DebuggerDataList'', (None, Some (VPointer (VType ''unsigned long'' []))))])),
    (''_CM_KEY_NODE'', (None, [
      (''Signature'', (None, str_len (AVal (PyInt 2)))),
      (''LastWriteTime'', (None, ts)),
      (''Name'', (None, str_len (AFn (LenMember ''NameLength''))))])),
    (''_CM_NAME_CONTROL_BLOCK'', (None, [
      (''Name'', (None, str_len (AFn (LenMember ''NameLength''))))])),
    (''_CHILD_LIST'', (None, [
      (''List'', (None, Some (VPointer (VArray (LenMember ''Count'') (VPointer (VType ''_CM_KEY_VALUE'' []))))))])),
    (''_CM_KEY_VALUE'', (None, [
      (''Signature'', (None, str_len (AVal (PyInt 2)))),
      (''Name'', (None, str_len (AFn (LenMember ''NameLength''))))])),
    (''_CM_KEY_INDEX'', (None, [
      (''Signature'', (None, str_len (AVal (PyInt 2)))),
      (''List'', (None, Some (VArray (LenMemberTimes ''Count'' 2) (VPointer (VType ''_CM_KEY_NODE'' [])))))])),
    (''_IMAGE_HIBER_HEADER'', (None, [
      (''Signature'', (None, str_len (AVal (PyInt 4)))),
      (''SystemTime'', (None, ts))])),
    (''_PHYSICAL_MEMORY_DESCRIPTOR'', (None, [
      (''Run'', (None, Some (VArray (LenMember ''NumberOfRuns'') (VType ''_PHYSICAL_MEMORY_RUN'' []))))])),
    (''_TOKEN'', (None, [
      (''UserAndGroups'', (None, Some (VPointer (VArray (LenMember ''UserAndGroupCount'') (VType ''_SID_AND_ATTRIBUTES'' [])))))])),
    (''_SID'', (None, [
      (''SubAuthority'', (None, Some (VArray (LenMember ''SubAuthorityCount'') (VType ''unsigned long'' []))))])),
    (''_CLIENT_ID'', (None, [
      (''UniqueProcess'', (None, Some (VType ''unsigned int'' []))),
      (''UniqueThread'', (None, Some (VType ''unsigned int'' [])))])),
    (''_MMVAD_SHORT'', (None, [
      (''Tag'', (Some (-4), str_len (AVal (PyInt 4))))])),
    (''_MMVAD_LONG'', (None, [
      (''Tag'', (Some (-4), str_len (AVal (PyInt 4))))]))]"

text \<open>
  A base catalogue for the demonstrations: an \<open>_EPROCESS\<close> whose
  \<open>CreateTime\<close> is a \<open>_LARGE_INTEGER\<close> at \<open>0x70\<close>, and an \<open>_MMVAD_SHORT\<close>
  without a \<open>Tag\<close>.
\<close>

definition demo_vtypes :: vtypes where
  "demo_vtypes = [''_EPROCESS'' \<mapsto> (Some 0x260, [(''Pcb'', (Some 0, Some (VType ''_KPROCESS'' []))),
                                          (''CreateTime'', (Some 0x70, Some (VType ''_LARGE_INTEGER'' [])))]),
                  ''_MMVAD_SHORT'' \<mapsto> (Some 0x18, [(''StartingVpn'', (Some 0, Some (VType ''unsigned long'' [])))])]"

subsection \<open>Merging field tables\<close>

lemma keep_or_idem [simp]: "keep_or (keep_or b p) p = keep_or b p" "keep_or p p = p"
  by (simp_all add: keep_or_def split: option.splits)

lemma merge_field_idem [simp]: "merge_field (merge_field b f) f = merge_field b f" "merge_field f f = f"
  by (simp_all add: merge_field_def)

lemma map_of_merge_members:
  "distinct (map fst om) \<Longrightarrow>
   map_of (merge_members ms om) k =
     (case map_of om k of None \<Rightarrow> map_of ms k
      | Some f \<Rightarrow> Some (case map_of ms k of None \<Rightarrow> f | Some b \<Rightarrow> merge_field b f))"
proof (induction om arbitrary: ms)
  case Nil
  then show ?case by simp
next
  case (Cons p om)
  obtain n f where p: "p = (n, f)" by (cases p)
  with Cons.prems have n: "map_of om n = None" and d: "distinct (map fst om)"
    by (auto simp: map_of_eq_None_iff)
  define v where "v = (case map_of ms n of None \<Rightarrow> f | Some b \<Rightarrow> merge_field b f)"
  have "map_of (merge_members ms (p # om)) k = map_of (merge_members (AList.update n v ms) om) k"
    by (simp add: p v_def)
  also have "\<dots> = (case map_of om k of None \<Rightarrow> map_of (AList.update n v ms) k
      | Some f' \<Rightarrow> Some (case map_of (AList.update n v ms) k of None \<Rightarrow> f' | Some b \<Rightarrow> merge_field b f'))"
    using Cons.IH [OF d] .
  finally show ?case using n
    by (cases "k = n") (simp_all add: p v_def update_conv' split: option.split)
qed

lemma keys_merge_members:
  "set (map fst (merge_members ms om)) = set (map fst ms) \<union> set (map fst om)"
  by (induction ms om rule: merge_members.induct) (auto simp: map_fst_update split: if_splits)

lemma map_fst_merge_members:
  "set (map fst om) \<subseteq> set (map fst ms) \<Longrightarrow> map fst (merge_members ms om) = map fst ms"
  by (induction ms om rule: merge_members.induct) (auto simp: map_fst_update)

lemma distinct_merge_members:
  "distinct (map fst ms) \<Longrightarrow> distinct (map fst (merge_members ms om))"
  by (induction ms om rule: merge_members.induct) (auto simp: map_fst_update)

lemma merge_members_idem:
  assumes "distinct (map fst ms)" and "distinct (map fst om)"
  shows "merge_members (merge_members ms om) om = merge_members ms om"
proof (rule alist_eqI)
  let ?m = "merge_members ms om"
  show "distinct (map fst (merge_members ?m om))"
    using assms by (intro distinct_merge_members)
  show "map fst (merge_members ?m om) = map fst ?m"
    by (rule map_fst_merge_members) (use keys_merge_members [of ms om] in auto)
  show "map_of (merge_members ?m om) = map_of ?m"
    using assms(2) by (auto simp: map_of_merge_members split: option.splits)
qed

lemma merge_members_self:
  assumes "distinct (map fst ms)"
  shows "merge_members ms ms = ms"
proof (rule alist_eqI)
  show "distinct (map fst (merge_members ms ms))" using assms by (rule distinct_merge_members)
  show "map fst (merge_members ms ms) = map fst ms" by (rule map_fst_merge_members) simp
  show "map_of (merge_members ms ms) = map_of ms"
    using assms by (auto simp: map_of_merge_members split: option.splits)
qed

lemma merge_struct_idem:
  "wf_struct b \<Longrightarrow> wf_struct p \<Longrightarrow> merge_struct (merge_struct b p) p = merge_struct b p"
  by (simp add: merge_struct_def wf_struct_def merge_members_idem distinct_merge_members)

lemma merge_struct_self: "wf_struct p \<Longrightarrow> merge_struct p p = p"
  by (simp add: merge_struct_def wf_struct_def merge_members_self)

lemma wf_merge_struct: "wf_struct b \<Longrightarrow> wf_struct (merge_struct b p)"
  by (simp add: merge_struct_def wf_struct_def distinct_merge_members)

lemma merge_overlay_at:
  "distinct (map fst ov) \<Longrightarrow>
   merge_overlay vt ov n =
     (case map_of ov n of None \<Rightarrow> vt n
      | Some s \<Rightarrow> Some (case vt n of None \<Rightarrow> s | Some b \<Rightarrow> merge_struct b s))"
proof (induction ov arbitrary: vt)
  case Nil
  then show ?case by simp
next
  case (Cons p ov)
  obtain m s where p: "p = (m, s)" by (cases p)
  with Cons.prems have m: "map_of ov m = None" and d: "distinct (map fst ov)"
    by (auto simp: map_of_eq_None_iff)
  define v where "v = (case vt m of None \<Rightarrow> s | Some b \<Rightarrow> merge_struct b s)"
  have "merge_overlay vt (p # ov) n = merge_overlay (vt(m \<mapsto> v)) ov n"
    by (simp add: p v_def)
  also have "\<dots> = (case map_of ov n of None \<Rightarrow> (vt(m \<mapsto> v)) n
      | Some s' \<Rightarrow> Some (case (vt(m \<mapsto> v)) n of None \<Rightarrow> s' | Some b \<Rightarrow> merge_struct b s'))"
    using Cons.IH [OF d] .
  finally show ?case using m by (cases "n = m") (simp_all add: p v_def split: option.split)
qed

lemma wf_vtypesD: "wf_vtypes vt \<Longrightarrow> vt n = Some s \<Longrightarrow> wf_struct s"
  unfolding wf_vtypes_def by blast

lemma wf_overlay_struct: "wf_overlay ov \<Longrightarrow> map_of ov n = Some s \<Longrightarrow> wf_struct s"
  by (auto simp: wf_overlay_def list_all_iff dest: map_of_SomeD)

lemma wf_windows_overlay: "wf_overlay windows_overlay"
  by code_simp

lemma wf_demo_vtypes: "wf_vtypes demo_vtypes"
  by (auto simp: wf_vtypes_def demo_vtypes_def wf_struct_def split: if_splits)

lemma demo_eprocess_overlay:
  "map_of windows_overlay ''_EPROCESS'' = Some (None, [(''CreateTime'', (None, ts)), (''ExitTime'', (None, ts)),
     (''InheritedFromUniqueProcessId'', (None, Some (VType ''unsigned int'' []))),
     (''ImageFileName'', (None, str_len (AVal (PyInt 16)))),
     (''UniqueProcessId'', (None, Some (VType ''unsigned int'' [])))])"
  by code_simp

subsection \<open>Properties of the merge\<close>

text \<open>Merging the same overlay twice is merging it once, for a well-formed catalogue and overlay.\<close>

lemma merge_overlay_idempotent:
  assumes "wf_vtypes vt" and "wf_overlay ov"
  shows "merge_overlay (merge_overlay vt ov) ov = merge_overlay vt ov"
proof
  fix n
  have d: "distinct (map fst ov)" using assms(2) by (simp add: wf_overlay_def)
  show "merge_overlay (merge_overlay vt ov) ov n = merge_overlay vt ov n"
  proof (cases "map_of ov n")
    case None
    then show ?thesis by (simp add: merge_overlay_at [OF d])
  next
    case (Some s)
    with assms(2) have s: "wf_struct s" by (rule wf_overlay_struct)
    have once: "merge_overlay vt ov n = Some (case vt n of None \<Rightarrow> s | Some b \<Rightarrow> merge_struct b s)"
      using Some by (simp add: merge_overlay_at [OF d])
    have "merge_overlay (merge_overlay vt ov) ov n =
        Some (case merge_overlay vt ov n of None \<Rightarrow> s | Some b \<Rightarrow> merge_struct b s)"
      using Some by (simp add: merge_overlay_at [OF d, of "merge_overlay vt ov"])
    also have "\<dots> = merge_overlay vt ov n"
    proof (cases "vt n")
      case None
      with once s show ?thesis by (simp add: merge_struct_self)
    next
      case (Some b)
      with assms(1) have "wf_struct b" by (rule wf_vtypesD)
      with Some once s show ?thesis by (simp add: merge_struct_idem)
    qed
    finally show ?thesis .
  qed
qed

text \<open>The merge keeps the catalogue well formed.\<close>

lemma merge_overlay_wf:
  assumes "wf_vtypes vt" and "wf_overlay ov"
  shows "wf_vtypes (merge_overlay vt ov)"
  unfolding wf_vtypes_def
proof (intro allI impI)
  fix n s' assume s': "merge_overlay vt ov n = Some s'"
  have d: "distinct (map fst ov)" using assms(2) by (simp add: wf_overlay_def)
  show "wf_struct s'"
  proof (cases "map_of ov n")
    case None
    with s' d have "vt n = Some s'" by (simp add: merge_overlay_at)
    with assms(1) show ?thesis by (rule wf_vtypesD)
  next
    case (Some s)
    with assms(2) have "wf_struct s" by (rule wf_overlay_struct)
    with Some s' d assms(1) show ?thesis
      by (cases "vt n") (auto simp: merge_overlay_at intro: wf_merge_struct dest: wf_vtypesD)
  qed
qed

text \<open>The merged structure, field by field.\<close>

lemma merge_overlay_field:
  assumes "wf_overlay ov" and "map_of ov n = Some p" and "vt n = Some b"
  shows "\<exists>s'. merge_overlay vt ov n = Some s' \<and> fst s' = keep_or (fst b) (fst p) \<and>
           map_of (snd s') f = (case map_of (snd p) f of None \<Rightarrow> map_of (snd b) f
             | Some q \<Rightarrow> Some (case map_of (snd b) f of None \<Rightarrow> q | Some c \<Rightarrow> merge_field c q))"
proof -
  have d: "distinct (map fst ov)" using assms(1) by (simp add: wf_overlay_def)
  have "wf_struct p" using assms(1,2) by (rule wf_overlay_struct)
  then have "distinct (map fst (snd p))" by (simp add: wf_struct_def)
  with assms(2,3) d show ?thesis
    by (simp add: merge_overlay_at merge_struct_def map_of_merge_members)
qed


end
