(* ===== verification/Profile.thy ===== *)
theory Profile
  imports Schema AddressSpace "HOL-Library.Multiset"
begin

text \<open>
  Profile modifications of
  \<open>src/trunk/volatility/plugins/overlays/windows/windows.py\<close>
  (\<open>WindowsOverlay\<close>, \<open>WindowsVTypes\<close>, \<open>WindowsObjectClasses\<close>,
  \<open>AbstractKDBGMod\<close>) and the engine that applies them
  (\<open>obj.ProfileModification\<close> and the profile's modification loop of
  \<open>volatility/obj.py\<close>, not among the sources, modelled from spec 4.2 and 9).
  A profile holds its structure catalogue \<open>vtypes\<close>, its \<open>object_classes\<close>
  (a dictionary from type name to the Python class implementing it, a class
  being named by its class name) and its \<open>metadata\<close>. A modification has a
  name, the names it must be applied \<open>before\<close>, \<open>conditions\<close> on the
  metadata (a dictionary from key to a predicate on
  \<open>metadata.get(key)\<close>) and a \<open>modification\<close> method, which may raise.
  The engine keeps the modifications whose conditions hold, sorts them so that
  each is applied before every modification it names (ties broken by catalogue
  order, a cycle being a configuration fault), and applies them in turn.
\<close>

record profile =
  vtypes :: vtypes
  object_classes :: "string \<Rightarrow> string option"
  metadata :: "string \<Rightarrow> string option"

record modification =
  mod_name :: string
  mod_before :: "string list"
  mod_conditions :: "(string \<times> (string option \<Rightarrow> bool)) list"
  mod_apply :: "profile \<Rightarrow> string + profile"

definition conditions_hold :: "modification \<Rightarrow> profile \<Rightarrow> bool" where
  "conditions_hold m p = list_all (\<lambda>(k, test). test (metadata p k)) (mod_conditions m)"

subsection \<open>Ordering by \<open>before\<close>\<close>

text \<open>A modification is ready when no remaining one must be applied before it.\<close>

definition ready :: "modification list \<Rightarrow> modification \<Rightarrow> bool" where
  "ready ms m = list_all (\<lambda>m'. mod_name m \<notin> set (mod_before m')) ms"

text \<open>The first element of a list with a property, and the list without it.\<close>

fun pick :: "('a \<Rightarrow> bool) \<Rightarrow> 'a list \<Rightarrow> ('a \<times> 'a list) option" where
  "pick P [] = None"
| "pick P (x # xs) = (if P x then Some (x, xs) else map_option (\<lambda>(y, ys). (y, x # ys)) (pick P xs))"

function tsort :: "modification list \<Rightarrow> modification list option" where
  "tsort [] = Some []"
| "tsort (m # ms) =
     (case pick (ready (m # ms)) (m # ms) of
        None \<Rightarrow> None
      | Some (x, rest) \<Rightarrow> map_option (Cons x) (tsort rest))"
  by pat_completeness auto
termination
proof (relation "measure length")
  have len: "pick P xs = Some (y, ys) \<Longrightarrow> length ys < length xs" for P and xs ys :: "'a list" and y
    by (induction xs arbitrary: ys) (auto split: if_splits)
  show "wf (measure (length :: modification list \<Rightarrow> nat))" by simp
  show "(rest, m # ms) \<in> measure length"
    if "pick (ready (m # ms)) (m # ms) = Some xr" and "(x, rest) = xr" for m ms xr x rest
    using that len [of "ready (m # ms)" "m # ms" x rest] by simp
qed

text \<open>Applying an ordered list of modifications; the first that raises aborts.\<close>

fun run_mods :: "modification list \<Rightarrow> profile \<Rightarrow> string + profile" where
  "run_mods [] p = Inr p"
| "run_mods (m # ms) p = (case mod_apply m p of Inl e \<Rightarrow> Inl e | Inr p' \<Rightarrow> run_mods ms p')"

definition apply_mods :: "modification list \<Rightarrow> profile \<Rightarrow> string + profile" where
  "apply_mods ms p =
     (case tsort (filter (\<lambda>m. conditions_hold m p) ms) of
        None \<Rightarrow> Inl ''Modification dependency cycle''
      | Some ord \<Rightarrow> run_mods ord p)"

text \<open>An order respects the \<open>before\<close> declarations when no modification names, in
  its \<open>before\<close> list, itself or one that comes earlier.\<close>

definition respects_before :: "modification list \<Rightarrow> bool" where
  "respects_before ord = (sorted_wrt (\<lambda>a b. mod_name a \<notin> set (mod_before b)) ord \<and>
                   list_all (\<lambda>a. mod_name a \<notin> set (mod_before a)) ord)"

subsection \<open>The Windows modifications\<close>

definition is_windows :: "string option \<Rightarrow> bool" where
  "is_windows x = (x = Some ''windows'')"

definition windows_overlay_mod :: modification where
  "windows_overlay_mod =
     \<lparr>mod_name = ''WindowsOverlay'', mod_before = [''BasicObjectClasses'', ''WindowsVTypes''],
      mod_conditions = [(''os'', is_windows)],
      mod_apply = (\<lambda>p. Inr (p\<lparr>vtypes := merge_overlay (vtypes p) windows_overlay\<rparr>))\<rparr>"

text \<open>
  \<open>WindowsVTypes\<close>: \<open>profile.vtypes.update\<close> with the tables of
  \<open>crash_vtypes\<close>, \<open>hibernate_vtypes\<close>, \<open>kdbg_vtypes\<close>, \<open>tcpip_vtypes\<close> and
  \<open>ssdt_vtypes\<close>, in this order. The tables themselves are not among the
  sources and are a parameter; \<open>dict.update\<close> replaces whole structures.
\<close>

definition windows_vtypes_mod :: "vtypes list \<Rightarrow> modification" where
  "windows_vtypes_mod tables =
     \<lparr>mod_name = ''WindowsVTypes'', mod_before = [''BasicObjectClasses''],
      mod_conditions = [(''os'', is_windows)],
      mod_apply = (\<lambda>p. Inr (p\<lparr>vtypes := fold (\<lambda>t v. v ++ t) tables (vtypes p)\<rparr>))\<rparr>"

definition windows_classes :: "(string \<times> string) list" where
  "windows_classes = map (\<lambda>c. (c, c))
     [''_UNICODE_STRING'', ''_LIST_ENTRY'', ''WinTimeStamp'', ''_EPROCESS'', ''_ETHREAD'',
      ''_HANDLE_TABLE'', ''_OBJECT_HEADER'', ''_FILE_OBJECT'', ''_MMVAD'', ''_MMVAD_SHORT'',
      ''_MMVAD_LONG'', ''_EX_FAST_REF'', ''ThreadCreateTimeStamp'', ''IpAddress'', ''VolatilityKPCR'',
      ''VolatilityKDBG'', ''VolatilityIA32ValidAS'', ''_IMAGE_DOS_HEADER'', ''_IMAGE_NT_HEADERS'',
      ''_IMAGE_SECTION_HEADER'', ''_CM_KEY_BODY'', ''_MMVAD_FLAGS'', ''_MMVAD_FLAGS2'',
      ''_MMSECTION_FLAGS'', ''_TOKEN'']"

text \<open>
  \<open>WindowsObjectClasses\<close> spells its condition dictionary \<open>constratints\<close>, so
  the inherited \<open>conditions\<close> (empty) are the ones the engine sees.
\<close>

definition windows_object_classes_mod :: modification where
  "windows_object_classes_mod =
     \<lparr>mod_name = ''WindowsObjectClasses'', mod_before = [''BasicObjectClasses'', ''WindowsVTypes'', ''WindowsOverlay''],
      mod_conditions = [],
      mod_apply = (\<lambda>p. Inr (p\<lparr>object_classes := object_classes p ++ map_of windows_classes\<rparr>))\<rparr>"

text \<open>
  \<open>AbstractKDBGMod\<close>: the KDBG header signature, eight zero bytes on a 32-bit
  memory model (the default) and \<open>00 f8 ff ff\<close> otherwise, then \<open>KDBG\<close> and
  the size packed as \<open>struct.pack('<H', kdbgsize)\<close>, which raises
  \<open>struct.error\<close> outside \<open>[0, 65535]\<close>.
\<close>

definition kdbg_signature :: "profile \<Rightarrow> int \<Rightarrow> string + string" where
  "kdbg_signature p kdbgsize =
     (if 0 \<le> kdbgsize \<and> kdbgsize < 65536 then
        Inr ((if (case metadata p ''memory_model'' of None \<Rightarrow> ''32bit'' | Some mm \<Rightarrow> mm) = ''32bit''
              then replicate 8 (CHR 0x00) else [CHR 0x00, CHR 0xF8, CHR 0xFF, CHR 0xFF])
             @ ''KDBG'' @ le_encode 2 (nat kdbgsize))
      else Inl ''struct.error: ushort format requires 0 <= number <= USHRT_MAX'')"

definition kdbg_mod :: "int \<Rightarrow> modification" where
  "kdbg_mod kdbgsize =
     \<lparr>mod_name = ''AbstractKDBGMod'', mod_before = [], mod_conditions = [],
      mod_apply = (\<lambda>p. case kdbg_signature p kdbgsize of
         Inl e \<Rightarrow> Inl e
       | Inr sig \<Rightarrow> Inr (p\<lparr>vtypes := merge_overlay (vtypes p)
            [(''VOLATILITY_MAGIC'', (None, [(''KDBGHeader'', (None, Some (VType ''VolatilityMagic'' [(''value'', AVal (PyStr sig))])))]))]\<rparr>))\<rparr>"

definition abstract_kdbg_size :: int where
  "abstract_kdbg_size = 0x290"

definition windows_mods :: "vtypes list \<Rightarrow> modification list" where
  "windows_mods tables = [windows_overlay_mod, windows_vtypes_mod tables, windows_object_classes_mod]"

text \<open>Profiles for the demonstrations: a Windows and a Linux one, with empty tables.\<close>

definition demo_profile :: "string \<Rightarrow> profile" where
  "demo_profile os = \<lparr>vtypes = Map.empty, object_classes = Map.empty, metadata = [''os'' \<mapsto> os]\<rparr>"

definition demo_win_profile :: profile where
  "demo_win_profile = (demo_profile ''windows'')\<lparr>vtypes := demo_vtypes\<rparr>"

definition demo_hiber :: vtypes where
  "demo_hiber = [''_IMAGE_HIBER_HEADER'' \<mapsto> (Some 0x1000, [])]"

subsection \<open>The engine\<close>

lemma pick_Some:
  "pick P xs = Some (y, ys) \<Longrightarrow> P y \<and> mset xs = add_mset y (mset ys)"
  by (induction xs arbitrary: ys) (auto split: if_splits)

lemma pick_None: "(pick P xs = None) = (\<forall>x \<in> set xs. \<not> P x)"
  by (induction xs) (auto split: if_splits)

lemma sorted_wrt_remove1: "sorted_wrt P xs \<Longrightarrow> sorted_wrt P (remove1 x xs)"
  by (induction xs) (auto dest: in_set_remove1 [THEN iffD1, rotated] simp: notin_set_remove1)

lemma respects_before_remove1: "respects_before ord \<Longrightarrow> respects_before (remove1 x ord)"
  by (auto simp: respects_before_def list_all_iff sorted_wrt_remove1 dest: in_set_remove1 [THEN iffD1, rotated] notin_set_remove1)

lemma respects_before_hd_ready:
  assumes "respects_before (a # ord)"
  shows "ready (a # ord) a"
  using assms by (auto simp: respects_before_def ready_def list_all_iff)

lemma tsort_windows:
  "tsort (windows_mods tables) = Some [windows_object_classes_mod, windows_overlay_mod, windows_vtypes_mod tables]"
  by (simp add: windows_mods_def ready_def windows_overlay_mod_def windows_vtypes_mod_def windows_object_classes_mod_def)

lemma apply_mods_windows:
  assumes "metadata p ''os'' = Some ''windows''"
  shows "apply_mods (windows_mods tables) p =
     Inr (p\<lparr>vtypes := fold (\<lambda>t v. v ++ t) tables (merge_overlay (vtypes p) windows_overlay),
            object_classes := object_classes p ++ map_of windows_classes\<rparr>)"
  using assms
  by (simp add: apply_mods_def windows_mods_def conditions_hold_def is_windows_def ready_def
      windows_overlay_mod_def windows_vtypes_mod_def windows_object_classes_mod_def)


lemma fold_map_add: "fold (\<lambda>t v. v ++ t) tbls (a ++ b) = a ++ fold (\<lambda>t v. v ++ t) tbls b"
proof (induction tbls arbitrary: b)
  case Nil
  then show ?case by simp
next
  case (Cons t tbls)
  have "fold (\<lambda>t v. v ++ t) (t # tbls) (a ++ b) = fold (\<lambda>t v. v ++ t) tbls (a ++ (b ++ t))" by simp
  also have "\<dots> = a ++ fold (\<lambda>t v. v ++ t) tbls (b ++ t)" by (rule Cons.IH)
  finally show ?case by simp
qed

lemma fold_map_add_empty: "fold (\<lambda>t v. v ++ t) tbls a = a ++ fold (\<lambda>t v. v ++ t) tbls Map.empty"
  using fold_map_add [of tbls a Map.empty] by simp

lemma tsort_kdbg_mod: "tsort [kdbg_mod k] = Some [kdbg_mod k]"
  by (simp add: ready_def kdbg_mod_def)

lemma filter_kdbg_mod: "filter (\<lambda>m. conditions_hold m p) [kdbg_mod k] = [kdbg_mod k]"
  by (simp add: conditions_hold_def kdbg_mod_def)

lemma kdbg_mod_apply_Inl: "kdbg_signature p k = Inl e \<Longrightarrow> mod_apply (kdbg_mod k) p = Inl e"
  by (simp add: kdbg_mod_def)

lemma demo_kdbg_signature:
  "kdbg_signature (demo_profile ''windows'') abstract_kdbg_size =
     Inr (replicate 8 (CHR 0x00) @ ''KDBG'' @ [CHR 0x90, CHR 0x02])"
  by code_simp

subsection \<open>Properties of the profile modifications\<close>

lemma windows_overlay_mod_apply:
  "mod_apply windows_overlay_mod p = Inr (p\<lparr>vtypes := merge_overlay (vtypes p) windows_overlay\<rparr>)"
  by (simp add: windows_overlay_mod_def)

text \<open>
  C21: applying \<open>WindowsOverlay\<close> a second time changes nothing: merging
  \<open>windows_overlay\<close> twice is merging it once (spec 8), on any well-formed
  catalogue.
\<close>

theorem windows_overlay_mod_idempotent:
  assumes "wf_vtypes (vtypes p)" and "mod_apply windows_overlay_mod p = Inr p'"
  shows "mod_apply windows_overlay_mod p' = Inr p'"
proof -
  from assms(2) have p': "p' = p\<lparr>vtypes := merge_overlay (vtypes p) windows_overlay\<rparr>"
    by (simp add: windows_overlay_mod_apply)
  then show ?thesis
    using merge_overlay_idempotent [OF assms(1) wf_windows_overlay] by (simp add: windows_overlay_mod_apply)
qed


text \<open>
  C23: after \<open>WindowsOverlay\<close>, a structure that \<open>windows_overlay\<close> patches
  takes the patch's size unless it is \<open>None\<close>; a field named by the patch is
  the patch's offset and type, each kept from the base where the patch gives
  \<open>None\<close>; a field the patch does not name is the base field.
\<close>

theorem windows_overlay_mod_field:
  assumes "mod_apply windows_overlay_mod p = Inr p'" and "map_of windows_overlay n = Some q"
    and "vtypes p n = Some b"
  shows "\<exists>s'. vtypes p' n = Some s' \<and> fst s' = keep_or (fst b) (fst q) \<and>
           map_of (snd s') f = (case map_of (snd q) f of None \<Rightarrow> map_of (snd b) f
             | Some c \<Rightarrow> Some (case map_of (snd b) f of None \<Rightarrow> c | Some d \<Rightarrow> merge_field d c))"
proof -
  from assms(1) have "vtypes p' = merge_overlay (vtypes p) windows_overlay"
    by (auto simp: windows_overlay_mod_apply)
  with merge_overlay_field [where vt = "vtypes p", OF wf_windows_overlay assms(2,3), of f] show ?thesis by simp
qed

text \<open>
  C25: the order the engine computes is a permutation of the modifications in
  which no modification comes after one it must be applied before.
\<close>

theorem tsort_sound:
  "tsort ms = Some ord \<Longrightarrow> mset ord = mset ms \<and> respects_before ord"
proof (induction ms arbitrary: ord rule: tsort.induct)
  case 1
  then show ?case by (simp add: respects_before_def)
next
  case (2 m ms)
  from "2.prems" obtain x rest ord' where
    p: "pick (ready (m # ms)) (m # ms) = Some (x, rest)" and t: "tsort rest = Some ord'"
    and o: "ord = x # ord'"
    by (auto split: option.splits)
  from pick_Some [OF p] have r: "ready (m # ms) x" and ms: "mset (m # ms) = add_mset x (mset rest)" by auto
  from "2.IH" [OF p refl t] have ih: "mset ord' = mset rest" and rb: "respects_before ord'" by auto
  have sub: "set ord' \<subseteq> set (m # ms)"
    using ih ms by (metis mset_eq_setD set_mset_add_mset_insert set_mset_mset subset_insertI)
  have xin: "x \<in> set (m # ms)" using ms by (metis mset_eq_setD list.set_intros(1) set_mset_add_mset_insert set_mset_mset insertI1)
  have "\<forall>b \<in> set ord'. mod_name x \<notin> set (mod_before b)" using r sub by (auto simp: ready_def list_all_iff)
  moreover have "mod_name x \<notin> set (mod_before x)" using r xin by (auto simp: ready_def list_all_iff)
  ultimately have "respects_before ord" using rb o by (simp add: respects_before_def)
  with ih ms o show ?case by simp
qed

text \<open>
  C26: whenever the \<open>before\<close> declarations admit an order, the engine finds
  one: it fails with a dependency cycle only on a real cycle.
\<close>

theorem tsort_complete:
  "mset ord = mset ms \<Longrightarrow> respects_before ord \<Longrightarrow> \<exists>ord'. tsort ms = Some ord'"
proof (induction ms arbitrary: ord rule: tsort.induct)
  case 1
  then show ?case by simp
next
  case (2 m ms)
  then obtain a ord1 where o: "ord = a # ord1" by (cases ord) auto
  have same: "set ord = set (m # ms)" using "2.prems"(1) by (metis set_mset_mset)
  have "ready ord a" using "2.prems"(2) o by (simp add: respects_before_hd_ready)
  then have "ready (m # ms) a" using same by (simp add: ready_def list_all_iff)
  moreover have "a \<in> set (m # ms)" using same o by auto
  ultimately obtain x rest where p: "pick (ready (m # ms)) (m # ms) = Some (x, rest)"
    using pick_None [of "ready (m # ms)" "m # ms"] by (cases "pick (ready (m # ms)) (m # ms)") auto
  from pick_Some [OF p] have ms: "mset (m # ms) = add_mset x (mset rest)" by simp
  have "mset (remove1 x ord) = mset rest" using "2.prems"(1) ms by simp
  moreover have "respects_before (remove1 x ord)" using "2.prems"(2) by (rule respects_before_remove1)
  ultimately obtain ord' where "tsort rest = Some ord'" using "2.IH" [OF p refl] by blast
  with p show ?case by simp
qed



text \<open>
  C29: the KDBG header signature is 14 bytes on a 32-bit memory model and 10
  otherwise, carries \<open>KDBG\<close> before its last two bytes, and those decode
  little-endian to \<open>kdbgsize\<close>.
\<close>

theorem kdbg_signature_roundtrip:
  assumes "kdbg_signature p k = Inr sig"
  shows "(length sig = 14 \<or> length sig = 10) \<and> take 4 (drop (length sig - 6) sig) = ''KDBG'' \<and>
         int (le_decode (drop (length sig - 2) sig)) = k"
proof -
  from assms have k: "0 \<le> k \<and> k < 65536" by (simp add: kdbg_signature_def split: if_splits)
  define pre where "pre = (if (case metadata p ''memory_model'' of None \<Rightarrow> ''32bit'' | Some mm \<Rightarrow> mm) = ''32bit''
              then replicate 8 (CHR 0x00) else [CHR 0x00, CHR 0xF8, CHR 0xFF, CHR 0xFF])"
  define e where "e = le_encode 2 (nat k)"
  have pre: "length pre = 8 \<or> length pre = 4" by (simp add: pre_def)
  from assms k have sig: "sig = pre @ ''KDBG'' @ e"
    by (simp add: kdbg_signature_def pre_def e_def)
  have le: "length e = 2" by (simp add: e_def)
  have "nat k < 65536" using k by linarith
  then have "le_decode e = nat k" by (simp add: e_def le_decode_encode)
  moreover have "length sig - 2 = length (pre @ ''KDBG'')" and "length sig - 6 = length pre"
    using sig le by simp_all
  ultimately show ?thesis using sig le pre k by simp
qed


subsection \<open>Witnesses\<close>

lemma wf_demo_win_profile: "wf_vtypes (vtypes demo_win_profile)"
  by (simp add: demo_win_profile_def wf_demo_vtypes)

theorem windows_overlay_mod_idempotent_witness:
  "mod_apply windows_overlay_mod (demo_win_profile\<lparr>vtypes := merge_overlay demo_vtypes windows_overlay\<rparr>) =
     Inr (demo_win_profile\<lparr>vtypes := merge_overlay demo_vtypes windows_overlay\<rparr>)"
proof -
  have "mod_apply windows_overlay_mod demo_win_profile =
      Inr (demo_win_profile\<lparr>vtypes := merge_overlay demo_vtypes windows_overlay\<rparr>)"
    by (simp add: windows_overlay_mod_apply demo_win_profile_def)
  with wf_demo_win_profile show ?thesis by (rule windows_overlay_mod_idempotent)
qed


theorem windows_overlay_mod_field_witness:
  "\<exists>s'. merge_overlay demo_vtypes windows_overlay ''_EPROCESS'' = Some s' \<and> fst s' = Some 0x260 \<and>
        map_of (snd s') ''CreateTime'' = Some (Some 0x70, ts)"
proof -
  have a: "mod_apply windows_overlay_mod demo_win_profile =
      Inr (demo_win_profile\<lparr>vtypes := merge_overlay demo_vtypes windows_overlay\<rparr>)"
    by (simp add: windows_overlay_mod_apply demo_win_profile_def)
  have b: "vtypes demo_win_profile ''_EPROCESS'' = Some (Some 0x260, [(''Pcb'', (Some 0, Some (VType ''_KPROCESS'' []))),
                                          (''CreateTime'', (Some 0x70, Some (VType ''_LARGE_INTEGER'' [])))])"
    by (simp add: demo_win_profile_def demo_vtypes_def)
  from windows_overlay_mod_field [OF a demo_eprocess_overlay b, of "''CreateTime''"]
  show ?thesis by (simp add: keep_or_def merge_field_def ts_def)
qed

theorem tsort_sound_witness:
  "mset [windows_object_classes_mod, windows_overlay_mod, windows_vtypes_mod []] = mset (windows_mods []) \<and>
   respects_before [windows_object_classes_mod, windows_overlay_mod, windows_vtypes_mod []]"
  by (rule tsort_sound [OF tsort_windows])

theorem tsort_complete_witness:
  "\<exists>ord'. tsort (windows_mods []) = Some ord'"
proof (rule tsort_complete)
  show "mset [windows_object_classes_mod, windows_overlay_mod, windows_vtypes_mod []] = mset (windows_mods [])"
    by (simp add: windows_mods_def)
  show "respects_before [windows_object_classes_mod, windows_overlay_mod, windows_vtypes_mod []]"
    by (simp add: respects_before_def windows_overlay_mod_def windows_vtypes_mod_def windows_object_classes_mod_def)
qed


theorem kdbg_signature_roundtrip_witness:
  "length (replicate 8 (CHR 0x00) @ ''KDBG'' @ [CHR 0x90, CHR 0x02]) = 14 \<and>
   int (le_decode [CHR 0x90, CHR 0x02]) = abstract_kdbg_size"
proof -
  from kdbg_signature_roundtrip [OF demo_kdbg_signature]
  show ?thesis by simp
qed


end
