(* ===== verification/ObjectHeader.thy ===== *)
theory ObjectHeader
  imports Profile UnicodeString
begin

text \<open>
  Object headers and file objects, classes \<open>_OBJECT_HEADER\<close> and
  \<open>_FILE_OBJECT\<close> of
  \<open>src/trunk/volatility/plugins/overlays/windows/windows.py\<close>. An object
  header may be preceded by optional headers (name, handle and quota
  information); the byte \<open><Name>Offset\<close> of the header gives the distance back
  to each, zero meaning absent. The header's constructor looks for each
  optional header whose type the profile has (\<open>profile.has_type\<close>, the
  structure catalogue of \<open>Profile\<close>), reads its offset byte through the member
  table of \<open>_OBJECT_HEADER\<close>, and adds an attribute: the optional header at
  \<open>offset - header_offset\<close> or \<open>NoneObject("Header not set")\<close>. A type the
  profile lacks adds no attribute at all. Reading a member the catalogue does
  not list raises \<open>AttributeError\<close>; an object at an invalid offset is a
  \<open>NoneObject\<close> (\<open>obj.Object\<close>), so construction gives an exception or an
  absent or present header.
\<close>

datatype oh_error = AttributeError string

text \<open>\<open>profile.has_type\<close> and the offset of a member in the catalogue (\<open>CType.m\<close>).\<close>

definition has_type :: "vtypes \<Rightarrow> string \<Rightarrow> bool" where
  "has_type vt t = (vt t \<noteq> None)"

definition member_offset :: "vtypes \<Rightarrow> string \<Rightarrow> string \<Rightarrow> int option" where
  "member_offset vt s f =
     (case vt s of None \<Rightarrow> None
      | Some st \<Rightarrow> (case map_of (snd st) f of None \<Rightarrow> None | Some fd \<Rightarrow> fst fd))"

definition optional_headers :: "(string \<times> string) list" where
  "optional_headers = [(''NameInfo'', ''_OBJECT_HEADER_NAME_INFO''),
                       (''HandleInfo'', ''_OBJECT_HEADER_HANDLE_INFO''),
                       (''QuotaInfo'', ''_OBJECT_HEADER_QUOTA_INFO'')]"

text \<open>
  One optional header: \<open>header_offset = self.m(name + 'Offset').v()\<close>, an
  unsigned char; an unreadable byte is a \<open>NoneObject\<close>, false like zero.
\<close>

definition optional_header :: "addrspace \<Rightarrow> addr \<Rightarrow> int \<Rightarrow> addr nobj" where
  "optional_header vm off moff =
     (case read_uint vm (off + moff) 1 of
        None \<Rightarrow> NoneObject ''Header not set''
      | Some h \<Rightarrow> (if h \<noteq> 0 then new_object vm (off - h) else NoneObject ''Header not set''))"

fun find_optional_headers ::
  "vtypes \<Rightarrow> addrspace \<Rightarrow> addr \<Rightarrow> (string \<times> string) list \<Rightarrow> (string \<Rightarrow> addr nobj option)
     \<Rightarrow> oh_error + (string \<Rightarrow> addr nobj option)" where
  "find_optional_headers vt vm off [] attrs = Inr attrs"
| "find_optional_headers vt vm off ((name, objtype) # hs) attrs =
     (if has_type vt objtype then
        (case member_offset vt ''_OBJECT_HEADER'' (name @ ''Offset'') of
           None \<Rightarrow> Inl (AttributeError (name @ ''Offset''))
         | Some moff \<Rightarrow> find_optional_headers vt vm off hs (attrs(name \<mapsto> optional_header vm off moff)))
      else find_optional_headers vt vm off hs attrs)"

record object_header =
  oh_offset :: addr
  oh_handle_value :: int
  oh_attrs :: "string \<Rightarrow> addr nobj option"

text \<open>\<open>obj.Object('_OBJECT_HEADER', offset, vm, handle_value = hv)\<close>.\<close>

definition new_object_header :: "vtypes \<Rightarrow> addrspace \<Rightarrow> addr \<Rightarrow> int \<Rightarrow> oh_error + object_header nobj" where
  "new_object_header vt vm off hv =
     (if \<not> is_valid_address vm off then Inr (NoneObject ''Invalid Address'')
      else (case find_optional_headers vt vm off optional_headers Map.empty of
              Inl e \<Rightarrow> Inl e
            | Inr attrs \<Rightarrow> Inr (Inr \<lparr>oh_offset = off, oh_handle_value = hv, oh_attrs = attrs\<rparr>)))"

text \<open>
  The remaining members read at offsets that the profile gives; they are
  collected in a layout.
\<close>

record oh_layout =
  ohl_psize :: nat
  ohl_body :: int
  ohl_type :: int
  ohl_type_name :: int
  ohl_granted :: int
  ohl_us :: us_layout
  ohl_name_info_name :: int
  ohl_device_object :: int
  ohl_file_name :: int

text \<open>\<open>GrantedAccess\<close>: the parent handle table entry's \<open>GrantedAccess\<close>, if known.\<close>

definition granted_access :: "addrspace \<Rightarrow> oh_layout \<Rightarrow> addr option \<Rightarrow> int nobj" where
  "granted_access vm L parent =
     (case parent of
        None \<Rightarrow> NoneObject ''No parent known''
      | Some e \<Rightarrow> (case read_uint vm (e + ohl_granted L) 4 of
                    None \<Rightarrow> NoneObject ''GrantedAccess unreadable''
                  | Some g \<Rightarrow> Inr g))"

text \<open>\<open>dereference_as(theType)\<close>: the object at the header's \<open>Body\<close>.\<close>

definition oh_dereference_as :: "addrspace \<Rightarrow> oh_layout \<Rightarrow> object_header \<Rightarrow> addr nobj" where
  "oh_dereference_as vm L h = new_object vm (oh_offset h + ohl_body L)"

text \<open>\<open>get_object_type\<close>: the \<open>Name\<close> of the \<open>_OBJECT_TYPE\<close> that \<open>Type\<close> points to.\<close>

definition get_object_type :: "addrspace \<Rightarrow> oh_layout \<Rightarrow> object_header \<Rightarrow> nat list nobj" where
  "get_object_type vm L h =
     (case read_uint vm (oh_offset h + ohl_type L) (ohl_psize L) of
        None \<Rightarrow> NoneObject ''Type unreadable''
      | Some t \<Rightarrow> (case new_object vm t of
                    Inl r \<Rightarrow> Inl r
                  | Inr ty \<Rightarrow> unicode_dereference vm (ohl_psize L) (ohl_us L) (ty + ohl_type_name L)))"

subsection \<open>\<open>_FILE_OBJECT\<close>\<close>

text \<open>\<open>str()\<close> of a \<open>_UNICODE_STRING\<close>: its string, or the empty string of a \<open>NoneObject\<close>.\<close>

definition us_str :: "addrspace \<Rightarrow> nat \<Rightarrow> us_layout \<Rightarrow> addr \<Rightarrow> nat list" where
  "us_str vm psize U a = (case unicode_dereference vm psize U a of Inl _ \<Rightarrow> [] | Inr s \<Rightarrow> s)"

definition device_prefix :: "nat list" where
  "device_prefix = map of_char ([CHR 0x5C] @ ''Device'' @ [CHR 0x5C])"

text \<open>
  \<open>file_name_with_device\<close>: \<open>\\Device\\<name>\<close> when \<open>DeviceObject\<close> points to a
  valid object whose header is present, then the \<open>FileName\<close> if it is a
  nonzero string. The name of the device is the \<open>Name\<close> of its
  \<open>NameInfo\<close> optional header, empty when that header is not set.
\<close>

definition file_name_with_device :: "vtypes \<Rightarrow> addrspace \<Rightarrow> oh_layout \<Rightarrow> addr \<Rightarrow> oh_error + nat list" where
  "file_name_with_device vt vm L fo =
     (let dev = (case read_ptr_deref vm (ohl_psize L) (fo + ohl_device_object L) of
                   Inl _ \<Rightarrow> Inr []
                 | Inr d \<Rightarrow> (case new_object_header vt vm (d - ohl_body L) 0 of
                               Inl e \<Rightarrow> Inl e
                             | Inr (Inl _) \<Rightarrow> Inr []
                             | Inr (Inr h) \<Rightarrow> (case oh_attrs h ''NameInfo'' of
                                   None \<Rightarrow> Inl (AttributeError ''NameInfo'')
                                 | Some (Inl _) \<Rightarrow> Inr device_prefix
                                 | Some (Inr ni) \<Rightarrow> Inr (device_prefix @
                                     us_str vm (ohl_psize L) (ohl_us L) (ni + ohl_name_info_name L)))))
      in (case dev of
            Inl e \<Rightarrow> Inl e
          | Inr name \<Rightarrow> Inr (if unicode_nonzero vm (ohl_psize L) (ohl_us L) (fo + ohl_file_name L)
                           then name @ us_str vm (ohl_psize L) (ohl_us L) (fo + ohl_file_name L)
                           else name)))"

record file_access =
  fa_read :: int
  fa_write :: int
  fa_delete :: int
  fa_shared_read :: int
  fa_shared_write :: int
  fa_shared_delete :: int

text \<open>\<open>access_string\<close>: one letter per access flag that is positive, \<open>-\<close> otherwise.\<close>

definition flag_char :: "int \<Rightarrow> char \<Rightarrow> char" where
  "flag_char v c = (if v > 0 then c else CHR ''-'')"

definition access_string :: "file_access \<Rightarrow> string" where
  "access_string a =
     [flag_char (fa_read a) CHR ''R'', flag_char (fa_write a) CHR ''W'', flag_char (fa_delete a) CHR ''D'',
      flag_char (fa_shared_read a) CHR ''r'', flag_char (fa_shared_write a) CHR ''w'',
      flag_char (fa_shared_delete a) CHR ''d'']"

text \<open>
  Demonstration: a header at 1000 whose name information lies 16 bytes
  before it, whose quota information is not set, on a catalogue without
  \<open>_OBJECT_HEADER_HANDLE_INFO\<close>.
\<close>

definition demo_oh_vtypes :: vtypes where
  "demo_oh_vtypes = [''_OBJECT_HEADER'' \<mapsto> (Some 0x20,
       [(''NameInfoOffset'', (Some 0xC, Some (VType ''unsigned char'' []))),
        (''HandleInfoOffset'', (Some 0xD, Some (VType ''unsigned char'' []))),
        (''QuotaInfoOffset'', (Some 0xE, Some (VType ''unsigned char'' [])))]),
     ''_OBJECT_HEADER_NAME_INFO'' \<mapsto> (Some 0x10, []),
     ''_OBJECT_HEADER_QUOTA_INFO'' \<mapsto> (Some 0x10, [])]"

definition demo_oh_image :: addrspace where
  "demo_oh_image = image_of (store_bytes 984 [CHR 0x00] @ store_bytes 1000 [CHR 0x00] @
     store_bytes 1012 [CHR 0x10, CHR 0x05, CHR 0x00])"

text \<open>A catalogue of a version that dropped the handle information header, and
  one whose \<open>_OBJECT_HEADER\<close> does not list \<open>HandleInfoOffset\<close>.\<close>

definition demo_oh_vtypes_bad :: vtypes where
  "demo_oh_vtypes_bad = demo_oh_vtypes(''_OBJECT_HEADER_HANDLE_INFO'' \<mapsto> (Some 8, []),
     ''_OBJECT_HEADER'' \<mapsto> (Some 0x20, [(''NameInfoOffset'', (Some 0xC, Some (VType ''unsigned char'' [])))]))"


subsection \<open>Optional headers\<close>

lemma find_optional_headers_frame:
  "find_optional_headers vt vm off hs attrs = Inr attrs' \<Longrightarrow> n \<notin> fst ` set hs \<Longrightarrow> attrs' n = attrs n"
  by (induction vt vm off hs attrs rule: find_optional_headers.induct)
     (fastforce split: if_splits option.splits)+

lemma find_optional_headers_attr:
  assumes "find_optional_headers vt vm off hs attrs = Inr attrs'" and "(n, ty) \<in> set hs"
    and "distinct (map fst hs)"
  shows "(has_type vt ty \<longrightarrow> (\<exists>moff. member_offset vt ''_OBJECT_HEADER'' (n @ ''Offset'') = Some moff \<and>
                                     attrs' n = Some (optional_header vm off moff))) \<and>
         (\<not> has_type vt ty \<longrightarrow> attrs' n = attrs n)"
  using assms
proof (induction vt vm off hs attrs rule: find_optional_headers.induct)
  case (1 vt vm off attrs)
  then show ?case by simp
next
  case (2 vt vm off name objtype hs attrs)
  from "2.prems"(3) have nm: "name \<notin> fst ` set hs" and d: "distinct (map fst hs)" by auto
  show ?case
  proof (cases "has_type vt objtype")
    case True
    then obtain moff where m: "member_offset vt ''_OBJECT_HEADER'' (name @ ''Offset'') = Some moff"
      and r: "find_optional_headers vt vm off hs (attrs(name \<mapsto> optional_header vm off moff)) = Inr attrs'"
      using "2.prems"(1) by (auto split: option.splits)
    show ?thesis
    proof (cases "(n, ty) = (name, objtype)")
      case True
      with r nm m \<open>has_type vt objtype\<close> show ?thesis by (auto dest: find_optional_headers_frame)
    next
      case False
      with "2.prems"(2) have in_hs: "(n, ty) \<in> set hs" by auto
      with nm have "n \<noteq> name" by force
      with "2.IH"(1) [OF \<open>has_type vt objtype\<close> m r in_hs d] show ?thesis by simp
    qed
  next
    case False
    with "2.prems"(1) have r: "find_optional_headers vt vm off hs attrs = Inr attrs'" by simp
    show ?thesis
    proof (cases "(n, ty) = (name, objtype)")
      case True
      with r nm False show ?thesis by (auto dest: find_optional_headers_frame)
    next
      case False
      with "2.prems"(2) have "(n, ty) \<in> set hs" by auto
      from "2.IH"(2) [OF \<open>\<not> has_type vt objtype\<close> r this d] show ?thesis .
    qed
  qed
qed

lemma find_optional_headers_error:
  "(n, ty) \<in> set hs \<Longrightarrow> has_type vt ty \<Longrightarrow> member_offset vt ''_OBJECT_HEADER'' (n @ ''Offset'') = None \<Longrightarrow>
   \<exists>e. find_optional_headers vt vm off hs attrs = Inl e"
  by (induction vt vm off hs attrs rule: find_optional_headers.induct) (auto split: option.splits)

lemma distinct_optional_headers: "distinct (map fst optional_headers)"
  by (simp add: optional_headers_def)

lemma new_object_header_Inr:
  "new_object_header vt vm off hv = Inr (Inr h) \<Longrightarrow>
   oh_offset h = off \<and> find_optional_headers vt vm off optional_headers Map.empty = Inr (oh_attrs h)"
  by (auto simp: new_object_header_def split: if_splits sum.splits)

text \<open>
  C31: an optional header whose type the profile has is the header at
  \<open>offset - header_offset\<close> when its offset byte is nonzero, and
  \<open>NoneObject("Header not set")\<close> when it is zero (spec 8); each optional
  header depends on its own byte only.
\<close>

theorem object_header_optional:
  assumes "new_object_header vt vm off hv = Inr (Inr h)" and "(n, ty) \<in> set optional_headers"
    and "has_type vt ty" and "member_offset vt ''_OBJECT_HEADER'' (n @ ''Offset'') = Some moff"
    and "read_uint vm (off + moff) 1 = Some b"
  shows "oh_attrs h n = Some (if b = 0 then NoneObject ''Header not set'' else new_object vm (off - b))"
proof -
  from new_object_header_Inr [OF assms(1)]
  have f: "find_optional_headers vt vm off optional_headers Map.empty = Inr (oh_attrs h)" by simp
  from find_optional_headers_attr [OF f assms(2) distinct_optional_headers] assms(3,4)
  have "oh_attrs h n = Some (optional_header vm off moff)" by auto
  with assms(5) show ?thesis by (simp add: optional_header_def)
qed

text \<open>
  C32: an optional header whose type the profile lacks gets no attribute at
  all: reading it raises \<open>AttributeError\<close> instead of giving an absent value,
  and the test is made at each construction rather than once per profile.
\<close>

theorem object_header_missing_type:
  assumes "new_object_header vt vm off hv = Inr (Inr h)" and "(n, ty) \<in> set optional_headers"
    and "\<not> has_type vt ty"
  shows "oh_attrs h n = None"
proof -
  from new_object_header_Inr [OF assms(1)]
  have f: "find_optional_headers vt vm off optional_headers Map.empty = Inr (oh_attrs h)" by simp
  from find_optional_headers_attr [OF f assms(2) distinct_optional_headers] assms(3) show ?thesis by simp
qed

text \<open>
  C33: constructing a header at a valid offset raises \<open>AttributeError\<close> when
  the profile has an optional header type but \<open>_OBJECT_HEADER\<close> does not
  list its offset member.
\<close>

theorem object_header_attribute_error:
  assumes "is_valid_address vm off" and "(n, ty) \<in> set optional_headers" and "has_type vt ty"
    and "member_offset vt ''_OBJECT_HEADER'' (n @ ''Offset'') = None"
  shows "\<exists>e. new_object_header vt vm off hv = Inl e"
  using find_optional_headers_error [OF assms(2-4), of vm off Map.empty] assms(1)
  by (auto simp: new_object_header_def)

subsection \<open>Witnesses\<close>

lemma demo_oh_header:
  "case new_object_header demo_oh_vtypes demo_oh_image 1000 0 of Inr (Inr h) \<Rightarrow> True | _ \<Rightarrow> False"
  by code_simp

lemma demo_oh_obtain:
  obtains h where "new_object_header demo_oh_vtypes demo_oh_image 1000 0 = Inr (Inr h)"
  using demo_oh_header by (auto split: sum.splits)

theorem object_header_optional_witness:
  "\<exists>h. new_object_header demo_oh_vtypes demo_oh_image 1000 0 = Inr (Inr h) \<and>
       oh_attrs h ''NameInfo'' = Some (Inr 984) \<and> oh_attrs h ''QuotaInfo'' = Some (NoneObject ''Header not set'')"
proof -
  obtain h where h: "new_object_header demo_oh_vtypes demo_oh_image 1000 0 = Inr (Inr h)" by (rule demo_oh_obtain)
  have n: "oh_attrs h ''NameInfo'' = Some (Inr 984)"
  proof -
    have "has_type demo_oh_vtypes ''_OBJECT_HEADER_NAME_INFO''" by (simp add: has_type_def demo_oh_vtypes_def)
    moreover have "member_offset demo_oh_vtypes ''_OBJECT_HEADER'' (''NameInfo'' @ ''Offset'') = Some 12"
      by (simp add: member_offset_def demo_oh_vtypes_def)
    moreover have "read_uint demo_oh_image (1000 + 12) 1 = Some 16" by code_simp
    moreover have "new_object demo_oh_image (1000 - 16) = Inr 984" by code_simp
    ultimately show ?thesis
      using object_header_optional [OF h, of "''NameInfo''" "''_OBJECT_HEADER_NAME_INFO''" 12 16]
      by (simp add: optional_headers_def)
  qed
  have q: "oh_attrs h ''QuotaInfo'' = Some (NoneObject ''Header not set'')"
  proof -
    have "has_type demo_oh_vtypes ''_OBJECT_HEADER_QUOTA_INFO''" by (simp add: has_type_def demo_oh_vtypes_def)
    moreover have "member_offset demo_oh_vtypes ''_OBJECT_HEADER'' (''QuotaInfo'' @ ''Offset'') = Some 14"
      by (simp add: member_offset_def demo_oh_vtypes_def)
    moreover have "read_uint demo_oh_image (1000 + 14) 1 = Some 0" by code_simp
    ultimately show ?thesis
      using object_header_optional [OF h, of "''QuotaInfo''" "''_OBJECT_HEADER_QUOTA_INFO''" 14 0]
      by (simp add: optional_headers_def)
  qed
  from h n q show ?thesis by blast
qed

theorem object_header_missing_type_witness:
  "\<exists>h. new_object_header demo_oh_vtypes demo_oh_image 1000 0 = Inr (Inr h) \<and> oh_attrs h ''HandleInfo'' = None"
proof -
  obtain h where h: "new_object_header demo_oh_vtypes demo_oh_image 1000 0 = Inr (Inr h)" by (rule demo_oh_obtain)
  have "\<not> has_type demo_oh_vtypes ''_OBJECT_HEADER_HANDLE_INFO''" by (simp add: has_type_def demo_oh_vtypes_def)
  with h object_header_missing_type [OF h, of "''HandleInfo''" "''_OBJECT_HEADER_HANDLE_INFO''"]
  show ?thesis by (auto simp: optional_headers_def)
qed

theorem object_header_attribute_error_witness:
  "\<exists>e. new_object_header demo_oh_vtypes_bad demo_oh_image 1000 0 = Inl e"
proof (rule object_header_attribute_error)
  show "is_valid_address demo_oh_image 1000" by code_simp
  show "(''HandleInfo'', ''_OBJECT_HEADER_HANDLE_INFO'') \<in> set optional_headers" by (simp add: optional_headers_def)
  show "has_type demo_oh_vtypes_bad ''_OBJECT_HEADER_HANDLE_INFO''" by (simp add: has_type_def demo_oh_vtypes_bad_def)
  show "member_offset demo_oh_vtypes_bad ''_OBJECT_HEADER'' (''HandleInfo'' @ ''Offset'') = None"
    by (simp add: member_offset_def demo_oh_vtypes_bad_def)
qed

end
