(* ===== verification/Validator.thy ===== *)
theory Validator
  imports AddressSpace
begin

text \<open>
  The self-referential validator \<open>VolatilityIA32ValidAS\<close> of
  \<open>src/trunk/volatility/plugins/overlays/windows/windows.py\<close>, with the
  IA32 address translation it relies on. The paged address spaces
  (\<open>IA32PagedMemory\<close> and \<open>IA32PagedMemoryPae\<close> of
  \<open>volatility/plugins/addrspaces\<close>) are not among the sources; their
  \<open>vtop\<close> is modelled from spec 4.7 and the IA32 paging structures it walks:
  a page directory at \<open>dtb\<close> (four-byte entries) or, with PAE, a page
  directory pointer table at \<open>dtb\<close> (eight-byte entries). An entry is present
  when bit 0 is set and maps a large page when bit 7 is set; an unreadable
  entry gives no translation. The validator yields one verdict: \<open>True\<close> when
  the page directory maps itself at \<open>0xc0300000\<close> (\<open>0xc0600000\<close> with PAE),
  else \<open>True\<close> when \<open>KUSER_SHARED_DATA\<close> (\<open>0xffdf0000\<close>) and its user mapping
  (\<open>0x7ffe0000\<close>) translate to the same page, else \<open>False\<close>.
\<close>

record ia32_as =
  ia32_base :: addrspace
  ia32_dtb :: int
  ia32_pae :: bool

definition read_long_phys :: "addrspace \<Rightarrow> addr \<Rightarrow> int option" where
  "read_long_phys vm a = read_uint vm a 4"

definition read_long_long_phys :: "addrspace \<Rightarrow> addr \<Rightarrow> int option" where
  "read_long_long_phys vm a = read_uint vm a 8"

definition entry_present :: "int \<Rightarrow> bool" where
  "entry_present e = (e AND 1 \<noteq> 0)"

definition page_size_flag :: "int \<Rightarrow> bool" where
  "page_size_flag e = (e AND 0x80 \<noteq> 0)"

text \<open>\<open>IA32PagedMemory.vtop\<close>.\<close>

definition ia32_vtop :: "ia32_as \<Rightarrow> int \<Rightarrow> int option" where
  "ia32_vtop A va =
     (case read_long_phys (ia32_base A) ((ia32_dtb A AND 0xfffff000) OR drop_bit 20 (va AND 0xffc00000)) of
        None \<Rightarrow> None
      | Some pde \<Rightarrow>
          (if \<not> entry_present pde then None
           else if page_size_flag pde then Some ((pde AND 0xffc00000) OR (va AND 0x3fffff))
           else (case read_long_phys (ia32_base A) ((pde AND 0xfffff000) OR drop_bit 10 (va AND 0x3ff000)) of
                   None \<Rightarrow> None
                 | Some pte \<Rightarrow> (if \<not> entry_present pte then None
                                else Some ((pte AND 0xfffff000) OR (va AND 0xfff))))))"

text \<open>\<open>IA32PagedMemoryPae.get_pdpte\<close> and \<open>vtop\<close>.\<close>

definition get_pdpte :: "ia32_as \<Rightarrow> int \<Rightarrow> int option" where
  "get_pdpte A va = read_long_long_phys (ia32_base A) ((ia32_dtb A AND 0xffffffe0) OR drop_bit 27 (va AND 0xc0000000))"

definition pae_vtop :: "ia32_as \<Rightarrow> int \<Rightarrow> int option" where
  "pae_vtop A va =
     (case get_pdpte A va of
        None \<Rightarrow> None
      | Some pdpte \<Rightarrow>
          (if \<not> entry_present pdpte then None
           else (case read_long_long_phys (ia32_base A) ((pdpte AND 0xffffffffff000) OR drop_bit 18 (va AND 0x3fe00000)) of
                   None \<Rightarrow> None
                 | Some pde \<Rightarrow>
                     (if \<not> entry_present pde then None
                      else if page_size_flag pde then Some ((pde AND 0xfffffffe00000) OR (va AND 0x1fffff))
                      else (case read_long_long_phys (ia32_base A) ((pde AND 0xffffffffff000) OR drop_bit 9 (va AND 0x1ff000)) of
                              None \<Rightarrow> None
                            | Some pte \<Rightarrow> (if \<not> entry_present pte then None
                                           else Some ((pte AND 0xffffffffff000) OR (va AND 0xfff))))))))"

definition vtop :: "ia32_as \<Rightarrow> int \<Rightarrow> int option" where
  "vtop A va = (if ia32_pae A then pae_vtop A va else ia32_vtop A va)"

text \<open>
  \<open>VolatilityIA32ValidAS.generate_suggestions\<close>: the self-map test, then
  the shared-page test, as the list of suggestions the generator yields
  (\<open>raise StopIteration\<close> ends it after the first \<open>True\<close>). An unreadable
  page directory pointer makes the self-map test fail.
\<close>

definition ia32_valid_suggestions :: "ia32_as \<Rightarrow> bool list" where
  "ia32_valid_suggestions A =
     (let pde_base = (if ia32_pae A then 0xc0600000 else 0xc0300000);
          pd = (if ia32_pae A then map_option (\<lambda>p. p AND 0xffffffffff000) (get_pdpte A 0) else Some (ia32_dtb A))
      in if pd \<noteq> None \<and> vtop A pde_base = pd then [True]
         else if vtop A 0xffdf0000 = vtop A 0x7ffe0000 \<and> vtop A 0xffdf0000 \<noteq> None then [True]
         else [False])"


text \<open>
  Demonstration tables: a page directory at \<open>0x1000\<close> whose entry \<open>0x300\<close>
  maps it back to itself, the same directory with that entry cleared, and a
  PAE table at \<open>0x100\<close> whose fourth directory (at \<open>0x5000\<close>) maps itself
  and the first directory (at \<open>0x2000\<close>).
\<close>

definition demo_ia32_ok :: addrspace where
  "demo_ia32_ok = image_of (store_bytes 0x1C00 [CHR 0x01, CHR 0x10, CHR 0x00, CHR 0x00])"

definition demo_ia32_bad :: addrspace where
  "demo_ia32_bad = image_of (store_bytes 0x1C00 [CHR 0x00, CHR 0x00, CHR 0x00, CHR 0x00])"

definition demo_pae :: addrspace where
  "demo_pae = image_of (store_bytes 0x100 [CHR 0x01, CHR 0x20, CHR 0x00, CHR 0x00, CHR 0x00, CHR 0x00, CHR 0x00, CHR 0x00]
     @ store_bytes 0x118 [CHR 0x01, CHR 0x50, CHR 0x00, CHR 0x00, CHR 0x00, CHR 0x00, CHR 0x00, CHR 0x00]
     @ store_bytes 0x5018 [CHR 0x01, CHR 0x50, CHR 0x00, CHR 0x00, CHR 0x00, CHR 0x00, CHR 0x00, CHR 0x00]
     @ store_bytes 0x5000 [CHR 0x01, CHR 0x20, CHR 0x00, CHR 0x00, CHR 0x00, CHR 0x00, CHR 0x00, CHR 0x00])"

subsection \<open>Translation through a self-mapping directory\<close>

lemma mask_consts:
  "(0xfffff000::int) = mask 32 AND NOT (mask 12)"
  "(0xffffffffff000::int) = mask 52 AND NOT (mask 12)"
  "(0xffffffe0::int) = mask 32 AND NOT (mask 5)"
  by (simp_all add: mask_eq_exp_minus_1)

lemma entry_present_bit: "entry_present e = bit e 0"
  using and_exp_ne_0 [of e 0] by (simp add: entry_present_def)

lemma page_size_flag_bit: "page_size_flag e = bit e 7"
  using and_exp_ne_0 [of e 7] by (simp add: page_size_flag_def)

lemma ia32_self_map_vtop:
  assumes al: "dtb mod 4096 = 0" and lo: "0 \<le> dtb" and hi: "dtb < 2 ^ 32"
    and pde: "read_long_phys vm (dtb + 0xc00) = Some (dtb + f)"
    and f: "0 \<le> f" "f < 4096" and pr: "bit f 0" and np: "\<not> bit f 7"
  shows "ia32_vtop \<lparr>ia32_base = vm, ia32_dtb = dtb, ia32_pae = False\<rparr> 0xc0300000 = Some dtb"
proof -
  have al': "dtb mod 2 ^ 12 = 0" using al by simp
  have f': "f < 2 ^ 12" using f(2) by simp
  have keep: "dtb AND 0xfffff000 = dtb"
    unfolding mask_consts(1) using aligned_and_keep [OF al' lo hi] .
  have keep2: "(dtb + f) AND 0xfffff000 = dtb"
    unfolding mask_consts(1) using aligned_plus_and_keep [OF al' lo hi f(1) f'] .
  have addr: "dtb OR 0xc00 = dtb + 0xc00" using aligned_or_low [OF al', of "0xc00"] by simp
  have p0: "bit (dtb + f) 0 = bit f 0" using bit_aligned_plus [OF al' f(1) f'] by simp
  have p7: "bit (dtb + f) 7 = bit f 7" using bit_aligned_plus [OF al' f(1) f'] by simp
  have d1: "drop_bit 20 ((0xc0300000::int) AND 0xffc00000) = 0xc00" by simp
  have d2: "drop_bit 10 ((0xc0300000::int) AND 0x3ff000) = 0xc00" by simp
  have d3: "(0xc0300000::int) AND 0xfff = 0" by simp
  show ?thesis
    unfolding ia32_vtop_def
    using pde pr np by (simp add: keep keep2 addr d1 d2 d3 entry_present_bit page_size_flag_bit p0 p7)
qed


lemma pae_self_map_vtop:
  assumes al: "dtb mod 32 = 0" and lo: "0 \<le> dtb" and hi: "dtb < 2 ^ 32"
    and a0: "pda mod 4096 = 0" "0 \<le> pda" "pda < 2 ^ 52"
    and a3: "pdd mod 4096 = 0" "0 \<le> pdd" "pdd < 2 ^ 52"
    and fl: "0 \<le> j" "j < 4096" "0 \<le> g" "g < 4096" "0 \<le> h" "h < 4096" "0 \<le> i" "i < 4096"
    and r0: "read_long_long_phys vm dtb = Some (pda + j)"
    and r3: "read_long_long_phys vm (dtb + 24) = Some (pdd + g)"
    and rd: "read_long_long_phys vm (pdd + 24) = Some (pdd + h)"
    and rt: "read_long_long_phys vm pdd = Some (pda + i)"
    and pr: "bit g 0" "bit h 0" "\<not> bit h 7" "bit i 0"
  shows "pae_vtop \<lparr>ia32_base = vm, ia32_dtb = dtb, ia32_pae = True\<rparr> 0xc0600000 = Some pda"
    and "get_pdpte \<lparr>ia32_base = vm, ia32_dtb = dtb, ia32_pae = True\<rparr> 0 = Some (pda + j)"
    and "(pda + j) AND 0xffffffffff000 = pda"
proof -
  have al': "dtb mod 2 ^ 5 = 0" using al by simp
  have a0': "pda mod 2 ^ 12 = 0" and a3': "pdd mod 2 ^ 12 = 0" using a0(1) a3(1) by simp_all
  have fl': "j < 2 ^ 12" "g < 2 ^ 12" "h < 2 ^ 12" "i < 2 ^ 12" using fl by simp_all
  have kd: "dtb AND 0xffffffe0 = dtb"
    unfolding mask_consts(3) using aligned_and_keep [OF al' lo hi] .
  have k0: "(pda + j) AND 0xffffffffff000 = pda" and ki: "(pda + i) AND 0xffffffffff000 = pda"
    unfolding mask_consts(2) using aligned_plus_and_keep [OF a0' a0(2,3)] fl fl' by simp_all
  have kg: "(pdd + g) AND 0xffffffffff000 = pdd" and kh: "(pdd + h) AND 0xffffffffff000 = pdd"
    unfolding mask_consts(2) using aligned_plus_and_keep [OF a3' a3(2,3)] fl fl' by simp_all
  have o1: "dtb OR 24 = dtb + 24" using aligned_or_low [OF al', of 24] by simp
  have o2: "pdd OR 24 = pdd + 24" using aligned_or_low [OF a3', of 24] by simp
  have bg: "bit (pdd + g) 0 = bit g 0" using bit_aligned_plus [OF a3' fl(3) fl'(2)] by simp
  have bh: "bit (pdd + h) 0 = bit h 0" "bit (pdd + h) 7 = bit h 7"
    using bit_aligned_plus [OF a3' fl(5) fl'(3)] by simp_all
  have bi: "bit (pda + i) 0 = bit i 0" using bit_aligned_plus [OF a0' fl(7) fl'(4)] by simp
  have d: "drop_bit 27 ((0xc0600000::int) AND 0xc0000000) = 24"
    "drop_bit 18 ((0xc0600000::int) AND 0x3fe00000) = 24"
    "drop_bit 9 ((0xc0600000::int) AND 0x1ff000) = 0"
    "(0xc0600000::int) AND 0xfff = 0"
    "drop_bit 27 ((0::int) AND 0xc0000000) = 0"
    by simp_all
  show "pae_vtop \<lparr>ia32_base = vm, ia32_dtb = dtb, ia32_pae = True\<rparr> 0xc0600000 = Some pda"
    unfolding pae_vtop_def get_pdpte_def
    using r3 rd rt pr by (simp add: kd kg kh ki o1 o2 d entry_present_bit page_size_flag_bit bg bh bi)
  show "get_pdpte \<lparr>ia32_base = vm, ia32_dtb = dtb, ia32_pae = True\<rparr> 0 = Some (pda + j)"
    unfolding get_pdpte_def using r0 by (simp add: kd d)
  show "(pda + j) AND 0xffffffffff000 = pda" by (rule k0)
qed

subsection \<open>The verdicts\<close>

text \<open>
  C34: without PAE, a page directory whose entry \<open>0x300\<close> (read at
  \<open>dtb + 0xc00\<close>) points back to the directory as a present, small-page
  entry makes \<open>vtop(0xc0300000) = dtb\<close>, and the validator accepts.
\<close>

theorem ia32_self_map_accepts:
  assumes "dtb mod 4096 = 0" and "0 \<le> dtb" and "dtb < 2 ^ 32"
    and "read_long_phys vm (dtb + 0xc00) = Some (dtb + f)"
    and "0 \<le> f" and "f < 4096" and "bit f 0" and "\<not> bit f 7"
  shows "ia32_valid_suggestions \<lparr>ia32_base = vm, ia32_dtb = dtb, ia32_pae = False\<rparr> = [True]"
  using ia32_self_map_vtop [OF assms] by (simp add: ia32_valid_suggestions_def vtop_def)

text \<open>
  C35: with PAE, when the fourth page directory maps itself in its entry 3
  and the first directory in its entry 0, \<open>vtop(0xc0600000)\<close> is the first
  directory, which is \<open>get_pdpte(0) & 0xffffffffff000\<close>, and the validator
  accepts.
\<close>

theorem pae_self_map_accepts:
  assumes "dtb mod 32 = 0" and "0 \<le> dtb" and "dtb < 2 ^ 32"
    and "pda mod 4096 = 0" and "0 \<le> pda" and "pda < 2 ^ 52"
    and "pdd mod 4096 = 0" and "0 \<le> pdd" and "pdd < 2 ^ 52"
    and "0 \<le> j" and "j < 4096" and "0 \<le> g" and "g < 4096" and "0 \<le> h" and "h < 4096"
    and "0 \<le> i" and "i < 4096"
    and "read_long_long_phys vm dtb = Some (pda + j)"
    and "read_long_long_phys vm (dtb + 24) = Some (pdd + g)"
    and "read_long_long_phys vm (pdd + 24) = Some (pdd + h)"
    and "read_long_long_phys vm pdd = Some (pda + i)"
    and "bit g 0" and "bit h 0" and "\<not> bit h 7" and "bit i 0"
  shows "ia32_valid_suggestions \<lparr>ia32_base = vm, ia32_dtb = dtb, ia32_pae = True\<rparr> = [True]"
  using pae_self_map_vtop [OF assms] by (simp add: ia32_valid_suggestions_def vtop_def)

text \<open>
  A directory whose self-map entry is cleared, in an image where neither
  \<open>KUSER_SHARED_DATA\<close> nor its user mapping translates, is rejected: the
  shared-page test does not accept two failed translations.
\<close>

theorem ia32_broken_self_map_rejects:
  "ia32_valid_suggestions \<lparr>ia32_base = demo_ia32_bad, ia32_dtb = 0x1000, ia32_pae = False\<rparr> = [False]"
  by code_simp

subsection \<open>Witnesses\<close>

theorem ia32_self_map_accepts_witness:
  "ia32_valid_suggestions \<lparr>ia32_base = demo_ia32_ok, ia32_dtb = 0x1000, ia32_pae = False\<rparr> = [True]"
proof (rule ia32_self_map_accepts)
  show "read_long_phys demo_ia32_ok (0x1000 + 0xc00) = Some (0x1000 + 1)" by code_simp
qed simp_all

theorem pae_self_map_accepts_witness:
  "ia32_valid_suggestions \<lparr>ia32_base = demo_pae, ia32_dtb = 0x100, ia32_pae = True\<rparr> = [True]"
proof (rule pae_self_map_accepts [where pda = "0x2000" and pdd = "0x5000" and j = 1 and g = 1 and h = 1 and i = 1])
  show "read_long_long_phys demo_pae 0x100 = Some (0x2000 + 1)" by code_simp
  show "read_long_long_phys demo_pae (0x100 + 24) = Some (0x5000 + 1)" by code_simp
  show "read_long_long_phys demo_pae (0x5000 + 24) = Some (0x5000 + 1)" by code_simp
  show "read_long_long_phys demo_pae 0x5000 = Some (0x2000 + 1)" by code_simp
qed simp_all

end
