(* ===== verification/TimeStamp.thy ===== *)
theory TimeStamp
  imports AddressSpace
begin

text \<open>
  Windows time stamps, classes \<open>WinTimeStamp\<close> and \<open>ThreadCreateTimeStamp\<close>
  of \<open>src/trunk/volatility/plugins/overlays/windows/windows.py\<close>. A
  \<open>WinTimeStamp\<close> is a signed 64-bit native value (\<open>format_string = "q"\<close>)
  counting 100 ns intervals since 1601; \<open>v()\<close> converts it to UNIX seconds
  with Python 2 integer division (floor), clamping negative results to zero.
  A \<open>ThreadCreateTimeStamp\<close> stores the value shifted left by three bits and
  shifts it back (\<open>>> 3\<close>, an arithmetic shift). A value that cannot be read
  is a \<open>NoneObject\<close>, which the conversion passes on.
\<close>

datatype ts_kind = WinTS | ThreadCreateTS

text \<open>
  \<open>struct.unpack('<q', ...)\<close>: eight little-endian bytes as a two's
  complement signed 64-bit integer.
\<close>

definition read_int64 :: "addrspace \<Rightarrow> addr \<Rightarrow> int option" where
  "read_int64 vm a = read_sint vm a 8"

definition windows_to_unix_time :: "int \<Rightarrow> int" where
  "windows_to_unix_time wt =
     (let unix_time = (if wt = 0 then 0 else wt div 10000000 - 11644473600)
      in if unix_time < 0 then 0 else unix_time)"

definition as_windows_timestamp :: "ts_kind \<Rightarrow> addrspace \<Rightarrow> addr \<Rightarrow> int nobj" where
  "as_windows_timestamp k vm a =
     (case read_int64 vm a of
        None \<Rightarrow> NoneObject ''Unable to read timestamp''
      | Some v \<Rightarrow> Inr (case k of WinTS \<Rightarrow> v | ThreadCreateTS \<Rightarrow> drop_bit 3 v))"

definition timestamp_v :: "ts_kind \<Rightarrow> addrspace \<Rightarrow> addr \<Rightarrow> int nobj" where
  "timestamp_v k vm a = map_sum id windows_to_unix_time (as_windows_timestamp k vm a)"

text \<open>\<open>__nonzero__\<close>: \<open>self.v() != 0\<close>; a \<open>NoneObject\<close> is false.\<close>

definition timestamp_nonzero :: "ts_kind \<Rightarrow> addrspace \<Rightarrow> addr \<Rightarrow> bool" where
  "timestamp_nonzero k vm a = (case timestamp_v k vm a of Inl _ \<Rightarrow> False | Inr u \<Rightarrow> u \<noteq> 0)"

text \<open>A creation time of \<open>130000000000000000\<close> (December 2012) stored at 0x40.\<close>

definition demo_ts :: addrspace where
  "demo_ts = image_of (store_bytes 0x40 [CHR 0x00, CHR 0x00, CHR 0xCD, CHR 0xAC, CHR 0x4F, CHR 0xDA, CHR 0xCD, CHR 0x01])"

subsection \<open>Conversion\<close>

lemma read_int64_bound: "read_int64 vm a = Some v \<Longrightarrow> - (2 ^ 63) \<le> v \<and> v < 2 ^ 63"
  using read_sint_bound [of vm a 8 v] by (simp add: read_int64_def)

text \<open>The decoding is the signed reading of the 64-bit word the bytes form.\<close>

lemma signed64_sint:
  assumes "0 \<le> (x::int)" and "x < 2 ^ 64"
  shows "(if x < 2 ^ 63 then x else x - 2 ^ 64) = sint (word_of_int x :: 64 word)"
proof -
  note x = assms
  have "sint (word_of_int x :: 64 word) = (x + 2 ^ 63) mod 2 ^ 64 - 2 ^ 63"
    by (simp only: int_word_sint) simp
  also have "\<dots> = (if x < 2 ^ 63 then x else x - 2 ^ 64)"
  proof (cases "x < 2 ^ 63")
    case True
    then have "(x + 2 ^ 63) mod 2 ^ 64 = x + 2 ^ 63" using x by (simp add: mod_pos_pos_trivial)
    then show ?thesis using True by simp
  next
    case False
    then have "(x + 2 ^ 63) mod 2 ^ 64 = (x - 2 ^ 63 + 2 ^ 64) mod 2 ^ 64" by (simp add: add.commute)
    also have "\<dots> = x - 2 ^ 63" using x False by (simp only: mod_add_self2) (simp add: mod_pos_pos_trivial)
    finally show ?thesis using False by simp
  qed
  finally show ?thesis by simp
qed

lemma read_int64_sint:
  "read_int64 vm a = map_option (\<lambda>v. sint (word_of_int v :: 64 word)) (read_uint vm a 8)"
proof (cases "read_uint vm a 8")
  case (Some x)
  then have b: "0 \<le> x" "x < 2 ^ 64" using read_uint_bound [OF Some] by simp_all
  have "read_int64 vm a = Some (if x < 2 ^ 63 then x else x - 2 ^ 64)"
    using Some by (simp add: read_int64_def read_sint_def)
  also have "\<dots> = Some (sint (word_of_int x :: 64 word))" by (simp only: signed64_sint [OF b])
  finally show ?thesis using Some by simp
qed (simp add: read_int64_def read_sint_def)

lemma windows_to_unix_time_nonneg: "0 \<le> windows_to_unix_time wt"
  by (simp add: windows_to_unix_time_def Let_def)

lemma windows_to_unix_time_le: "wt < 2 ^ 63 \<Longrightarrow> windows_to_unix_time wt \<le> 910692730085"
proof -
  have c: "(9223372036854775807::int) div 10000000 = 922337203685" by simp
  assume "wt < 2 ^ 63"
  then have "wt \<le> 9223372036854775807" by simp
  then have "wt div 10000000 \<le> 9223372036854775807 div 10000000" by (rule zdiv_mono1) simp
  then have "wt div 10000000 \<le> 922337203685" by (simp only: c)
  then show ?thesis unfolding windows_to_unix_time_def Let_def by simp
qed

lemma drop_bit_3_le: "v < 2 ^ 63 \<Longrightarrow> drop_bit 3 (v::int) < 2 ^ 63"
  by (simp add: drop_bit_eq_div)

subsection \<open>Properties\<close>

text \<open>
  C37: the UNIX time of a time stamp that can be read is never negative and
  at most \<open>(2^63 - 1) div 10^7 - 11644473600\<close>, the largest value a signed
  64-bit count can give; this holds for both kinds of time stamp.
\<close>

theorem timestamp_v_bounds:
  assumes "timestamp_v k vm a = Inr u"
  shows "0 \<le> u \<and> u \<le> 910692730085"
proof -
  from assms obtain v where r: "read_int64 vm a = Some v"
    and u: "u = windows_to_unix_time (case k of WinTS \<Rightarrow> v | ThreadCreateTS \<Rightarrow> drop_bit 3 v)"
    by (auto simp: timestamp_v_def as_windows_timestamp_def split: option.splits)
  have "(case k of WinTS \<Rightarrow> v | ThreadCreateTS \<Rightarrow> drop_bit 3 v) < 2 ^ 63"
    using read_int64_bound [OF r] drop_bit_3_le by (cases k) simp_all
  then show ?thesis using u windows_to_unix_time_nonneg windows_to_unix_time_le by simp
qed

text \<open>
  C38: the conversion inverts the UNIX-to-Windows conversion: a Windows time
  \<open>(u + 11644473600) * 10^7 + r\<close> with \<open>0 <= r < 10^7\<close> is UNIX time \<open>u\<close>,
  for every \<open>u >= 0\<close>.
\<close>

theorem windows_to_unix_time_roundtrip:
  assumes "0 \<le> u" and "0 \<le> r" and "r < 10000000"
  shows "windows_to_unix_time ((u + 11644473600) * 10000000 + r) = u"
proof -
  define w where "w = (u + 11644473600) * 10000000 + r"
  have "r div 10000000 = 0" using assms(2,3) by simp
  then have d: "w div 10000000 = u + 11644473600"
    unfolding w_def by (simp only: div_mult_self3 [of 10000000] zero_neq_numeral not_False_eq_True)
  have "w \<noteq> 0" using assms unfolding w_def by simp
  then have "windows_to_unix_time w = u"
    using assms(1) d unfolding windows_to_unix_time_def Let_def by simp
  then show ?thesis by (simp only: w_def)
qed

subsection \<open>Witnesses\<close>

theorem timestamp_v_bounds_witness:
  "timestamp_v WinTS demo_ts 0x40 = Inr 1355526400 \<and> 0 \<le> (1355526400::int) \<and> (1355526400::int) \<le> 910692730085"
proof -
  have "read_uint demo_ts 0x40 8 = Some 130000000000000000"
    by (simp add: demo_ts_def mem_simps)
  then have r: "timestamp_v WinTS demo_ts 0x40 = Inr 1355526400"
    by (simp add: timestamp_v_def as_windows_timestamp_def read_int64_def read_sint_def windows_to_unix_time_def)
  show ?thesis using timestamp_v_bounds [OF r] r by simp
qed

theorem windows_to_unix_time_roundtrip_witness:
  "windows_to_unix_time ((1355526400 + 11644473600) * 10000000 + 0) = 1355526400"
  by (rule windows_to_unix_time_roundtrip) simp_all

end
