(* ===== verification/Process.thy ===== *)
theory Process
  imports HandleTable Vad
begin

text \<open>
  Processes, tokens and threads, classes \<open>_EPROCESS\<close>, \<open>_TOKEN\<close> and
  \<open>_ETHREAD\<close> of \<open>src/trunk/volatility/plugins/overlays/windows/windows.py\<close>.
  A process lives in the kernel address space; its page directory
  (\<open>Pcb.DirectoryTableBase\<close>, an \<open>unsigned long\<close> by the overlay) gives a
  second address space for the process, built by the class of the kernel
  space (a parameter \<open>mk_as\<close> of the model: \<open>None\<close> when the constructor's
  assertions fail). The \<open>Peb\<close> pointer is followed in that process space, and
  the three module lists of the loader data are walked with
  \<open>_LIST_ENTRY.list_of_type\<close> (theory \<open>ListEntry\<close>); the VAD tree is walked with
  \<open>_MMVAD.traverse\<close> (theory \<open>Vad\<close>). The token is reached through the
  \<open>_EX_FAST_REF\<close> member \<open>Token\<close> (theory \<open>HandleTable\<close>) and accepted only when
  it passes the token's own validity test. An absent value compares unequal to
  every number and is false, so an unreadable member fails every test.
\<close>

datatype module_list = InLoadOrder | InMemoryOrder | InInitializationOrder

text \<open>
  Offsets of the members the methods read: in \<open>_EPROCESS\<close>, in the \<open>_PEB\<close>
  (\<open>Ldr\<close>), in \<open>_PEB_LDR_DATA\<close> (the three list heads) and in
  \<open>_LDR_DATA_TABLE_ENTRY\<close> (the three links).
\<close>

record proc_layout =
  pl_psize :: nat
  pl_dtb :: int
  pl_peb :: int
  pl_unique_pid :: int
  pl_token :: int
  pl_vad_root :: int
  pl_ldr :: int
  pl_ldr_list :: "module_list \<Rightarrow> int"
  pl_ldr_link :: "module_list \<Rightarrow> int"

record token_layout =
  tk_token_in_use :: int
  tk_session_id :: int

record thread_layout =
  th_threads_process :: int
  th_tcb :: int
  th_apc_state :: int
  th_apc_process :: int

subsection \<open>\<open>_EPROCESS\<close>\<close>

text \<open>\<open>get_process_address_space\<close>: the process space for the page directory.\<close>

definition get_process_address_space ::
  "(int \<Rightarrow> addrspace option) \<Rightarrow> addrspace \<Rightarrow> proc_layout \<Rightarrow> addr \<Rightarrow> addrspace nobj" where
  "get_process_address_space mk_as vm P e =
     (case read_uint vm (e + pl_dtb P) 4 of
        None \<Rightarrow> NoneObject ''Unable to get process AS''
      | Some dtb \<Rightarrow> (case mk_as dtb of
                      None \<Rightarrow> NoneObject ''Unable to get process AS''
                    | Some pas \<Rightarrow> Inr pas))"

text \<open>\<open>Peb\<close>: the \<open>_PEB\<close> at the value of the \<open>Peb\<close> pointer, in the process space.\<close>

definition eprocess_peb ::
  "(int \<Rightarrow> addrspace option) \<Rightarrow> addrspace \<Rightarrow> proc_layout \<Rightarrow> addr \<Rightarrow> (addrspace \<times> addr) nobj" where
  "eprocess_peb mk_as vm P e =
     (case get_process_address_space mk_as vm P e of
        Inl _ \<Rightarrow> NoneObject ''Peb not found''
      | Inr pas \<Rightarrow> (case read_uint vm (e + pl_peb P) (pl_psize P) of
                     None \<Rightarrow> NoneObject ''Peb not found''
                   | Some off \<Rightarrow> (if is_valid_address pas off then Inr (pas, off)
                                  else NoneObject ''Peb not found'')))"

text \<open>
  \<open>self.Peb.Ldr.<list>\<close>: the list head in the loader data the \<open>Ldr\<close> pointer
  of the \<open>_PEB\<close> designates, an object of the process space.
\<close>

definition module_list_head ::
  "(int \<Rightarrow> addrspace option) \<Rightarrow> addrspace \<Rightarrow> proc_layout \<Rightarrow> module_list \<Rightarrow> addr \<Rightarrow> (addrspace \<times> addr) nobj" where
  "module_list_head mk_as vm P ml e =
     (case eprocess_peb mk_as vm P e of
        Inl r \<Rightarrow> Inl r
      | Inr (pas, peb) \<Rightarrow> (case read_ptr_deref pas (pl_psize P) (peb + pl_ldr P) of
                           Inl r \<Rightarrow> Inl r
                         | Inr ldr \<Rightarrow> (case new_object pas (ldr + pl_ldr_list P ml) of
                                         Inl r \<Rightarrow> Inl r
                                       | Inr l \<Rightarrow> Inr (pas, l))))"

text \<open>
  \<open>_get_modules\<close> behind \<open>get_load_modules\<close>, \<open>get_mem_modules\<close> and
  \<open>get_init_modules\<close>: nothing unless \<open>UniqueProcessId\<close> is nonzero and the list
  head is true, else the entries of the list, each an
  \<open>_LDR_DATA_TABLE_ENTRY\<close> of the process space.
\<close>

definition get_modules ::
  "(int \<Rightarrow> addrspace option) \<Rightarrow> addrspace \<Rightarrow> proc_layout \<Rightarrow> module_list \<Rightarrow> addr \<Rightarrow> addr list option" where
  "get_modules mk_as vm P ml e =
     (case read_uint vm (e + pl_unique_pid P) 4 of
        None \<Rightarrow> Some []
      | Some pid \<Rightarrow>
          (if pid = 0 then Some []
           else (case module_list_head mk_as vm P ml e of
                   Inl _ \<Rightarrow> Some []
                 | Inr (pas, l) \<Rightarrow>
                     (if list_entry_nonzero pas (pl_psize P) l
                      then list_of_type pas (pl_psize P) l True (pl_ldr_link P ml)
                      else Some []))))"

text \<open>
  \<open>get_vads\<close>: the VAD tree of the process space from the value of \<open>VadRoot\<close>
  (a pointer, as on the profiles where it is one).
\<close>

definition eprocess_get_vads ::
  "(int \<Rightarrow> addrspace option) \<Rightarrow> addrspace \<Rightarrow> proc_layout \<Rightarrow> vad_layout \<Rightarrow> addr \<Rightarrow> vad_node list option" where
  "eprocess_get_vads mk_as vm P V e =
     (case get_process_address_space mk_as vm P e of
        Inl _ \<Rightarrow> Some []
      | Inr pas \<Rightarrow> (case read_uint vm (e + pl_vad_root P) (pl_psize P) of
                     None \<Rightarrow> Some []
                   | Some r \<Rightarrow> get_vads pas V r))"

subsection \<open>\<open>_TOKEN\<close>\<close>

text \<open>
  \<open>_TOKEN.is_valid\<close>: the object's address is valid, \<open>TokenInUse\<close> (a
  \<open>BOOLEAN\<close>, one byte) is 0 or 1 and \<open>SessionId\<close> (a \<open>ULONG\<close>) is below 10.
\<close>

definition token_is_valid :: "addrspace \<Rightarrow> token_layout \<Rightarrow> addr \<Rightarrow> bool" where
  "token_is_valid vm K t =
     (is_valid_address vm t \<and>
      (case read_uint vm (t + tk_token_in_use K) 1 of None \<Rightarrow> False | Some u \<Rightarrow> u = 0 \<or> u = 1) \<and>
      (case read_uint vm (t + tk_session_id K) 4 of None \<Rightarrow> False | Some s \<Rightarrow> s < 10))"

text \<open>\<open>get_token\<close>: \<open>self.Token.dereference_as("_TOKEN")\<close> if it is a valid token.\<close>

definition get_token :: "addrspace \<Rightarrow> proc_layout \<Rightarrow> token_layout \<Rightarrow> addr \<Rightarrow> addr nobj" where
  "get_token vm P K e =
     (case fast_ref_deref vm (pl_psize P) (e + pl_token P) of
        Inl _ \<Rightarrow> NoneObject ''Cannot get process Token''
      | Inr t \<Rightarrow> (if token_is_valid vm K t then Inr t else NoneObject ''Cannot get process Token''))"

subsection \<open>\<open>_ETHREAD\<close>\<close>

text \<open>\<open>owning_process\<close>: \<open>self.ThreadsProcess.dereference()\<close>.\<close>

definition owning_process :: "addrspace \<Rightarrow> nat \<Rightarrow> thread_layout \<Rightarrow> addr \<Rightarrow> addr nobj" where
  "owning_process vm psize T th = read_ptr_deref vm psize (th + th_threads_process T)"

text \<open>
  \<open>attached_process\<close>: \<open>self.Tcb.ApcState.Process.dereference_as("_EPROCESS")\<close>,
  through the embedded \<open>_KTHREAD\<close> and \<open>_KAPC_STATE\<close>, each an object only at a
  valid address.
\<close>

definition attached_process :: "addrspace \<Rightarrow> nat \<Rightarrow> thread_layout \<Rightarrow> addr \<Rightarrow> addr nobj" where
  "attached_process vm psize T th =
     (case new_object vm (th + th_tcb T) of
        Inl r \<Rightarrow> Inl r
      | Inr tcb \<Rightarrow> (case new_object vm (tcb + th_apc_state T) of
                     Inl r \<Rightarrow> Inl r
                   | Inr apc \<Rightarrow> read_ptr_deref vm psize (apc + th_apc_process T)))"

subsection \<open>Example\<close>

text \<open>
  An image with 4-byte pointers: a process at 0x100 whose \<open>Token\<close> fast
  reference at \<open>+0x10\<close> is \<open>0x203\<close> (the token at 0x200 with reference count
  3), and a token with \<open>TokenInUse = 1\<close> at \<open>+0x4\<close> and \<open>SessionId = 0\<close> at
  \<open>+0x8\<close>.
\<close>

definition demo_proc_layout :: proc_layout where
  "demo_proc_layout = \<lparr>pl_psize = 4, pl_dtb = 0x18, pl_peb = 0x1C, pl_unique_pid = 0x20, pl_token = 0x10,
     pl_vad_root = 0x24, pl_ldr = 0xC, pl_ldr_list = (\<lambda>_. 0xC), pl_ldr_link = (\<lambda>_. 0)\<rparr>"

definition demo_token_layout :: token_layout where
  "demo_token_layout = \<lparr>tk_token_in_use = 4, tk_session_id = 8\<rparr>"

definition demo_token :: addrspace where
  "demo_token = image_of (store_bytes 0x110 [CHR 0x03, CHR 0x02, CHR 0x00, CHR 0x00]
     @ store_bytes 0x200 [CHR 0x00, CHR 0x00, CHR 0x00, CHR 0x00, CHR 0x01, CHR 0x00, CHR 0x00, CHR 0x00,
                          CHR 0x00, CHR 0x00, CHR 0x00, CHR 0x00])"

subsection \<open>Properties\<close>

lemma fast_ref_deref_Inr:
  "(fast_ref_deref vm psize a = Inr t) =
     (\<exists>v. read_uint vm a psize = Some v \<and> t = v AND NOT 7 \<and> is_valid_address vm t)"
  by (auto simp: fast_ref_deref_def split: option.split)

text \<open>
  The loops behind the process methods are those of the list and tree
  components, run in the process space; over process spaces with finitely
  many valid addresses both return.
\<close>

lemma list_of_type_returns:
  "finite (valid_set vm) \<Longrightarrow> \<exists>r. list_of_type vm psize head forward off = Some r"
  using list_walk_terminates [of vm psize forward off]
  by (auto simp: list_of_type_def split: sum.split)

lemma get_modules_terminates:
  assumes "\<forall>d pas. mk_as d = Some pas \<longrightarrow> finite (valid_set pas)"
  shows "\<exists>r. get_modules mk_as vm P ml e = Some r"
proof -
  have "finite (valid_set pas)" if "module_list_head mk_as vm P ml e = Inr (pas, l)" for pas l
    using that assms
    by (auto simp: module_list_head_def eprocess_peb_def get_process_address_space_def
             split: sum.splits option.splits prod.splits if_splits)
  then show ?thesis
    using list_of_type_returns
    by (auto simp: get_modules_def split: option.split sum.split prod.split)
qed

lemma eprocess_get_vads_terminates:
  assumes "\<forall>d pas. mk_as d = Some pas \<longrightarrow> finite (valid_set pas)"
  shows "\<exists>r. eprocess_get_vads mk_as vm P V e = Some r"
proof -
  have "\<exists>r. get_vads pas V root = Some r" if "finite (valid_set pas)" for pas root
    using vad_trav_terminates [OF that] by (auto simp: get_vads_def split: sum.splits)
  then show ?thesis using assms
    by (auto simp: eprocess_get_vads_def get_process_address_space_def split: option.split)
qed

text \<open>A process's module list is read from its own space, never the kernel's.\<close>

lemma get_modules_in_process_space:
  assumes "get_modules mk_as vm P ml e = Some ms" and "ms \<noteq> []"
  shows "\<exists>d pas l. read_uint vm (e + pl_dtb P) 4 = Some d \<and> mk_as d = Some pas \<and>
           list_of_type pas (pl_psize P) l True (pl_ldr_link P ml) = Some ms"
  using assms
  by (auto simp: get_modules_def module_list_head_def eprocess_peb_def get_process_address_space_def
           split: option.splits sum.splits prod.splits if_splits)



end
