(* ===== verification/Registry.thy ===== *)
theory Registry
  imports AddressSpace
begin

text \<open>
  Registry key names, class \<open>_CM_KEY_BODY\<close> of
  \<open>src/trunk/volatility/plugins/overlays/windows/windows.py\<close>. A key body
  points to its key control block (\<open>KeyControlBlock\<close>); each control block
  points to its parent (\<open>ParentKcb\<close>) and to a name block (\<open>NameBlock\<close>) whose
  \<open>Name\<close> is a string of \<open>NameLength\<close> bytes (the overlay's
  \<open>_CM_NAME_CONTROL_BLOCK\<close>). \<open>full_key_name\<close> climbs the parents while the
  current block has a true \<open>ParentKcb\<close> (a pointer is true when it points to a
  valid address) and a name, collecting the names, and joins them leaf last
  with backslashes. The climb keeps no record of the blocks it has seen; it is a
  \<open>partial_function (option)\<close>, \<open>None\<close> being a climb that never ends.
\<close>

record kcb_layout =
  kl_psize :: nat
  kl_key_control_block :: int
  kl_parent_kcb :: int
  kl_name_block :: int
  kl_name_length :: int
  kl_name :: int

text \<open>\<open>kcb.ParentKcb\<close> as a truth value: the parent when the block is an object and the pointer is valid.\<close>

definition kcb_parent :: "addrspace \<Rightarrow> kcb_layout \<Rightarrow> addr \<Rightarrow> addr option" where
  "kcb_parent vm R k =
     (if \<not> is_valid_address vm k then None
      else (case read_ptr_deref vm (kl_psize R) (k + kl_parent_kcb R) of
              Inl _ \<Rightarrow> None
            | Inr p \<Rightarrow> Some p))"

text \<open>
  \<open>kcb.NameBlock.Name\<close>: absent (\<open>== None\<close>) when the name block pointer or
  the string's address is invalid or its length cannot be read, else the
  string (\<open>str()\<close>: the bytes up to the first NUL).
\<close>

definition kcb_name :: "addrspace \<Rightarrow> kcb_layout \<Rightarrow> addr \<Rightarrow> string option" where
  "kcb_name vm R k =
     (case read_ptr_deref vm (kl_psize R) (k + kl_name_block R) of
        Inl _ \<Rightarrow> None
      | Inr nb \<Rightarrow>
          (if \<not> is_valid_address vm (nb + kl_name R) then None
           else (case read_uint vm (nb + kl_name_length R) 2 of
                   None \<Rightarrow> None
                 | Some n \<Rightarrow> Some (read_string vm (nb + kl_name R) (nat n)))))"

text \<open>The \<open>while kcb.ParentKcb\<close> loop, \<open>output\<close> in the order of the climb.\<close>

partial_function (option) kcb_names ::
  "addrspace \<Rightarrow> kcb_layout \<Rightarrow> addr \<Rightarrow> string list \<Rightarrow> string list option" where
  "kcb_names vm R k output =
     (case kcb_parent vm R k of
        None \<Rightarrow> Some output
      | Some p \<Rightarrow> (case kcb_name vm R k of
                    None \<Rightarrow> Some output
                  | Some n \<Rightarrow> kcb_names vm R p (output @ [n])))"

declare kcb_names.simps [code]

definition full_key_name :: "addrspace \<Rightarrow> kcb_layout \<Rightarrow> addr \<Rightarrow> string option" where
  "full_key_name vm R body =
     (case read_uint vm (body + kl_key_control_block R) (kl_psize R) of
        None \<Rightarrow> Some []
      | Some k \<Rightarrow> map_option (\<lambda>output. str_join [CHR 0x5C] (rev output)) (kcb_names vm R k []))"

text \<open>A chain of control blocks, each named with a true parent, ending at one where the climb stops.\<close>

fun kcb_path :: "addrspace \<Rightarrow> kcb_layout \<Rightarrow> addr list \<Rightarrow> bool" where
  "kcb_path vm R [] = False"
| "kcb_path vm R [k] = (kcb_parent vm R k = None \<or> kcb_name vm R k = None)"
| "kcb_path vm R (k # k' # ks) =
     (kcb_parent vm R k = Some k' \<and> kcb_name vm R k \<noteq> None \<and> kcb_path vm R (k' # ks))"

subsection \<open>Examples\<close>

text \<open>
  4-byte pointers; a control block holds \<open>ParentKcb\<close> at \<open>+8\<close> and
  \<open>NameBlock\<close> at \<open>+12\<close>, a name block \<open>NameLength\<close> at \<open>+0\<close> and \<open>Name\<close> at
  \<open>+2\<close>; the key body at 0x300 points to the block at 0x100. In
  \<open>demo_kcb_loop\<close> the block at 0x100, named \<open>Key\<close>, is its own parent.
\<close>

definition demo_kcb_layout :: kcb_layout where
  "demo_kcb_layout = \<lparr>kl_psize = 4, kl_key_control_block = 0, kl_parent_kcb = 8, kl_name_block = 12,
     kl_name_length = 0, kl_name = 2\<rparr>"

definition demo_kcb_loop :: addrspace where
  "demo_kcb_loop = image_of (store_bytes 0x100 [CHR 0x00, CHR 0x00, CHR 0x00, CHR 0x00, CHR 0x00, CHR 0x00,
       CHR 0x00, CHR 0x00, CHR 0x00, CHR 0x01, CHR 0x00, CHR 0x00, CHR 0x00, CHR 0x02, CHR 0x00, CHR 0x00]
     @ store_bytes 0x200 [CHR 0x03, CHR 0x00, CHR 0x4B, CHR 0x65, CHR 0x79]
     @ store_bytes 0x300 [CHR 0x00, CHR 0x01, CHR 0x00, CHR 0x00])"

text \<open>
  In \<open>demo_kcb_chain\<close> the block at 0x100, named \<open>Key\<close>, has the parent 0x180,
  named \<open>SW\<close>, whose parent 0x1C0 has a null \<open>ParentKcb\<close>.
\<close>

definition demo_kcb_chain :: addrspace where
  "demo_kcb_chain = image_of (store_bytes 0x100 [CHR 0x00, CHR 0x00, CHR 0x00, CHR 0x00, CHR 0x00, CHR 0x00,
       CHR 0x00, CHR 0x00, CHR 0x80, CHR 0x01, CHR 0x00, CHR 0x00, CHR 0x00, CHR 0x02, CHR 0x00, CHR 0x00]
     @ store_bytes 0x180 [CHR 0x00, CHR 0x00, CHR 0x00, CHR 0x00, CHR 0x00, CHR 0x00,
       CHR 0x00, CHR 0x00, CHR 0xC0, CHR 0x01, CHR 0x00, CHR 0x00, CHR 0x40, CHR 0x02, CHR 0x00, CHR 0x00]
     @ store_bytes 0x1C0 [CHR 0x00, CHR 0x00, CHR 0x00, CHR 0x00, CHR 0x00, CHR 0x00,
       CHR 0x00, CHR 0x00, CHR 0x00, CHR 0x00, CHR 0x00, CHR 0x00, CHR 0x00, CHR 0x00, CHR 0x00, CHR 0x00]
     @ store_bytes 0x200 [CHR 0x03, CHR 0x00, CHR 0x4B, CHR 0x65, CHR 0x79]
     @ store_bytes 0x240 [CHR 0x02, CHR 0x00, CHR 0x53, CHR 0x57]
     @ store_bytes 0x300 [CHR 0x00, CHR 0x01, CHR 0x00, CHR 0x00])"

subsection \<open>The climb\<close>

text \<open>The rules that evaluate the two tests of the loop on a concrete image.\<close>

lemmas kcb_eval = kcb_name_def kcb_parent_def mem_simps read_ptr_deref_def deref_def new_object_def
  is_valid_address_def read_string_def zread_def

lemma kcb_names_path:
  "kcb_path vm R (k # ks) \<Longrightarrow>
     kcb_names vm R k out = Some (out @ map (the \<circ> kcb_name vm R) (butlast (k # ks)))"
proof (induction ks arbitrary: k out)
  case Nil
  then show ?case by (auto simp: kcb_names.simps [of vm R k out] split: option.split)
next
  case (Cons k' ks)
  then obtain n where p: "kcb_parent vm R k = Some k'" and n: "kcb_name vm R k = Some n"
    and rest: "kcb_path vm R (k' # ks)" by auto
  have "kcb_names vm R k out = kcb_names vm R k' (out @ [n])"
    using p n by (simp add: kcb_names.simps [of vm R k out])
  also have "\<dots> = Some (out @ [n] @ map (the \<circ> kcb_name vm R) (butlast (k' # ks)))"
    using Cons.IH [OF rest] by simp
  finally show ?case using n by simp
qed

text \<open>A climb that returns has left every set of named blocks closed under true parents.\<close>

lemma kcb_names_leaves_closed:
  assumes ret: "kcb_names vm R k out = Some r"
  shows "(\<forall>x \<in> S. kcb_name vm R x \<noteq> None \<and> (\<exists>p. kcb_parent vm R x = Some p \<and> p \<in> S)) \<longrightarrow> k \<notin> S"
proof (rule kcb_names.raw_induct [where P = "\<lambda>vm R k out r.
    (\<forall>x \<in> S. kcb_name vm R x \<noteq> None \<and> (\<exists>p. kcb_parent vm R x = Some p \<and> p \<in> S)) \<longrightarrow> k \<notin> S", OF _ ret])
  fix f vm R k out r
  assume IH: "\<And>vm R k out r. f vm R k out = Some r \<Longrightarrow>
      (\<forall>x \<in> S. kcb_name vm R x \<noteq> None \<and> (\<exists>p. kcb_parent vm R x = Some p \<and> p \<in> S)) \<longrightarrow> k \<notin> S"
    and eq: "(case kcb_parent vm R k of None \<Rightarrow> Some out
      | Some p \<Rightarrow> (case kcb_name vm R k of None \<Rightarrow> Some out | Some n \<Rightarrow> f vm R p (out @ [n]))) = Some r"
  show "(\<forall>x \<in> S. kcb_name vm R x \<noteq> None \<and> (\<exists>p. kcb_parent vm R x = Some p \<and> p \<in> S)) \<longrightarrow> k \<notin> S"
  proof (intro impI notI)
    assume cl: "\<forall>x \<in> S. kcb_name vm R x \<noteq> None \<and> (\<exists>p. kcb_parent vm R x = Some p \<and> p \<in> S)"
      and k: "k \<in> S"
    then obtain p n where p: "kcb_parent vm R k = Some p" "p \<in> S" and n: "kcb_name vm R k = Some n"
      by blast
    with eq have "f vm R p (out @ [n]) = Some r" by simp
    with IH cl p(2) show False by blast
  qed
qed

text \<open>On a chain that ends, the names are joined root side first; the root's own name is not read.\<close>

lemma full_key_name_demo_chain:
  "full_key_name demo_kcb_chain demo_kcb_layout 0x300 = Some (''SW'' @ [CHR 0x5C] @ ''Key'')"
proof -
  have "kcb_path demo_kcb_chain demo_kcb_layout [0x100, 0x180, 0x1C0]"
    by (simp add: kcb_eval demo_kcb_chain_def demo_kcb_layout_def)
  then have "kcb_names demo_kcb_chain demo_kcb_layout 0x100 [] =
      Some (map (the \<circ> kcb_name demo_kcb_chain demo_kcb_layout) [0x100, 0x180])"
    using kcb_names_path [where out = "[]" and ks = "[0x180, 0x1C0]"] by simp
  then show ?thesis by (simp add: full_key_name_def kcb_eval demo_kcb_chain_def demo_kcb_layout_def)
qed

subsection \<open>Properties\<close>

text \<open>
  C39: the climb has no cycle check. When the key body's control block lies in
  a set of named blocks each of whose parents is a valid block of the set (a
  parent chain that loops, for instance a block that is its own parent),
  \<open>full_key_name\<close> never returns.
\<close>

theorem full_key_name_cycle:
  assumes "read_uint vm (body + kl_key_control_block R) (kl_psize R) = Some k" and "k \<in> S"
    and "\<forall>x \<in> S. kcb_name vm R x \<noteq> None \<and> (\<exists>p. kcb_parent vm R x = Some p \<and> p \<in> S)"
  shows "full_key_name vm R body = None"
proof -
  have "kcb_names vm R k [] = None"
  proof (rule ccontr)
    assume "kcb_names vm R k [] \<noteq> None"
    then obtain r where "kcb_names vm R k [] = Some r" by blast
    from kcb_names_leaves_closed [OF this, of S] assms(2,3) show False by blast
  qed
  with assms(1) show ?thesis by (simp add: full_key_name_def)
qed

theorem full_key_name_cycle_witness:
  "full_key_name demo_kcb_loop demo_kcb_layout 0x300 = None"
proof -
  have k: "read_uint demo_kcb_loop (0x300 + kl_key_control_block demo_kcb_layout) (kl_psize demo_kcb_layout) = Some 0x100"
    by (simp add: demo_kcb_loop_def demo_kcb_layout_def mem_simps)
  have n: "kcb_name demo_kcb_loop demo_kcb_layout 0x100 = Some ''Key''"
    by (simp add: kcb_eval demo_kcb_loop_def demo_kcb_layout_def)
  have p: "kcb_parent demo_kcb_loop demo_kcb_layout 0x100 = Some 0x100"
    by (simp add: kcb_eval demo_kcb_loop_def demo_kcb_layout_def)
  show ?thesis using full_key_name_cycle [OF k, of "{0x100}"] n p by simp
qed

end
