(* ===== verification/PE.thy ===== *)
theory PE
  imports AddressSpace
begin

text \<open>
  PE headers, classes \<open>_IMAGE_DOS_HEADER\<close>, \<open>_IMAGE_NT_HEADERS\<close> and
  \<open>_IMAGE_SECTION_HEADER\<close> of
  \<open>src/trunk/volatility/plugins/overlays/windows/windows.py\<close>.
  \<open>get_nt_header\<close> checks the DOS signature \<open>MZ\<close>, follows \<open>e_lfanew\<close> (a signed
  \<open>LONG\<close>, relative to the DOS header) and checks the NT signature \<open>PE\<close>,
  raising \<open>ValueError\<close> on a mismatch. \<open>get_sections\<close> is a generator: the
  section headers follow the optional header, \<open>SizeOfOptionalHeader\<close> bytes
  after its start, one every \<open>sizeof(_IMAGE_SECTION_HEADER)\<close> bytes; unless
  \<open>unsafe\<close>, each is checked against \<open>SizeOfImage\<close> before it is yielded, and
  the first failing check raises. A generator that yields and then raises is
  modelled by the list of what it yields and the exception that ends it. An
  absent value compares unequal to every number, so an unreadable signature
  raises; the messages keep their text and omit the formatted value. A
  section member that cannot be read ends the check with \<open>Unreadable\<close>, since
  Python 2 orders an absent value against a number by type, not by value.
\<close>

datatype pe_error = ValueError string | Unreadable string

record pe_layout =
  pe_e_magic :: int
  pe_e_lfanew :: int
  pe_signature :: int
  pe_file_header :: int
  pe_number_of_sections :: int
  pe_size_of_optional_header :: int
  pe_optional_header :: int
  pe_size_of_image :: int
  pe_sect_size :: nat
  pe_virtual_address :: int
  pe_virtual_size :: int
  pe_size_of_raw_data :: int

subsection \<open>\<open>_IMAGE_DOS_HEADER.get_nt_header\<close>\<close>

definition get_nt_header :: "addrspace \<Rightarrow> pe_layout \<Rightarrow> addr \<Rightarrow> pe_error + addr" where
  "get_nt_header vm L d =
     (if read_uint vm (d + pe_e_magic L) 2 \<noteq> Some 0x5A4D
      then Inl (ValueError ''e_magic is not a valid DOS signature.'')
      else (case read_sint vm (d + pe_e_lfanew L) 4 of
              None \<Rightarrow> Inl (ValueError ''NT header signature is not a valid'')
            | Some lfanew \<Rightarrow>
                (let nt = lfanew + d in
                 if is_valid_address vm nt \<and> read_uint vm (nt + pe_signature L) 4 = Some 0x4550
                 then Inr nt
                 else Inl (ValueError ''NT header signature is not a valid''))))"

subsection \<open>\<open>_IMAGE_SECTION_HEADER.sanity_check_section\<close>\<close>

text \<open>One bound check: a member past the image size raises \<open>ValueError\<close>.\<close>

definition section_check :: "string \<Rightarrow> int option \<Rightarrow> int \<Rightarrow> pe_error option" where
  "section_check msg v image_size =
     (case v of
        None \<Rightarrow> Some (Unreadable msg)
      | Some x \<Rightarrow> (if x > image_size then Some (ValueError msg) else None))"

text \<open>The first error of a sequence of checks, in order.\<close>

fun first_error :: "pe_error option list \<Rightarrow> pe_error option" where
  "first_error [] = None"
| "first_error (c # cs) = (case c of Some e \<Rightarrow> Some e | None \<Rightarrow> first_error cs)"

text \<open>
  The image size is the parent's \<open>OptionalHeader.SizeOfImage\<close>; the parent of
  a section is the NT header that produced it. On a \<open>NoneObject\<close> the method
  call does nothing.
\<close>

definition sanity_check_section :: "addrspace \<Rightarrow> pe_layout \<Rightarrow> addr \<Rightarrow> addr nobj \<Rightarrow> pe_error option" where
  "sanity_check_section vm L nt sect =
     (case sect of
        Inl _ \<Rightarrow> None
      | Inr s \<Rightarrow>
          (case read_uint vm (nt + pe_optional_header L + pe_size_of_image L) 4 of
             None \<Rightarrow> Some (Unreadable ''SizeOfImage'')
           | Some image_size \<Rightarrow>
               first_error
                 [section_check ''VirtualAddress is past the end of image.''
                    (read_uint vm (s + pe_virtual_address L) 4) image_size,
                  section_check ''VirtualSize is larger than image size.''
                    (read_uint vm (s + pe_virtual_size L) 4) image_size,
                  section_check ''SizeOfRawData is larger than image size.''
                    (read_uint vm (s + pe_size_of_raw_data L) 4) image_size]))"

subsection \<open>\<open>_IMAGE_NT_HEADERS.get_sections\<close>\<close>

text \<open>The loop over \<open>range(NumberOfSections)\<close>, from index \<open>i\<close> with \<open>k\<close> sections to go.\<close>

fun sections_loop ::
  "addrspace \<Rightarrow> pe_layout \<Rightarrow> addr \<Rightarrow> bool \<Rightarrow> int \<Rightarrow> nat \<Rightarrow> nat \<Rightarrow> addr nobj list \<times> pe_error option" where
  "sections_loop vm L nt unsafe start i 0 = ([], None)"
| "sections_loop vm L nt unsafe start i (Suc k) =
     (let sect = new_object vm (start + int i * int (pe_sect_size L)) in
      case (if unsafe then None else sanity_check_section vm L nt sect) of
        Some err \<Rightarrow> ([], Some err)
      | None \<Rightarrow> (let (rest, e) = sections_loop vm L nt unsafe start (Suc i) k in (sect # rest, e)))"

definition get_sections :: "addrspace \<Rightarrow> pe_layout \<Rightarrow> addr \<Rightarrow> bool \<Rightarrow> addr nobj list \<times> pe_error option" where
  "get_sections vm L nt unsafe =
     (case read_uint vm (nt + pe_file_header L + pe_size_of_optional_header L) 2 of
        None \<Rightarrow> ([], Some (Unreadable ''SizeOfOptionalHeader''))
      | Some sooh \<Rightarrow>
          (case read_uint vm (nt + pe_file_header L + pe_number_of_sections L) 2 of
             None \<Rightarrow> ([], Some (Unreadable ''NumberOfSections''))
           | Some n \<Rightarrow> sections_loop vm L nt unsafe (sooh + (nt + pe_optional_header L)) 0 (nat n)))"

text \<open>The objects at the section addresses from index \<open>i\<close>, \<open>k\<close> of them.\<close>

definition section_objects :: "addrspace \<Rightarrow> pe_layout \<Rightarrow> int \<Rightarrow> nat \<Rightarrow> nat \<Rightarrow> addr nobj list" where
  "section_objects vm L start i k = map (\<lambda>j. new_object vm (start + int j * int (pe_sect_size L))) [i..<i + k]"

subsection \<open>Example\<close>

text \<open>
  A compact layout: the DOS header at 0x100 with \<open>e_lfanew = 0x20\<close>, the NT
  header at 0x120 with two sections and a 4-byte optional header holding
  \<open>SizeOfImage = 0x1000\<close>, so that the section headers (12 bytes each) start
  at 0x130. The second section's \<open>VirtualAddress\<close> 0x2000 lies past the image.
\<close>

definition demo_pe_layout :: pe_layout where
  "demo_pe_layout = \<lparr>pe_e_magic = 0, pe_e_lfanew = 4, pe_signature = 0, pe_file_header = 4,
     pe_number_of_sections = 2, pe_size_of_optional_header = 4, pe_optional_header = 12,
     pe_size_of_image = 0, pe_sect_size = 12, pe_virtual_address = 0, pe_virtual_size = 4,
     pe_size_of_raw_data = 8\<rparr>"

definition demo_pe :: addrspace where
  "demo_pe = image_of (store_bytes 0x100 [CHR 0x4D, CHR 0x5A, CHR 0x00, CHR 0x00, CHR 0x20, CHR 0x00, CHR 0x00, CHR 0x00]
     @ store_bytes 0x120 [CHR 0x50, CHR 0x45, CHR 0x00, CHR 0x00, CHR 0x00, CHR 0x00, CHR 0x02, CHR 0x00,
                          CHR 0x04, CHR 0x00, CHR 0x00, CHR 0x00, CHR 0x00, CHR 0x10, CHR 0x00, CHR 0x00]
     @ store_bytes 0x130 [CHR 0x00, CHR 0x01, CHR 0x00, CHR 0x00, CHR 0x00, CHR 0x02, CHR 0x00, CHR 0x00,
                          CHR 0x00, CHR 0x02, CHR 0x00, CHR 0x00]
     @ store_bytes 0x13C [CHR 0x00, CHR 0x20, CHR 0x00, CHR 0x00, CHR 0x10, CHR 0x00, CHR 0x00, CHR 0x00,
                          CHR 0x10, CHR 0x00, CHR 0x00, CHR 0x00])"

subsection \<open>Headers\<close>

lemma get_nt_header_Inr:
  "(get_nt_header vm L d = Inr nt) =
     (read_uint vm (d + pe_e_magic L) 2 = Some 0x5A4D \<and>
      (\<exists>lfanew. read_sint vm (d + pe_e_lfanew L) 4 = Some lfanew \<and> nt = lfanew + d) \<and>
      is_valid_address vm nt \<and> read_uint vm (nt + pe_signature L) 4 = Some 0x4550)"
  by (auto simp: get_nt_header_def Let_def split: option.split)

lemma first_error_None [simp]: "(first_error cs = None) = (\<forall>c \<in> set cs. c = None)"
  by (induction cs) (auto split: option.split)

lemma section_check_None [simp]:
  "(section_check msg v image_size = None) = (\<exists>x. v = Some x \<and> x \<le> image_size)"
  by (auto simp: section_check_def split: option.split)

text \<open>A section header passes the check exactly when its three members are readable and within the image.\<close>

lemma sanity_check_section_ok:
  "(sanity_check_section vm L nt (Inr s) = None) =
     (\<exists>image_size. read_uint vm (nt + pe_optional_header L + pe_size_of_image L) 4 = Some image_size \<and>
        (\<exists>x. read_uint vm (s + pe_virtual_address L) 4 = Some x \<and> x \<le> image_size) \<and>
        (\<exists>x. read_uint vm (s + pe_virtual_size L) 4 = Some x \<and> x \<le> image_size) \<and>
        (\<exists>x. read_uint vm (s + pe_size_of_raw_data L) 4 = Some x \<and> x \<le> image_size))"
  by (simp add: sanity_check_section_def del: first_error.simps split: option.split)

subsection \<open>Sections\<close>

lemma length_section_objects [simp]: "length (section_objects vm L start i k) = k"
  by (simp add: section_objects_def)

text \<open>Without the check the generator yields one object per section, in order, and never raises.\<close>

lemma sections_loop_unsafe:
  "sections_loop vm L nt True start i k =
     (section_objects vm L start i k, None)"
  by (induction k arbitrary: i) (simp_all add: section_objects_def Let_def upt_rec)

text \<open>
  With the check it yields a prefix of the same sequence, each yielded object
  passes the check, and it yields all of them exactly when it does not raise;
  when it raises, the next section is the one that fails.
\<close>

lemma sections_loop_safe:
  shows "\<exists>m \<le> k. fst (sections_loop vm L nt False start i k) = take m (section_objects vm L start i k) \<and>
           (\<forall>x \<in> set (take m (section_objects vm L start i k)). sanity_check_section vm L nt x = None) \<and>
           (case snd (sections_loop vm L nt False start i k) of
              None \<Rightarrow> m = k
            | Some err \<Rightarrow> m < k \<and> sanity_check_section vm L nt (section_objects vm L start i k ! m) = Some err)"
proof (induction k arbitrary: i)
  case 0
  then show ?case by (simp add: section_objects_def)
next
  case (Suc k)
  define sect where "sect = new_object vm (start + int i * int (pe_sect_size L))"
  have secs_Suc: "section_objects vm L start i (Suc k) = sect # section_objects vm L start (Suc i) k"
    by (simp add: section_objects_def sect_def upt_rec)
  show ?case
  proof (cases "sanity_check_section vm L nt sect")
    case (Some err)
    then have "sections_loop vm L nt False start i (Suc k) = ([], Some err)"
      by (simp add: sect_def Let_def)
    then show ?thesis using Some secs_Suc by (intro exI [of _ 0]) simp
  next
    case None
    from Suc.IH [of "Suc i"] obtain m where m: "m \<le> k"
      and pre: "fst (sections_loop vm L nt False start (Suc i) k) = take m (section_objects vm L start (Suc i) k)"
      and ok: "\<forall>x \<in> set (take m (section_objects vm L start (Suc i) k)). sanity_check_section vm L nt x = None"
      and fin: "case snd (sections_loop vm L nt False start (Suc i) k) of None \<Rightarrow> m = k
                 | Some err \<Rightarrow> m < k \<and> sanity_check_section vm L nt (section_objects vm L start (Suc i) k ! m) = Some err"
      by blast
    have loop: "sections_loop vm L nt False start i (Suc k) =
        (sect # fst (sections_loop vm L nt False start (Suc i) k), snd (sections_loop vm L nt False start (Suc i) k))"
      using None by (simp add: sect_def Let_def split: prod.split)
    show ?thesis
      using m pre ok fin None secs_Suc loop
      by (intro exI [of _ "Suc m"]) (auto split: option.split)
  qed
qed

lemma get_sections_unsafe:
  assumes "read_uint vm (nt + pe_file_header L + pe_size_of_optional_header L) 2 = Some sooh"
    and "read_uint vm (nt + pe_file_header L + pe_number_of_sections L) 2 = Some n"
  shows "get_sections vm L nt True =
     (section_objects vm L (sooh + (nt + pe_optional_header L)) 0 (nat n), None)"
  using assms by (simp add: get_sections_def sections_loop_unsafe)

text \<open>The checked generator yields a prefix of what the unchecked one yields, and only checked sections.\<close>

lemma get_sections_safe_prefix:
  "\<exists>m. fst (get_sections vm L nt False) = take m (fst (get_sections vm L nt True)) \<and>
       (\<forall>x \<in> set (fst (get_sections vm L nt False)). sanity_check_section vm L nt x = None) \<and>
       (snd (get_sections vm L nt False) = None \<longrightarrow>
          get_sections vm L nt False = get_sections vm L nt True)"
proof (cases "read_uint vm (nt + pe_file_header L + pe_size_of_optional_header L) 2")
  case (Some sooh)
  note sooh = this
  show ?thesis
  proof (cases "read_uint vm (nt + pe_file_header L + pe_number_of_sections L) 2")
    case (Some n)
    define start where "start = sooh + (nt + pe_optional_header L)"
    from sections_loop_safe [where k = "nat n" and vm = vm and start = start and L = L and nt = nt and i = 0]
    obtain m where "m \<le> nat n"
      and pre: "fst (sections_loop vm L nt False start 0 (nat n)) = take m (section_objects vm L start 0 (nat n))"
      and ok: "\<forall>x \<in> set (take m (section_objects vm L start 0 (nat n))). sanity_check_section vm L nt x = None"
      and c: "case snd (sections_loop vm L nt False start 0 (nat n)) of None \<Rightarrow> m = nat n
         | Some err \<Rightarrow> m < nat n \<and> sanity_check_section vm L nt (section_objects vm L start 0 (nat n) ! m) = Some err"
      by blast
    from c have fin: "snd (sections_loop vm L nt False start 0 (nat n)) = None \<longrightarrow> m = nat n"
      by (auto split: option.split)
    show ?thesis
      using sooh Some pre ok fin \<open>m \<le> nat n\<close> unfolding start_def
      by (intro exI [of _ m]) (auto simp: get_sections_def sections_loop_unsafe prod_eq_iff split: option.split)
  qed (simp add: get_sections_def sooh)
qed (simp add: get_sections_def)

lemma get_sections_demo:
  "get_sections demo_pe demo_pe_layout 0x120 False =
     ([Inr 0x130], Some (ValueError ''VirtualAddress is past the end of image.''))"
  by (simp add: get_sections_def sanity_check_section_def section_check_def demo_pe_def demo_pe_layout_def
                mem_simps new_object_def is_valid_address_def Let_def numeral_eq_Suc)

end
