(* ===== verification/Presentation.thy ===== *)
theory Presentation
  imports AddressSpace "HOL-Library.List_Lexorder" "HOL-Library.Char_ord"
begin

text \<open>
  Presentation of values, \<open>IpAddress.v\<close> and \<open>_MMVAD_FLAGS.__str__\<close> (also
  used by \<open>_MMVAD_FLAGS2\<close> and \<open>_MMSECTION_FLAGS\<close>) of
  \<open>src/trunk/volatility/plugins/overlays/windows/windows.py\<close>. An
  \<open>IpAddress\<close> is read as the profile's \<open>unsigned long\<close> (four little-endian
  bytes on the Windows profiles), packed again with \<open>struct.pack("<I")\<close> and
  printed by \<open>socket.inet_ntoa\<close> as four decimal octets in byte order. A
  flags structure prints its nonzero bit fields, sorted by name, as
  \<open>name: value\<close> joined by commas. Numbers are printed in decimal as
  \<open>str()\<close> does.
\<close>

text \<open>\<open>str(n)\<close> of a natural number.\<close>

fun nat_str :: "nat \<Rightarrow> string" where
  "nat_str n = (if n < 10 then [char_of (48 + n)] else nat_str (n div 10) @ [char_of (48 + n mod 10)])"

declare nat_str.simps [simp del]

text \<open>\<open>socket.inet_ntoa(struct.pack("<I", v))\<close>: byte \<open>k\<close> of the packing is \<open>(v >> 8k) & 0xFF\<close>.\<close>

definition ip_dotted :: "int \<Rightarrow> string" where
  "ip_dotted v = str_join ''.'' (map (\<lambda>k. nat_str (nat (drop_bit (8 * k) v AND 255))) [0, 1, 2, 3])"

text \<open>
  \<open>IpAddress.v\<close> on the object \<open>obj.Object\<close> builds: a \<open>NoneObject\<close> at an
  invalid address; at a valid one, \<open>struct.pack\<close> raises \<open>struct.error\<close>
  (the left injection) when the value cannot be read.
\<close>

definition ip_address_v :: "addrspace \<Rightarrow> addr \<Rightarrow> string + string nobj" where
  "ip_address_v vm a =
     (if \<not> is_valid_address vm a then Inr (NoneObject ''Invalid Address'')
      else (case read_uint vm a 4 of
              None \<Rightarrow> Inl ''struct.error: required argument is not an integer''
            | Some v \<Rightarrow> Inr (Inr (ip_dotted v))))"

text \<open>\<open>obj.BitField.v\<close>: \<open>(i & ((1 << end_bit) - 1)) >> start_bit\<close>.\<close>

definition bitfield_v :: "int \<Rightarrow> nat \<Rightarrow> nat \<Rightarrow> int" where
  "bitfield_v w start_bit end_bit = drop_bit start_bit (take_bit end_bit w)"

text \<open>
  The members of a flags structure are its bit fields, each with its name and
  bit range; \<open>sorted(self.members.keys())\<close> orders the names as Python
  orders strings, lexicographically by character code.
\<close>

definition flags_entries :: "(string \<times> nat \<times> nat) list \<Rightarrow> int \<Rightarrow> (string \<times> nat \<times> nat) list" where
  "flags_entries members w = filter (\<lambda>(name, s, e). bitfield_v w s e \<noteq> 0) (sort_key fst members)"

definition flags_str :: "(string \<times> nat \<times> nat) list \<Rightarrow> int \<Rightarrow> string" where
  "flags_str members w =
     str_join '', '' (map (\<lambda>(name, s, e). name @ '': '' @ nat_str (nat (bitfield_v w s e))) (flags_entries members w))"

text \<open>Reading back a decimal string.\<close>

definition parse_nat :: "string \<Rightarrow> nat" where
  "parse_nat s = foldl (\<lambda>acc c. 10 * acc + (of_char c - 48)) 0 s"

subsection \<open>Decimal printing\<close>

text \<open>Printing and reading back a number is the identity.\<close>

lemma parse_nat_str: "parse_nat (nat_str n) = n"
proof (induction n rule: nat_str.induct)
  case (1 n)
  show ?case
  proof (cases "n < 10")
    case True
    then show ?thesis by (simp add: nat_str.simps [of n] parse_nat_def)
  next
    case False
    then have "parse_nat (nat_str n) = 10 * parse_nat (nat_str (n div 10)) + n mod 10"
      by (simp add: nat_str.simps [of n] parse_nat_def)
    with 1 False show ?thesis by simp
  qed
qed

lemma nat_str_inj: "nat_str m = nat_str n \<Longrightarrow> m = n"
  by (metis parse_nat_str)

subsection \<open>Addresses\<close>

lemma and255: "(x::int) AND 255 = x mod 256"
proof -
  have "x AND mask 8 = x mod 256" by (simp add: take_bit_eq_mask [symmetric] take_bit_eq_mod)
  moreover have "(255::int) = mask 8" by (simp add: mask_eq_exp_minus_1)
  ultimately show ?thesis by simp
qed

text \<open>Byte \<open>k\<close> of a little-endian decoding is the \<open>k\<close>-th byte read.\<close>

lemma le_decode_byte:
  "k < length cs \<Longrightarrow> drop_bit (8 * k) (int (le_decode cs)) AND 255 = int (of_char (cs ! k))"
proof (induction cs arbitrary: k)
  case Nil
  then show ?case by simp
next
  case (Cons c cs)
  have c: "int (of_char c) < 256" using nat_of_char_less_256 [of c] by simp
  show ?case
  proof (cases k)
    case 0
    have "(int (of_char c) + 256 * int (le_decode cs)) mod 256 = int (of_char c)"
      using c by simp
    then show ?thesis using 0 by (simp add: and255)
  next
    case (Suc j)
    have shift: "drop_bit (8 * Suc j) x = drop_bit (8 * j) (drop_bit 8 x)" for x :: int
      by (simp add: drop_bit_drop_bit add.commute)
    have "drop_bit 8 (int (of_char c) + 256 * int (le_decode cs)) = int (le_decode cs)"
      using c by (simp add: drop_bit_eq_div)
    then have "drop_bit (8 * Suc j) (int (of_char c) + 256 * int (le_decode cs)) =
          drop_bit (8 * j) (int (le_decode cs))"
      by (simp only: shift)
    with Cons.IH [of j] Cons.prems Suc show ?thesis by simp
  qed
qed

text \<open>The printed address lists the four bytes in the order they lie in memory.\<close>

lemma ip_address_v_bytes:
  assumes "read vm a 4 = Some [c0, c1, c2, c3]"
  shows "ip_address_v vm a =
    Inr (Inr (str_join ''.'' (map (\<lambda>c. nat_str (of_char c)) [c0, c1, c2, c3])))"
proof -
  let ?cs = "[c0, c1, c2, c3]"
  have v: "is_valid_address vm a"
    using assms read_Some_iff_valid [of vm a 4] by fastforce
  have r: "read_uint vm a 4 = Some (int (le_decode ?cs))" using assms by (simp add: read_uint_def)
  have b: "nat (drop_bit (8 * k) (int (le_decode ?cs)) AND 255) = of_char (?cs ! k)" if "k < 4" for k
    using le_decode_byte [of k ?cs] that by simp
  have "map (\<lambda>k. nat_str (nat (drop_bit (8 * k) (int (le_decode ?cs)) AND 255))) [0, 1, 2, 3] =
        map (\<lambda>c. nat_str (of_char c)) ?cs"
    using b [of 0] b [of 1] b [of 2] b [of 3] by simp
  then show ?thesis using v r by (simp add: ip_address_v_def ip_dotted_def)
qed

subsection \<open>Flags\<close>

text \<open>The printed flags are the nonzero fields, by name in sorted order.\<close>

lemma flags_entries_sorted: "sorted (map fst (flags_entries members w))"
  by (simp add: flags_entries_def sorted_filter)

lemma flags_entries_nonzero:
  "(name, s, e) \<in> set (flags_entries members w) \<Longrightarrow> (name, s, e) \<in> set members \<and> bitfield_v w s e \<noteq> 0"
  by (auto simp: flags_entries_def)

lemma flags_str_zero: "flags_str members 0 = []"
  by (simp add: flags_str_def flags_entries_def bitfield_v_def)

lemma flags_str_example:
  "flags_str [(''Protection'', 24, 29), (''CommitCharge'', 0, 19), (''PrivateMemory'', 31, 32)] 0x86000005 =
     ''CommitCharge: 5, PrivateMemory: 1, Protection: 6''"
  by code_simp

end
