(* ===== verification/Magic.thy ===== *)
theory Magic
  imports Profile
begin

text \<open>
  The suggestion objects of the \<open>VOLATILITY_MAGIC\<close> structure, classes
  \<open>VolatilityKPCR\<close> and \<open>VolatilityKDBG\<close> of
  \<open>src/trunk/volatility/plugins/overlays/windows/windows.py\<close>. A member of
  \<open>VOLATILITY_MAGIC\<close> is a \<open>VolatilityMagic\<close> object whose \<open>v()\<close> is the
  \<open>value\<close> argument its type descriptor carries in the profile's catalogue
  (\<open>obj.VolatilityMagic\<close>, modelled from the spec). The KDBG object passes the
  \<open>KDBGHeader\<close> value as the only needle to the KDBG scanner; the KPCR object
  drops its \<open>value\<close> argument and forwards the KPCR scanner. Scanners are
  pluggable strategies outside the sources (spec, out of scope), so they are
  parameters: a function from the needles and the address space to the
  offsets found. The needle depends on the order in which \<open>WindowsOverlay\<close>
  and \<open>AbstractKDBGMod\<close> patch the catalogue.
\<close>

text \<open>The type descriptor of a member of \<open>VOLATILITY_MAGIC\<close>.\<close>

definition magic_field :: "vtypes \<Rightarrow> string \<Rightarrow> vtype option" where
  "magic_field vt f =
     (case vt ''VOLATILITY_MAGIC'' of
        None \<Rightarrow> None
      | Some s \<Rightarrow> (case map_of (snd s) f of None \<Rightarrow> None | Some fd \<Rightarrow> snd fd))"

text \<open>\<open>obj.VolMagic(vm).<member>.v()\<close>: the \<open>value\<close> of a \<open>VolatilityMagic\<close> member.\<close>

definition magic_value :: "vtypes \<Rightarrow> string \<Rightarrow> pyval option" where
  "magic_value vt f =
     (case magic_field vt f of
        Some (VType ty params) \<Rightarrow>
          (if ty = ''VolatilityMagic'' then
             (case map_of params ''value'' of Some (AVal v) \<Rightarrow> Some v | _ \<Rightarrow> None)
           else None)
      | _ \<Rightarrow> None)"

text \<open>
  \<open>VolatilityKDBG.generate_suggestions\<close>: the scanner's results for the needle
  \<open>KDBGHeader.v()\<close>; a catalogue without that member raises \<open>AttributeError\<close>.
\<close>

definition kdbg_suggestions ::
  "(pyval list \<Rightarrow> addrspace \<Rightarrow> addr list) \<Rightarrow> vtypes \<Rightarrow> addrspace \<Rightarrow> string + addr list" where
  "kdbg_suggestions scan vt vm =
     (case magic_value vt ''KDBGHeader'' of
        None \<Rightarrow> Inl ''AttributeError: KDBGHeader''
      | Some needle \<Rightarrow> Inr (scan [needle] vm))"

text \<open>\<open>VolatilityKPCR.__init__\<close> removes the \<open>value\<close> keyword argument.\<close>

definition kpcr_init_args :: "(string \<times> targ) list \<Rightarrow> (string \<times> targ) list" where
  "kpcr_init_args kwargs = AList.delete ''value'' kwargs"

text \<open>\<open>VolatilityKPCR.generate_suggestions\<close>: the results of the KPCR scanner.\<close>

definition kpcr_suggestions :: "(addrspace \<Rightarrow> addr list) \<Rightarrow> addrspace \<Rightarrow> addr list" where
  "kpcr_suggestions scan vm = scan vm"

text \<open>The patch \<open>AbstractKDBGMod\<close> merges into the catalogue for a signature.\<close>

definition kdbg_patch :: "string \<Rightarrow> (string \<times> struct_def) list" where
  "kdbg_patch sig =
     [(''VOLATILITY_MAGIC'', (None, [(''KDBGHeader'', (None, Some (VType ''VolatilityMagic'' [(''value'', AVal (PyStr sig))])))]))]"

subsection \<open>The needle\<close>

lemma kdbg_mod_apply_Inr:
  "kdbg_signature p k = Inr sig \<Longrightarrow>
     mod_apply (kdbg_mod k) p = Inr (p\<lparr>vtypes := merge_overlay (vtypes p) (kdbg_patch sig)\<rparr>)"
  by (simp add: kdbg_mod_def kdbg_patch_def)

lemma kdbg_signature_vtypes: "kdbg_signature (p\<lparr>vtypes := v\<rparr>) k = kdbg_signature p k"
  by (simp add: kdbg_signature_def)

text \<open>After the KDBG patch, whatever the catalogue held, the needle is the signature.\<close>

lemma magic_value_kdbg_patch:
  "magic_value (merge_overlay vt (kdbg_patch sig)) ''KDBGHeader'' = Some (PyStr sig)"
  by (simp add: magic_value_def magic_field_def kdbg_patch_def merge_struct_def merge_field_def
                keep_or_def update_conv' split: option.split)

text \<open>After the Windows overlay, whatever the catalogue held, the needle is its placeholder.\<close>

lemma magic_value_windows_overlay:
  "magic_value (merge_overlay vt windows_overlay) ''KDBGHeader'' =
     Some (PyStr ''Volatility KDBGHeader unspecified'')"
proof -
  have d: "distinct (map fst windows_overlay)" using wf_windows_overlay by (simp add: wf_overlay_def)
  obtain p where p: "map_of windows_overlay ''VOLATILITY_MAGIC'' = Some p"
    and kh: "map_of (snd p) ''KDBGHeader'' =
      Some (Some 0, Some (VType ''VolatilityMagic'' [(''value'', AVal (PyStr ''Volatility KDBGHeader unspecified''))]))"
    by (simp add: windows_overlay_def)
  have "wf_struct p" using wf_windows_overlay p by (rule wf_overlay_struct)
  then have dp: "distinct (map fst (snd p))" by (simp add: wf_struct_def)
  show ?thesis
    using p kh dp
    by (simp add: merge_overlay_at [OF d] magic_value_def magic_field_def merge_struct_def
                  map_of_merge_members merge_field_def keep_or_def split: option.split)
qed

subsection \<open>Order of the two modifications\<close>

text \<open>
  Neither modification names the other in its \<open>before\<close> set, so the engine
  keeps their catalogue order. When the overlay comes first the KDBG scanner
  looks for the signature; when \<open>AbstractKDBGMod\<close> comes first the overlay
  replaces its member and the scanner looks for the placeholder string.
\<close>

lemma kdbg_needle_overlay_first:
  assumes "metadata p ''os'' = Some ''windows''" and "kdbg_signature p k = Inr sig"
  shows "\<exists>p'. apply_mods [windows_overlay_mod, kdbg_mod k] p = Inr p' \<and>
              kdbg_suggestions scan (vtypes p') vm = Inr (scan [PyStr sig] vm)"
proof -
  have t: "tsort [windows_overlay_mod, kdbg_mod k] = Some [windows_overlay_mod, kdbg_mod k]"
    by (simp add: ready_def windows_overlay_mod_def kdbg_mod_def)
  let ?p1 = "p\<lparr>vtypes := merge_overlay (vtypes p) windows_overlay\<rparr>"
  have "apply_mods [windows_overlay_mod, kdbg_mod k] p =
        Inr (?p1\<lparr>vtypes := merge_overlay (vtypes ?p1) (kdbg_patch sig)\<rparr>)"
    using assms t kdbg_mod_apply_Inr [of ?p1 k sig]
    by (simp add: apply_mods_def conditions_hold_def is_windows_def windows_overlay_mod_apply
                  kdbg_signature_vtypes windows_overlay_mod_def kdbg_mod_def)
  then show ?thesis by (simp add: kdbg_suggestions_def magic_value_kdbg_patch)
qed

lemma kdbg_needle_kdbg_first:
  assumes "metadata p ''os'' = Some ''windows''" and "kdbg_signature p k = Inr sig"
  shows "\<exists>p'. apply_mods [kdbg_mod k, windows_overlay_mod] p = Inr p' \<and>
              kdbg_suggestions scan (vtypes p') vm =
                Inr (scan [PyStr ''Volatility KDBGHeader unspecified''] vm)"
proof -
  have t: "tsort [kdbg_mod k, windows_overlay_mod] = Some [kdbg_mod k, windows_overlay_mod]"
    by (simp add: ready_def windows_overlay_mod_def kdbg_mod_def)
  let ?p1 = "p\<lparr>vtypes := merge_overlay (vtypes p) (kdbg_patch sig)\<rparr>"
  have "apply_mods [kdbg_mod k, windows_overlay_mod] p =
        Inr (?p1\<lparr>vtypes := merge_overlay (vtypes ?p1) windows_overlay\<rparr>)"
    using assms t kdbg_mod_apply_Inr [of p k sig]
    by (simp add: apply_mods_def conditions_hold_def is_windows_def windows_overlay_mod_apply
                  windows_overlay_mod_def kdbg_mod_def)
  then show ?thesis by (simp add: kdbg_suggestions_def magic_value_windows_overlay)
qed


text \<open>The KPCR object never passes its \<open>value\<close> on.\<close>

lemma kpcr_init_args_no_value: "map_of (kpcr_init_args kwargs) ''value'' = None"
  by (simp add: kpcr_init_args_def delete_conv')

subsection \<open>Witness\<close>


end
