(* ===== verification/Spec2Isabelle.thy ===== *)
theory Spec2Isabelle
  imports Loader Vad HandleTable ObjectHeader Validator TimeStamp Process Registry PE Presentation Magic
begin

text \<open>
  \<^bold>\<open>A model of Volatility's address-space resolver and Windows object layer.\<close>

  The program reconstructs Windows kernel structures from a raw memory image.
  Its sources here are \<open>src/branches/Volatility-1.4_beta1/volatility/utils.py\<close>
  (the resolver \<open>load_as\<close>) and
  \<open>src/trunk/volatility/plugins/overlays/windows/windows.py\<close> (the schema
  overlay, the profile modifications and the classes that give behaviour to
  Windows structures). The object layer these build on (\<open>obj.py\<close>,
  \<open>addrspace.py\<close>, the paged address spaces, the scanners) is not among the
  sources; what the model needs of it is modelled from the spec and marked so
  in the manifest.

  \<^bold>\<open>How the parts interact.\<close> \<open>load_as\<close> stacks address spaces by voting
  over the catalogue of classes. A profile's structure catalogue is built from
  generated tables, the overlay \<open>windows_overlay\<close> patched onto them by
  \<open>WindowsOverlay\<close>, further tables (\<open>WindowsVTypes\<close>), the class table
  (\<open>WindowsObjectClasses\<close>) and the KDBG signature (\<open>AbstractKDBGMod\<close>), applied
  in the order their \<open>before\<close> sets require. Objects are then read at offsets
  of an address space: lists, trees and tables are walked by following
  pointers, and every read of an invalid address gives an absent value
  (\<open>NoneObject\<close>) instead of an exception.

  \<^bold>\<open>Theories.\<close>
  \<^item> \<open>Prelude\<close>: the types \<open>addr = int\<close> and \<open>'a nobj = string + 'a\<close>
    (\<open>Inl\<close> is a \<open>NoneObject\<close> with its reason), the collections \<open>mem_simps\<close>
    and \<open>walk_simps\<close>, the finite-set measure of every cycle-safe walk, lemmas
    on \<open>those\<close>, association lists and bit operations on \<open>int\<close>.
  \<^item> \<open>AddressSpace\<close>: an image is a partial map from addresses to bytes;
    \<open>read\<close>, \<open>zread\<close>, little-endian \<open>read_uint\<close> and \<open>read_sint\<close>,
    \<open>read_string\<close>, \<open>new_object\<close> (\<open>obj.Object\<close>), \<open>read_ptr_deref\<close>
    (\<open>Pointer.dereference\<close>); encode/decode round trips.
  \<^item> \<open>Loader\<close> (\<open>utils.py: load_as\<close>): a voting round and the loop of rounds as
    a \<open>partial_function (option)\<close>; C1 to C4 show the error reasons, the
    result, the propagation of faults and termination under a ranking.
  \<^item> \<open>ListEntry\<close> (\<open>_LIST_ENTRY.list_of_type\<close>, \<open>__nonzero__\<close>, \<open>__iter__\<close>): the walk with
    its \<open>seen\<close> set; C5 to C8 give the elements of a ring, the element lost
    at a back edge, termination and distinctness.
  \<^item> \<open>Vad\<close> (\<open>_MMVAD.__new__\<close>, \<open>_MMVAD_SHORT\<close>: \<open>traverse\<close>,
    \<open>get_parent\<close>, \<open>get_control_area\<close>, \<open>get_file_object\<close>, \<open>get_start\<close>,
    \<open>get_end\<close>, \<open>get_data\<close>): tag dispatch and the recursive traversal with
    its visited set; C9 to C13 show termination, distinctness below the
    root, the root yielded twice, refinement of a preorder walk of the tree,
    dispatch. The region lemmas show the length of \<open>get_data\<close> and that its
    guard bounds the end of a region 4096 times higher than its start.
  \<^item> \<open>UnicodeString\<close> (\<open>_UNICODE_STRING\<close>): C14, C15.
  \<^item> \<open>HandleTable\<close> (\<open>_HANDLE_TABLE\<close>, \<open>_EX_FAST_REF\<close>): the multi-level walk of
    \<open>_make_handle_array\<close> as a function on the level; C16 to C20 show sorted
    handles for two levels, the collision of handle values for three, the
    values of a one-level table and the pointer/reference-count round trip.
  \<^item> \<open>Schema\<close> (\<open>windows_overlay\<close>): the overlay data and the merge of a patch
    into a catalogue, with its well-formedness invariant; C24.
  \<^item> \<open>Profile\<close> (\<open>WindowsOverlay\<close>, \<open>WindowsVTypes\<close>, \<open>WindowsObjectClasses\<close>,
    \<open>AbstractKDBGMod\<close>, and the modification engine of \<open>obj.py\<close>): the
    topological sort by \<open>before\<close> sets as a \<open>function\<close> with a length measure;
    C21 to C23 and C25 to C30 show idempotence and the invariant of the
    overlay patch, soundness and completeness of the sort, the conditions
    typo, the replacement of patched structures and the KDBG signature.
  \<^item> \<open>ObjectHeader\<close> (\<open>_OBJECT_HEADER\<close>, \<open>_FILE_OBJECT\<close>): optional headers
    located backwards from the header, C31 to C33.
  \<^item> \<open>Validator\<close> (\<open>VolatilityIA32ValidAS\<close>): the self-map and shared-page
    tests over IA32 and PAE page tables; C34 and C35.
  \<^item> \<open>TimeStamp\<close> (\<open>WinTimeStamp\<close>, \<open>ThreadCreateTimeStamp\<close>): the signed
    64-bit count converted to UNIX time; C37 bounds it, C38 is a round trip.
  \<^item> \<open>Process\<close> (\<open>_EPROCESS\<close>, \<open>_TOKEN\<close>, \<open>_ETHREAD\<close>): the process address
    space (a constructor parameter \<open>mk_as\<close>), \<open>Peb\<close>, the module lists through
    \<open>ListEntry\<close>, \<open>get_vads\<close> through \<open>Vad\<close>, \<open>get_token\<close> through
    \<open>HandleTable\<close>'s fast reference; termination of the composed walks; C40
    characterises the tokens \<open>get_token\<close> returns.
  \<^item> \<open>Registry\<close> (\<open>_CM_KEY_BODY.full_key_name\<close>): the climb over parent
    control blocks as a \<open>partial_function (option)\<close>; a path lemma gives its
    result on a chain that ends, and C39 shows that it never returns on a
    chain that loops.
  \<^item> \<open>PE\<close> (\<open>_IMAGE_DOS_HEADER\<close>, \<open>_IMAGE_NT_HEADERS\<close>,
    \<open>_IMAGE_SECTION_HEADER\<close>): signature checks with \<open>ValueError\<close> as a sum,
    the section generator as the list it yields with the exception that ends
    it; the checked generator yields a prefix of the unchecked one and only
    sections within the image.
  \<^item> \<open>Presentation\<close> (\<open>IpAddress.v\<close>, \<open>_MMVAD_FLAGS.__str__\<close>): decimal
    printing with its parse round trip, the dotted address listing the four
    bytes in memory order, and the flags string of the nonzero bit fields in
    name order.
  \<^item> \<open>Magic\<close> (\<open>VolatilityKDBG\<close>, \<open>VolatilityKPCR\<close>): the \<open>VOLATILITY_MAGIC\<close>
    values of the catalogue and the suggestion generators, with the scanners
    as parameters; C36 shows that the KDBG needle is the signature or the
    overlay's placeholder depending on the catalogue order of
    \<open>WindowsOverlay\<close> and \<open>AbstractKDBGMod\<close>.

  \<^bold>\<open>Loops, fuel and bounds.\<close> No loop has fuel. The loops with no bound in the
  code (\<open>load_as\<close>, \<open>list_of_type\<close>, \<open>traverse\<close>, \<open>full_key_name\<close>) are
  \<open>partial_function (option)\<close>, \<open>None\<close> meaning that the loop does not
  return; their termination is proved where it holds (a finite image for
  the walks with a seen set, a ranking for \<open>load_as\<close>) and its failure where
  it does not (\<open>full_key_name\<close> on a cycle). The handle table walk is
  structural in its level, the section loop in the section count, the
  modification sort by the length of the list. Integers are Python's
  unbounded integers; fixed-width reads bound them (\<open>read_uint_bound\<close>,
  \<open>read_sint_bound\<close>), and the 64-bit time stamp is related to \<open>sint\<close> of a
  \<open>64 word\<close>.

  \<^bold>\<open>Not modelled.\<close> The time stamps' \<open>__str__\<close>, \<open>__format__\<close> and
  \<open>as_datetime\<close> and \<open>_UNICODE_STRING.__format__\<close> format values for
  display through \<open>datetime\<close> and \<open>timefmt\<close>, which the spec puts out of
  scope. The scanners behind \<open>VolatilityKPCR\<close> and \<open>VolatilityKDBG\<close> are
  out of scope too and appear as parameters. \<open>_TOKEN.get_sids\<close> iterates
  over absent values when a SID pointer is invalid, and the iteration
  protocol of absent values lies outside the sources.
  \<open>AbstractWindows\<close> is a deprecated profile with no behaviour. Member
  offsets come from profile tables that are not among the sources; each
  component takes them as a layout record.
\<close>

end
